theory Spec2Isabelle
  imports Main "HOL-Library.AList"
begin

section \<open>Exceptions\<close>

text \<open>
  The standard exceptions that leave a member function of the program: the two that the
  program throws itself, and \<^verbatim>\<open>std::length_error\<close>, which the string of
  \<^verbatim>\<open>Tape::get_content\<close> throws. Their message strings play no part in the control
  flow and are left out. A member function that can throw returns a sum, \<open>Inl\<close>
  carrying the exception.
\<close>

datatype exception = invalid_argument | out_of_range | length_error

section \<open>Movement and Tape (Transition.hpp, Tape.hpp, Tape.cpp)\<close>

text \<open>
  The enumeration \<^verbatim>\<open>Movement\<close> of Transition.hpp.
\<close>

datatype Movement = LEFT | RIGHT | STAY

text \<open>
  Class \<^verbatim>\<open>Tape\<close>. The member \<^verbatim>\<open>std::unordered_map<int, char> cells_\<close> is an
  association list (the iteration order of an unordered map is unspecified and no
  operation of the class depends on it); lookups are \<^const>\<open>map_of\<close>, the subscript
  assignment is \<^const>\<open>AList.update\<close> and \<^verbatim>\<open>erase\<close> is \<^const>\<open>AList.delete\<close>.
  The head position is a C++ \<^verbatim>\<open>int\<close>; signed overflow is undefined in C++, so for
  the moves of the head the model takes the mathematical integers and describes the
  runs in which the head stays inside the range of \<^verbatim>\<open>int\<close>.
\<close>

record Tape =
  cells :: "(int \<times> char) list"
  head_position :: int
  blank_symbol :: char

definition Tape_init :: "char \<Rightarrow> Tape" where
  "Tape_init blank = \<lparr>cells = [], head_position = 0, blank_symbol = blank\<rparr>"

definition Tape_read :: "Tape \<Rightarrow> char" where
  "Tape_read t =
     (case map_of (cells t) (head_position t) of
        Some c \<Rightarrow> c
      | None \<Rightarrow> blank_symbol t)"

definition Tape_write :: "char \<Rightarrow> Tape \<Rightarrow> Tape" where
  "Tape_write symbol t =
     (if symbol = blank_symbol t
      then t\<lparr>cells := AList.delete (head_position t) (cells t)\<rparr>
      else t\<lparr>cells := AList.update (head_position t) symbol (cells t)\<rparr>)"

definition Tape_move_left :: "Tape \<Rightarrow> Tape" where
  "Tape_move_left t = t\<lparr>head_position := head_position t - 1\<rparr>"

definition Tape_move_right :: "Tape \<Rightarrow> Tape" where
  "Tape_move_right t = t\<lparr>head_position := head_position t + 1\<rparr>"

definition Tape_get_head_position :: "Tape \<Rightarrow> int" where
  "Tape_get_head_position t = head_position t"

definition Tape_set_head_position :: "int \<Rightarrow> Tape \<Rightarrow> Tape" where
  "Tape_set_head_position position t = t\<lparr>head_position := position\<rparr>"

definition Tape_get_blank_symbol :: "Tape \<Rightarrow> char" where
  "Tape_get_blank_symbol t = blank_symbol t"

text \<open>
  \<^verbatim>\<open>Tape::reset\<close>: the loop over the indices of the input string is a fold over the
  characters paired with their index. The index is a \<^verbatim>\<open>size_t\<close> that the source casts
  to \<^verbatim>\<open>int\<close>; the cast changes nothing for an input of fewer than \<open>2 ^ 31\<close> characters,
  and the model describes those inputs.
\<close>

definition Tape_reset :: "string \<Rightarrow> Tape \<Rightarrow> Tape" where
  "Tape_reset input_string t =
     t\<lparr>cells := fold (\<lambda>(i, c) cs. if c \<noteq> blank_symbol t then AList.update (int i) c cs else cs)
                     (zip [0..<length input_string] input_string) [],
       head_position := 0\<rparr>"

definition Tape_init_word :: "string \<Rightarrow> char \<Rightarrow> Tape" where
  "Tape_init_word input_string blank = Tape_reset input_string (Tape_init blank)"

text \<open>
  The greatest value of a C++ \<^verbatim>\<open>int\<close> (32 bits).
\<close>

definition INT_MAX :: int where
  "INT_MAX = 2147483647"

text \<open>
  \<^verbatim>\<open>Tape::get_content\<close>: \<^verbatim>\<open>std::minmax_element\<close> over the keys, then one character
  per position from the least to the greatest key. The width
  \<^verbatim>\<open>max_pos - min_pos + 1\<close> handed to \<^verbatim>\<open>reserve\<close> and the counter \<^verbatim>\<open>pos\<close> of the loop
  are \<^verbatim>\<open>int\<close>s. When the width is greater than \<open>INT_MAX\<close> the subtraction or the
  addition overflows; in two's complement the result is negative (or zero when the keys
  are the least and the greatest \<^verbatim>\<open>int\<close>), \<^verbatim>\<open>reserve\<close> converts a negative width to a
  \<^verbatim>\<open>size_t\<close> beyond the maximal size of a string and throws \<^verbatim>\<open>std::length_error\<close>.
  When \<^verbatim>\<open>max_pos\<close> is \<open>INT_MAX\<close> the test \<^verbatim>\<open>pos <= max_pos\<close> holds for every \<^verbatim>\<open>int\<close>
  and \<^verbatim>\<open>++pos\<close> overflows, so the loop has no exit but the exception of the string
  that grows past its maximal size. These signed overflows are undefined behaviour in
  C++; in the model the call then ends with \<open>length_error\<close> and returns no string.
\<close>

definition Tape_get_content :: "Tape \<Rightarrow> exception + string" where
  "Tape_get_content t =
     (if cells t = [] then Inr []
      else let min_pos = Min (set (map fst (cells t)));
               max_pos = Max (set (map fst (cells t)))
           in if max_pos - min_pos + 1 \<le> INT_MAX \<and> max_pos < INT_MAX
              then Inr (map (\<lambda>pos. case map_of (cells t) pos of
                                      Some c \<Rightarrow> c
                                    | None \<Rightarrow> blank_symbol t)
                            [min_pos..max_pos])
              else Inl length_error)"

definition Tape_is_empty :: "Tape \<Rightarrow> bool" where
  "Tape_is_empty t = (cells t = [])"

text \<open>
  Invariant I5 of the data model: a stored cell never holds the blank symbol.
\<close>

definition Tape_compact :: "Tape \<Rightarrow> bool" where
  "Tape_compact t = (\<forall>(p, c) \<in> set (cells t). c \<noteq> blank_symbol t)"

text \<open>
  The reading of the tape at an arbitrary position, and the content as the specification
  words it: the window from the leftmost to the rightmost non-blank position.
\<close>

definition symbol_at :: "Tape \<Rightarrow> int \<Rightarrow> char" where
  "symbol_at t p = (case map_of (cells t) p of Some c \<Rightarrow> c | None \<Rightarrow> blank_symbol t)"

definition nonblank_positions :: "Tape \<Rightarrow> int set" where
  "nonblank_positions t = {p. symbol_at t p \<noteq> blank_symbol t}"

definition content_spec :: "Tape \<Rightarrow> string" where
  "content_spec t =
     (if nonblank_positions t = {} then []
      else map (symbol_at t) [Min (nonblank_positions t)..Max (nonblank_positions t)])"

text \<open>
  Whether the window of a tape can be computed in \<^verbatim>\<open>int\<close>s: there is no non-blank
  cell, or the width of the window is at most \<open>INT_MAX\<close> and its right end is below
  \<open>INT_MAX\<close>.
\<close>

definition content_fits :: "Tape \<Rightarrow> bool" where
  "content_fits t =
     (nonblank_positions t = {}
      \<or> (Max (nonblank_positions t) - Min (nonblank_positions t) + 1 \<le> INT_MAX
         \<and> Max (nonblank_positions t) < INT_MAX))"

text \<open>
  A tape with two non-blank cells, 3000000000 cells apart, built with the member
  functions of the class.
\<close>

definition wide_tape :: Tape where
  "wide_tape =
     Tape_write CHR ''b''
       (Tape_set_head_position 1500000000
         (Tape_write CHR ''a''
           (Tape_set_head_position (- 1500000000) (Tape_init CHR ''.''))))"
section \<open>MultiTape (MultiTape.hpp, MultiTape.cpp)\<close>

text \<open>
  Class \<^verbatim>\<open>MultiTape\<close>: the vector of tapes and the separately stored count.
\<close>

record MultiTape =
  tapes :: "Tape list"
  num_tapes :: nat

definition MultiTape_init :: "nat \<Rightarrow> char \<Rightarrow> exception + MultiTape" where
  "MultiTape_init n blank =
     (if n = 0 then Inl invalid_argument
      else Inr \<lparr>tapes = replicate n (Tape_init blank), num_tapes = n\<rparr>)"

definition MultiTape_init_word :: "nat \<Rightarrow> string \<Rightarrow> char \<Rightarrow> exception + MultiTape" where
  "MultiTape_init_word n input_word blank =
     (if n = 0 then Inl invalid_argument
      else Inr \<lparr>tapes = Tape_init_word input_word blank # replicate (n - 1) (Tape_init blank),
                num_tapes = n\<rparr>)"

definition MultiTape_is_valid_tape_index :: "MultiTape \<Rightarrow> nat \<Rightarrow> bool" where
  "MultiTape_is_valid_tape_index mt tape_index = (tape_index < num_tapes mt)"

definition MultiTape_read :: "MultiTape \<Rightarrow> nat \<Rightarrow> exception + char" where
  "MultiTape_read mt tape_index =
     (if \<not> MultiTape_is_valid_tape_index mt tape_index then Inl out_of_range
      else Inr (Tape_read (tapes mt ! tape_index)))"

definition MultiTape_write :: "nat \<Rightarrow> char \<Rightarrow> MultiTape \<Rightarrow> exception + MultiTape" where
  "MultiTape_write tape_index symbol mt =
     (if \<not> MultiTape_is_valid_tape_index mt tape_index then Inl out_of_range
      else Inr (mt\<lparr>tapes := (tapes mt)[tape_index := Tape_write symbol (tapes mt ! tape_index)]\<rparr>))"

definition MultiTape_move :: "nat \<Rightarrow> Movement \<Rightarrow> MultiTape \<Rightarrow> exception + MultiTape" where
  "MultiTape_move tape_index mv mt =
     (if \<not> MultiTape_is_valid_tape_index mt tape_index then Inl out_of_range
      else Inr (case mv of
                  LEFT \<Rightarrow> mt\<lparr>tapes := (tapes mt)[tape_index := Tape_move_left (tapes mt ! tape_index)]\<rparr>
                | RIGHT \<Rightarrow> mt\<lparr>tapes := (tapes mt)[tape_index := Tape_move_right (tapes mt ! tape_index)]\<rparr>
                | STAY \<Rightarrow> mt))"

definition MultiTape_get_num_tapes :: "MultiTape \<Rightarrow> nat" where
  "MultiTape_get_num_tapes mt = num_tapes mt"

definition MultiTape_get_head_position :: "MultiTape \<Rightarrow> nat \<Rightarrow> exception + int" where
  "MultiTape_get_head_position mt tape_index =
     (if \<not> MultiTape_is_valid_tape_index mt tape_index then Inl out_of_range
      else Inr (Tape_get_head_position (tapes mt ! tape_index)))"

definition MultiTape_set_head_position :: "nat \<Rightarrow> int \<Rightarrow> MultiTape \<Rightarrow> exception + MultiTape" where
  "MultiTape_set_head_position tape_index position mt =
     (if \<not> MultiTape_is_valid_tape_index mt tape_index then Inl out_of_range
      else Inr (mt\<lparr>tapes := (tapes mt)[tape_index :=
                     Tape_set_head_position position (tapes mt ! tape_index)]\<rparr>))"

definition MultiTape_get_blank_symbol :: "MultiTape \<Rightarrow> char" where
  "MultiTape_get_blank_symbol mt =
     (if tapes mt = [] then CHR ''.'' else Tape_get_blank_symbol (tapes mt ! 0))"

definition MultiTape_reset :: "string \<Rightarrow> MultiTape \<Rightarrow> MultiTape" where
  "MultiTape_reset input_word mt =
     mt\<lparr>tapes := (case tapes mt of
                     [] \<Rightarrow> []
                   | t # ts \<Rightarrow> Tape_reset input_word t # map (Tape_reset []) ts)\<rparr>"

definition MultiTape_get_tape_content :: "MultiTape \<Rightarrow> nat \<Rightarrow> exception + string" where
  "MultiTape_get_tape_content mt tape_index =
     (if \<not> MultiTape_is_valid_tape_index mt tape_index then Inl out_of_range
      else Tape_get_content (tapes mt ! tape_index))"

definition MultiTape_get_tape :: "MultiTape \<Rightarrow> nat \<Rightarrow> exception + Tape" where
  "MultiTape_get_tape mt tape_index =
     (if \<not> MultiTape_is_valid_tape_index mt tape_index then Inl out_of_range
      else Inr (tapes mt ! tape_index))"

definition MultiTape_read_all :: "MultiTape \<Rightarrow> char list" where
  "MultiTape_read_all mt = map (\<lambda>i. Tape_read (tapes mt ! i)) [0..<num_tapes mt]"

text \<open>
  The class invariant: the stored count is the size of the vector. Both constructors
  establish it and no member function changes either side of it.
\<close>

definition MultiTape_wf :: "MultiTape \<Rightarrow> bool" where
  "MultiTape_wf mt = (length (tapes mt) = num_tapes mt \<and> 0 < num_tapes mt)"

section \<open>Transition and TuringMachine (Transition.cpp, TuringMachine.hpp, TuringMachine.cpp)\<close>

record Transition =
  from_state :: string
  read_symbol :: char
  to_state :: string
  write_symbol :: char
  movement :: Movement

definition Transition_is_applicable :: "Transition \<Rightarrow> string \<Rightarrow> char \<Rightarrow> bool" where
  "Transition_is_applicable tr current_state current_symbol =
     (from_state tr = current_state \<and> read_symbol tr = current_symbol)"

definition Transition_char_to_movement :: "char \<Rightarrow> exception + Movement" where
  "Transition_char_to_movement c =
     (if c = CHR ''L'' \<or> c = CHR ''l'' then Inr LEFT
      else if c = CHR ''R'' \<or> c = CHR ''r'' then Inr RIGHT
      else if c = CHR ''S'' \<or> c = CHR ''s'' then Inr STAY
      else Inl invalid_argument)"

text \<open>
  Class \<^verbatim>\<open>TuringMachine\<close>. The unordered sets are sets; the transition table, an
  unordered map keyed by (state, symbol), is an association list. A builder that can
  throw returns the exception, if any, together with the object as the call leaves it:
  several builders change the object before they throw.
\<close>

record TuringMachine =
  states :: "string set"
  input_alphabet :: "char set"
  tape_alphabet :: "char set"
  initial_state :: string
  accept_states :: "string set"
  machine_blank_symbol :: char
  transitions :: "((string \<times> char) \<times> Transition) list"

definition TuringMachine_init :: "char \<Rightarrow> TuringMachine" where
  "TuringMachine_init blank =
     \<lparr>states = {}, input_alphabet = {}, tape_alphabet = {blank}, initial_state = [],
      accept_states = {}, machine_blank_symbol = blank, transitions = []\<rparr>"

definition TuringMachine_add_state ::
  "string \<Rightarrow> TuringMachine \<Rightarrow> exception option \<times> TuringMachine" where
  "TuringMachine_add_state state m =
     (if state = [] then (Some invalid_argument, m)
      else (None, m\<lparr>states := insert state (states m)\<rparr>))"

definition TuringMachine_add_input_symbol ::
  "char \<Rightarrow> TuringMachine \<Rightarrow> exception option \<times> TuringMachine" where
  "TuringMachine_add_input_symbol symbol m =
     (if symbol = machine_blank_symbol m then (Some invalid_argument, m)
      else (None, m\<lparr>input_alphabet := insert symbol (input_alphabet m),
                    tape_alphabet := insert symbol (tape_alphabet m)\<rparr>))"

definition TuringMachine_add_tape_symbol :: "char \<Rightarrow> TuringMachine \<Rightarrow> TuringMachine" where
  "TuringMachine_add_tape_symbol symbol m = m\<lparr>tape_alphabet := insert symbol (tape_alphabet m)\<rparr>"

definition TuringMachine_set_initial_state ::
  "string \<Rightarrow> TuringMachine \<Rightarrow> exception option \<times> TuringMachine" where
  "TuringMachine_set_initial_state state m =
     TuringMachine_add_state state (m\<lparr>initial_state := state\<rparr>)"

definition TuringMachine_add_accept_state ::
  "string \<Rightarrow> TuringMachine \<Rightarrow> exception option \<times> TuringMachine" where
  "TuringMachine_add_accept_state state m =
     TuringMachine_add_state state (m\<lparr>accept_states := insert state (accept_states m)\<rparr>)"

definition TuringMachine_set_blank_symbol :: "char \<Rightarrow> TuringMachine \<Rightarrow> TuringMachine" where
  "TuringMachine_set_blank_symbol symbol m =
     (if machine_blank_symbol m \<noteq> symbol
      then m\<lparr>machine_blank_symbol := symbol, tape_alphabet := insert symbol (tape_alphabet m)\<rparr>
      else m)"

definition TuringMachine_add_transition ::
  "Transition \<Rightarrow> TuringMachine \<Rightarrow> exception option \<times> TuringMachine" where
  "TuringMachine_add_transition tr m =
     (if from_state tr \<notin> states m then (Some invalid_argument, m)
      else if to_state tr \<notin> states m then (Some invalid_argument, m)
      else let m' = TuringMachine_add_tape_symbol (write_symbol tr)
                      (TuringMachine_add_tape_symbol (read_symbol tr) m);
               key = (from_state tr, read_symbol tr)
           in if map_of (transitions m') key \<noteq> None then (Some invalid_argument, m')
              else (None, m'\<lparr>transitions := AList.update key tr (transitions m')\<rparr>))"

definition TuringMachine_get_transition ::
  "TuringMachine \<Rightarrow> string \<Rightarrow> char \<Rightarrow> Transition option" where
  "TuringMachine_get_transition m state symbol = map_of (transitions m) (state, symbol)"

definition TuringMachine_is_valid :: "TuringMachine \<Rightarrow> bool" where
  "TuringMachine_is_valid m =
     (if states m = {} then False
      else if initial_state m = [] \<or> initial_state m \<notin> states m then False
      else if \<not> (\<forall>accept_state \<in> accept_states m. accept_state \<in> states m) then False
      else if machine_blank_symbol m \<notin> tape_alphabet m then False
      else if \<not> (\<forall>symbol \<in> input_alphabet m.
                    symbol \<in> tape_alphabet m \<and> symbol \<noteq> machine_blank_symbol m) then False
      else (\<forall>(key, tr) \<in> set (transitions m).
              from_state tr \<in> states m \<and> to_state tr \<in> states m
            \<and> read_symbol tr \<in> tape_alphabet m \<and> write_symbol tr \<in> tape_alphabet m))"

definition TuringMachine_is_accept_state :: "TuringMachine \<Rightarrow> string \<Rightarrow> bool" where
  "TuringMachine_is_accept_state m state = (state \<in> accept_states m)"

definition TuringMachine_is_input_symbol :: "TuringMachine \<Rightarrow> char \<Rightarrow> bool" where
  "TuringMachine_is_input_symbol m symbol = (symbol \<in> input_alphabet m)"

definition TuringMachine_is_tape_symbol :: "TuringMachine \<Rightarrow> char \<Rightarrow> bool" where
  "TuringMachine_is_tape_symbol m symbol = (symbol \<in> tape_alphabet m)"

definition TuringMachine_is_valid_input_word :: "TuringMachine \<Rightarrow> string \<Rightarrow> bool" where
  "TuringMachine_is_valid_input_word m word = list_all (TuringMachine_is_input_symbol m) word"

definition TuringMachine_clear :: "TuringMachine \<Rightarrow> TuringMachine" where
  "TuringMachine_clear m =
     m\<lparr>states := {}, input_alphabet := {}, tape_alphabet := {machine_blank_symbol m},
       initial_state := [], accept_states := {}, transitions := []\<rparr>"

text \<open>
  The builder operations as values, to speak about every sequence of calls on one
  object. A call that throws leaves the object as it is at the throw, and the caller may
  go on using it.
\<close>

datatype builder_op =
    Add_state string
  | Add_input_symbol char
  | Add_tape_symbol char
  | Set_initial_state string
  | Add_accept_state string
  | Set_blank_symbol char
  | Add_transition Transition
  | Clear

fun apply_builder_op :: "builder_op \<Rightarrow> TuringMachine \<Rightarrow> exception option \<times> TuringMachine" where
  "apply_builder_op (Add_state s) m = TuringMachine_add_state s m"
| "apply_builder_op (Add_input_symbol c) m = TuringMachine_add_input_symbol c m"
| "apply_builder_op (Add_tape_symbol c) m = (None, TuringMachine_add_tape_symbol c m)"
| "apply_builder_op (Set_initial_state s) m = TuringMachine_set_initial_state s m"
| "apply_builder_op (Add_accept_state s) m = TuringMachine_add_accept_state s m"
| "apply_builder_op (Set_blank_symbol c) m = (None, TuringMachine_set_blank_symbol c m)"
| "apply_builder_op (Add_transition tr) m = TuringMachine_add_transition tr m"
| "apply_builder_op Clear m = (None, TuringMachine_clear m)"

definition run_builder_ops :: "builder_op list \<Rightarrow> TuringMachine \<Rightarrow> TuringMachine" where
  "run_builder_ops ops m = fold (\<lambda>op m. snd (apply_builder_op op m)) ops m"

section \<open>MultiTransition and MultiTuringMachine\<close>

text \<open>
  Class \<^verbatim>\<open>MultiTransition\<close>. The checking constructor throws on vectors of different
  or zero length; the default constructor gives the empty transition.
\<close>

record MultiTransition =
  multi_from_state :: string
  read_symbols :: "char list"
  multi_to_state :: string
  write_symbols :: "char list"
  movements :: "Movement list"

definition MultiTransition_is_well_formed :: "MultiTransition \<Rightarrow> bool" where
  "MultiTransition_is_well_formed tr =
     (length (write_symbols tr) = length (read_symbols tr)
      \<and> length (movements tr) = length (read_symbols tr)
      \<and> 0 < length (read_symbols tr))"

definition MultiTransition_init ::
  "string \<Rightarrow> char list \<Rightarrow> string \<Rightarrow> char list \<Rightarrow> Movement list \<Rightarrow> exception + MultiTransition" where
  "MultiTransition_init from_st rs to_st ws ms =
     (let tr = \<lparr>multi_from_state = from_st, read_symbols = rs, multi_to_state = to_st,
                write_symbols = ws, movements = ms\<rparr>
      in if \<not> MultiTransition_is_well_formed tr then Inl invalid_argument else Inr tr)"

definition MultiTransition_default :: MultiTransition where
  "MultiTransition_default =
     \<lparr>multi_from_state = [], read_symbols = [], multi_to_state = [], write_symbols = [],
      movements = []\<rparr>"

definition MultiTransition_get_read_symbol :: "MultiTransition \<Rightarrow> nat \<Rightarrow> exception + char" where
  "MultiTransition_get_read_symbol tr tape_index =
     (if length (read_symbols tr) \<le> tape_index then Inl out_of_range
      else Inr (read_symbols tr ! tape_index))"

definition MultiTransition_get_write_symbol :: "MultiTransition \<Rightarrow> nat \<Rightarrow> exception + char" where
  "MultiTransition_get_write_symbol tr tape_index =
     (if length (write_symbols tr) \<le> tape_index then Inl out_of_range
      else Inr (write_symbols tr ! tape_index))"

definition MultiTransition_get_movement :: "MultiTransition \<Rightarrow> nat \<Rightarrow> exception + Movement" where
  "MultiTransition_get_movement tr tape_index =
     (if length (movements tr) \<le> tape_index then Inl out_of_range
      else Inr (movements tr ! tape_index))"

definition MultiTransition_get_num_tapes :: "MultiTransition \<Rightarrow> nat" where
  "MultiTransition_get_num_tapes tr = length (read_symbols tr)"

definition MultiTransition_is_applicable :: "MultiTransition \<Rightarrow> string \<Rightarrow> char list \<Rightarrow> bool" where
  "MultiTransition_is_applicable tr current_state current_symbols =
     (if multi_from_state tr \<noteq> current_state then False
      else if length current_symbols \<noteq> length (read_symbols tr) then False
      else (\<forall>i \<in> set [0..<length (read_symbols tr)]. current_symbols ! i = read_symbols tr ! i))"

text \<open>
  Class \<^verbatim>\<open>MultiTuringMachine\<close>, modelled as \<^typ>\<open>TuringMachine\<close> is, with the number
  of tapes and a table keyed by (state, vector of symbols).
\<close>

record MultiTuringMachine =
  multi_states :: "string set"
  multi_input_alphabet :: "char set"
  multi_tape_alphabet :: "char set"
  multi_initial_state :: string
  multi_accept_states :: "string set"
  multi_blank_symbol :: char
  machine_num_tapes :: nat
  multi_transitions :: "((string \<times> char list) \<times> MultiTransition) list"

definition MultiTuringMachine_init :: "nat \<Rightarrow> char \<Rightarrow> exception + MultiTuringMachine" where
  "MultiTuringMachine_init n blank =
     (if n = 0 then Inl invalid_argument
      else Inr \<lparr>multi_states = {}, multi_input_alphabet = {}, multi_tape_alphabet = {blank},
                multi_initial_state = [], multi_accept_states = {}, multi_blank_symbol = blank,
                machine_num_tapes = n, multi_transitions = []\<rparr>)"

definition MultiTuringMachine_add_state ::
  "string \<Rightarrow> MultiTuringMachine \<Rightarrow> exception option \<times> MultiTuringMachine" where
  "MultiTuringMachine_add_state state m =
     (if state = [] then (Some invalid_argument, m)
      else (None, m\<lparr>multi_states := insert state (multi_states m)\<rparr>))"

definition MultiTuringMachine_add_input_symbol ::
  "char \<Rightarrow> MultiTuringMachine \<Rightarrow> exception option \<times> MultiTuringMachine" where
  "MultiTuringMachine_add_input_symbol symbol m =
     (if symbol = multi_blank_symbol m then (Some invalid_argument, m)
      else (None, m\<lparr>multi_input_alphabet := insert symbol (multi_input_alphabet m),
                    multi_tape_alphabet := insert symbol (multi_tape_alphabet m)\<rparr>))"

definition MultiTuringMachine_add_tape_symbol ::
  "char \<Rightarrow> MultiTuringMachine \<Rightarrow> MultiTuringMachine" where
  "MultiTuringMachine_add_tape_symbol symbol m =
     m\<lparr>multi_tape_alphabet := insert symbol (multi_tape_alphabet m)\<rparr>"

definition MultiTuringMachine_set_initial_state ::
  "string \<Rightarrow> MultiTuringMachine \<Rightarrow> exception option \<times> MultiTuringMachine" where
  "MultiTuringMachine_set_initial_state state m =
     MultiTuringMachine_add_state state (m\<lparr>multi_initial_state := state\<rparr>)"

definition MultiTuringMachine_add_accept_state ::
  "string \<Rightarrow> MultiTuringMachine \<Rightarrow> exception option \<times> MultiTuringMachine" where
  "MultiTuringMachine_add_accept_state state m =
     MultiTuringMachine_add_state state
       (m\<lparr>multi_accept_states := insert state (multi_accept_states m)\<rparr>)"

definition MultiTuringMachine_set_blank_symbol ::
  "char \<Rightarrow> MultiTuringMachine \<Rightarrow> MultiTuringMachine" where
  "MultiTuringMachine_set_blank_symbol symbol m =
     (if multi_blank_symbol m \<noteq> symbol
      then m\<lparr>multi_blank_symbol := symbol,
             multi_tape_alphabet := insert symbol (multi_tape_alphabet m)\<rparr>
      else m)"

definition MultiTuringMachine_set_num_tapes ::
  "nat \<Rightarrow> MultiTuringMachine \<Rightarrow> exception option \<times> MultiTuringMachine" where
  "MultiTuringMachine_set_num_tapes n m =
     (if n = 0 then (Some invalid_argument, m) else (None, m\<lparr>machine_num_tapes := n\<rparr>))"

text \<open>
  The loop of \<^verbatim>\<open>add_transition\<close> that inserts the read and write symbols of every tape;
  the checked accessors can throw in the middle of it.
\<close>

fun add_transition_symbols ::
  "nat list \<Rightarrow> MultiTransition \<Rightarrow> MultiTuringMachine \<Rightarrow> exception option \<times> MultiTuringMachine" where
  "add_transition_symbols [] tr m = (None, m)"
| "add_transition_symbols (i # is) tr m =
     (case MultiTransition_get_read_symbol tr i of
        Inl e \<Rightarrow> (Some e, m)
      | Inr r \<Rightarrow>
          (case MultiTransition_get_write_symbol tr i of
             Inl e \<Rightarrow> (Some e, MultiTuringMachine_add_tape_symbol r m)
           | Inr w \<Rightarrow>
               add_transition_symbols is tr
                 (MultiTuringMachine_add_tape_symbol w (MultiTuringMachine_add_tape_symbol r m))))"

definition MultiTuringMachine_add_transition ::
  "MultiTransition \<Rightarrow> MultiTuringMachine \<Rightarrow> exception option \<times> MultiTuringMachine" where
  "MultiTuringMachine_add_transition tr m =
     (if MultiTransition_get_num_tapes tr \<noteq> machine_num_tapes m then (Some invalid_argument, m)
      else case MultiTuringMachine_add_state (multi_from_state tr) m of
        (Some e, m1) \<Rightarrow> (Some e, m1)
      | (None, m1) \<Rightarrow>
          (case MultiTuringMachine_add_state (multi_to_state tr) m1 of
             (Some e, m2) \<Rightarrow> (Some e, m2)
           | (None, m2) \<Rightarrow>
               (case add_transition_symbols [0..<machine_num_tapes m2] tr m2 of
                  (Some e, m3) \<Rightarrow> (Some e, m3)
                | (None, m3) \<Rightarrow>
                    (let key = (multi_from_state tr, read_symbols tr)
                     in if map_of (multi_transitions m3) key \<noteq> None
                        then (Some invalid_argument, m3)
                        else (None, m3\<lparr>multi_transitions :=
                                          AList.update key tr (multi_transitions m3)\<rparr>)))))"

definition MultiTuringMachine_get_transition ::
  "MultiTuringMachine \<Rightarrow> string \<Rightarrow> char list \<Rightarrow> MultiTransition option" where
  "MultiTuringMachine_get_transition m state symbols =
     (if length symbols \<noteq> machine_num_tapes m then None
      else map_of (multi_transitions m) (state, symbols))"

definition MultiTuringMachine_is_accept_state :: "MultiTuringMachine \<Rightarrow> string \<Rightarrow> bool" where
  "MultiTuringMachine_is_accept_state m state = (state \<in> multi_accept_states m)"

definition MultiTuringMachine_is_input_symbol :: "MultiTuringMachine \<Rightarrow> char \<Rightarrow> bool" where
  "MultiTuringMachine_is_input_symbol m symbol = (symbol \<in> multi_input_alphabet m)"

definition MultiTuringMachine_is_valid_input_word :: "MultiTuringMachine \<Rightarrow> string \<Rightarrow> bool" where
  "MultiTuringMachine_is_valid_input_word m word =
     list_all (MultiTuringMachine_is_input_symbol m) word"

definition MultiTuringMachine_clear :: "MultiTuringMachine \<Rightarrow> MultiTuringMachine" where
  "MultiTuringMachine_clear m =
     m\<lparr>multi_states := {}, multi_input_alphabet := {},
       multi_tape_alphabet := {multi_blank_symbol m}, multi_initial_state := [],
       multi_accept_states := {}, multi_transitions := []\<rparr>"

datatype multi_builder_op =
    MAdd_state string
  | MAdd_input_symbol char
  | MAdd_tape_symbol char
  | MSet_initial_state string
  | MAdd_accept_state string
  | MSet_blank_symbol char
  | MSet_num_tapes nat
  | MAdd_transition MultiTransition
  | MClear

fun apply_multi_builder_op ::
  "multi_builder_op \<Rightarrow> MultiTuringMachine \<Rightarrow> exception option \<times> MultiTuringMachine" where
  "apply_multi_builder_op (MAdd_state s) m = MultiTuringMachine_add_state s m"
| "apply_multi_builder_op (MAdd_input_symbol c) m = MultiTuringMachine_add_input_symbol c m"
| "apply_multi_builder_op (MAdd_tape_symbol c) m = (None, MultiTuringMachine_add_tape_symbol c m)"
| "apply_multi_builder_op (MSet_initial_state s) m = MultiTuringMachine_set_initial_state s m"
| "apply_multi_builder_op (MAdd_accept_state s) m = MultiTuringMachine_add_accept_state s m"
| "apply_multi_builder_op (MSet_blank_symbol c) m = (None, MultiTuringMachine_set_blank_symbol c m)"
| "apply_multi_builder_op (MSet_num_tapes n) m = MultiTuringMachine_set_num_tapes n m"
| "apply_multi_builder_op (MAdd_transition tr) m = MultiTuringMachine_add_transition tr m"
| "apply_multi_builder_op MClear m = (None, MultiTuringMachine_clear m)"

definition run_multi_builder_ops ::
  "multi_builder_op list \<Rightarrow> MultiTuringMachine \<Rightarrow> MultiTuringMachine" where
  "run_multi_builder_ops ops m = fold (\<lambda>op m. snd (apply_multi_builder_op op m)) ops m"

text \<open>
  \<^verbatim>\<open>MultiTuringMachine::is_valid\<close>. The loops over the transitions and over the tapes
  are recursive functions; the checked accessors of the transition can throw, so the
  result is a sum. In the disjunction of the source the write symbol is only looked at
  when the read symbol is a tape symbol.
\<close>

fun multi_symbols_valid ::
  "nat list \<Rightarrow> MultiTransition \<Rightarrow> MultiTuringMachine \<Rightarrow> exception + bool" where
  "multi_symbols_valid [] tr m = Inr True"
| "multi_symbols_valid (i # is) tr m =
     (case MultiTransition_get_read_symbol tr i of
        Inl e \<Rightarrow> Inl e
      | Inr r \<Rightarrow>
          if r \<notin> multi_tape_alphabet m then Inr False
          else (case MultiTransition_get_write_symbol tr i of
                  Inl e \<Rightarrow> Inl e
                | Inr w \<Rightarrow>
                    if w \<notin> multi_tape_alphabet m then Inr False
                    else multi_symbols_valid is tr m))"

fun multi_transitions_valid ::
  "((string \<times> char list) \<times> MultiTransition) list \<Rightarrow> MultiTuringMachine \<Rightarrow> exception + bool" where
  "multi_transitions_valid [] m = Inr True"
| "multi_transitions_valid ((key, tr) # rest) m =
     (if MultiTransition_get_num_tapes tr \<noteq> machine_num_tapes m then Inr False
      else if multi_from_state tr \<notin> multi_states m \<or> multi_to_state tr \<notin> multi_states m
      then Inr False
      else (case multi_symbols_valid [0..<machine_num_tapes m] tr m of
              Inl e \<Rightarrow> Inl e
            | Inr ok \<Rightarrow> if \<not> ok then Inr False else multi_transitions_valid rest m))"

definition MultiTuringMachine_is_valid :: "MultiTuringMachine \<Rightarrow> exception + bool" where
  "MultiTuringMachine_is_valid m =
     (if multi_states m = {} then Inr False
      else if multi_initial_state m = [] \<or> multi_initial_state m \<notin> multi_states m then Inr False
      else if machine_num_tapes m = 0 then Inr False
      else if \<not> (\<forall>accept_state \<in> multi_accept_states m. accept_state \<in> multi_states m)
      then Inr False
      else if multi_blank_symbol m \<notin> multi_tape_alphabet m then Inr False
      else if \<not> (\<forall>symbol \<in> multi_input_alphabet m.
                    symbol \<in> multi_tape_alphabet m \<and> symbol \<noteq> multi_blank_symbol m)
      then Inr False
      else multi_transitions_valid (multi_transitions m) m)"

section \<open>Configuration and MultiConfiguration\<close>

text \<open>
  The stream insertion of an \<^verbatim>\<open>int\<close> into a \<^verbatim>\<open>std::ostringstream\<close>: the decimal
  digits, most significant first, after a minus sign when the number is negative.
\<close>

definition digit_char :: "nat \<Rightarrow> char" where
  "digit_char d = ''0123456789'' ! d"

fun show_nat :: "nat \<Rightarrow> string" where
  "show_nat n = (if n < 10 then [digit_char n] else show_nat (n div 10) @ [digit_char (n mod 10)])"

declare show_nat.simps [simp del]

definition show_int :: "int \<Rightarrow> string" where
  "show_int i = (if i < 0 then CHR ''-'' # show_nat (nat (- i)) else show_nat (nat i))"

text \<open>
  Class \<^verbatim>\<open>Configuration\<close>. The step counter is a \<^verbatim>\<open>size_t\<close>; it starts at zero and
  only ever grows by one, and it is compared with the budget alone, so a natural number
  models it (it cannot wrap before \<open>2 ^ 64\<close> steps have run).
\<close>

record Configuration =
  current_state :: string
  tape :: Tape
  step_count :: nat

definition Configuration_init :: "string \<Rightarrow> string \<Rightarrow> char \<Rightarrow> Configuration" where
  "Configuration_init initial input_string blank =
     \<lparr>current_state = initial, tape = Tape_init_word input_string blank, step_count = 0\<rparr>"

text \<open>
  \<^verbatim>\<open>to_compact_string\<close> and \<^verbatim>\<open>is_equivalent\<close> call \<^verbatim>\<open>Tape::get_content\<close> and have no
  handler, so its exception leaves them too.
\<close>

definition Configuration_to_compact_string :: "Configuration \<Rightarrow> exception + string" where
  "Configuration_to_compact_string cfg =
     (case Tape_get_content (tape cfg) of
        Inl e \<Rightarrow> Inl e
      | Inr content \<Rightarrow>
          Inr (current_state cfg @ ''|'' @ show_int (Tape_get_head_position (tape cfg)) @ ''|''
               @ content))"

definition Configuration_is_equivalent :: "Configuration \<Rightarrow> Configuration \<Rightarrow> exception + bool" where
  "Configuration_is_equivalent cfg other =
     (if current_state cfg \<noteq> current_state other then Inr False
      else if Tape_get_head_position (tape cfg) \<noteq> Tape_get_head_position (tape other)
      then Inr False
      else (case Tape_get_content (tape cfg) of
              Inl e \<Rightarrow> Inl e
            | Inr content1 \<Rightarrow>
                (case Tape_get_content (tape other) of
                   Inl e \<Rightarrow> Inl e
                 | Inr content2 \<Rightarrow> Inr (content1 = content2))))"

definition Configuration_reset :: "string \<Rightarrow> string \<Rightarrow> Configuration \<Rightarrow> Configuration" where
  "Configuration_reset initial input_string cfg =
     cfg\<lparr>current_state := initial, tape := Tape_reset input_string (tape cfg), step_count := 0\<rparr>"

text \<open>
  Class \<^verbatim>\<open>MultiConfiguration\<close>. Its constructor builds the MultiTape and so throws on
  zero tapes.
\<close>

record MultiConfiguration =
  multi_current_state :: string
  multi_tapes :: MultiTape
  multi_step_count :: nat

definition MultiConfiguration_init ::
  "string \<Rightarrow> nat \<Rightarrow> string \<Rightarrow> char \<Rightarrow> exception + MultiConfiguration" where
  "MultiConfiguration_init initial n input_string blank =
     (case MultiTape_init_word n input_string blank of
        Inl e \<Rightarrow> Inl e
      | Inr mt \<Rightarrow> Inr \<lparr>multi_current_state = initial, multi_tapes = mt, multi_step_count = 0\<rparr>)"

text \<open>
  The two loops of \<^verbatim>\<open>MultiConfiguration::to_compact_string\<close>, over the tape indices:
  the head positions separated by commas (the comma before every index but the first),
  the contents separated by bars (the bar after every index but the last). The checked
  accessors of MultiTape return a sum, which the loops hand on.
\<close>

fun heads_string :: "nat list \<Rightarrow> MultiTape \<Rightarrow> exception + string" where
  "heads_string [] mt = Inr []"
| "heads_string (i # is) mt =
     (case MultiTape_get_head_position mt i of
        Inl e \<Rightarrow> Inl e
      | Inr h \<Rightarrow>
          (case heads_string is mt of
             Inl e \<Rightarrow> Inl e
           | Inr rest \<Rightarrow> Inr ((if 0 < i then '','' else []) @ show_int h @ rest)))"

fun contents_string :: "nat list \<Rightarrow> MultiTape \<Rightarrow> exception + string" where
  "contents_string [] mt = Inr []"
| "contents_string (i # is) mt =
     (case MultiTape_get_tape_content mt i of
        Inl e \<Rightarrow> Inl e
      | Inr c \<Rightarrow>
          (case contents_string is mt of
             Inl e \<Rightarrow> Inl e
           | Inr rest \<Rightarrow>
               Inr (c @ (if i < MultiTape_get_num_tapes mt - 1 then ''|'' else []) @ rest)))"

definition MultiConfiguration_to_compact_string :: "MultiConfiguration \<Rightarrow> exception + string" where
  "MultiConfiguration_to_compact_string cfg =
     (case heads_string [0..<MultiTape_get_num_tapes (multi_tapes cfg)] (multi_tapes cfg) of
        Inl e \<Rightarrow> Inl e
      | Inr hs \<Rightarrow>
          (case contents_string [0..<MultiTape_get_num_tapes (multi_tapes cfg)] (multi_tapes cfg) of
             Inl e \<Rightarrow> Inl e
           | Inr cs \<Rightarrow> Inr (multi_current_state cfg @ ''|'' @ hs @ ''|'' @ cs)))"

definition MultiConfiguration_reset ::
  "string \<Rightarrow> string \<Rightarrow> MultiConfiguration \<Rightarrow> MultiConfiguration" where
  "MultiConfiguration_reset initial input_string cfg =
     cfg\<lparr>multi_current_state := initial,
         multi_tapes := MultiTape_reset input_string (multi_tapes cfg),
         multi_step_count := 0\<rparr>"

text \<open>
  A list of strings joined by a separator, to state what the loops above compute.
\<close>

fun join_with :: "'a \<Rightarrow> 'a list list \<Rightarrow> 'a list" where
  "join_with s [] = []"
| "join_with s [x] = x"
| "join_with s (x # y # zs) = x @ s # join_with s (y # zs)"

section \<open>Example configurations\<close>

definition fp_example_c1 :: Configuration where
  "fp_example_c1 =
     \<lparr>current_state = ''q0'', tape = Tape_init_word ''ab'' CHR ''.'', step_count = 0\<rparr>"

definition fp_example_c2 :: Configuration where
  "fp_example_c2 =
     \<lparr>current_state = ''q0'',
      tape = Tape_set_head_position 0
               (Tape_write CHR ''.'' (Tape_set_head_position 5 (Tape_init_word ''ab'' CHR ''.''))),
      step_count = 3\<rparr>"

definition fp_example_m1 :: MultiConfiguration where
  "fp_example_m1 =
     \<lparr>multi_current_state = ''q0'',
      multi_tapes = \<lparr>tapes = [Tape_init_word ''ab'' CHR ''.'', Tape_move_left (Tape_init CHR ''.'')],
                     num_tapes = 2\<rparr>,
      multi_step_count = 0\<rparr>"

definition fp_example_m2 :: MultiConfiguration where
  "fp_example_m2 =
     \<lparr>multi_current_state = ''q0'',
      multi_tapes = \<lparr>tapes = [Tape_init_word ''ab'' CHR ''.'',
                              Tape_move_left (Tape_write CHR ''.'' (Tape_init CHR ''.''))],
                     num_tapes = 2\<rparr>,
      multi_step_count = 7\<rparr>"

definition fp_collide_a :: Configuration where
  "fp_collide_a =
     \<lparr>current_state = ''q|0'', tape = Tape_set_head_position 1 (Tape_init_word ''x'' CHR ''.''),
      step_count = 0\<rparr>"

definition fp_collide_b :: Configuration where
  "fp_collide_b =
     \<lparr>current_state = ''q'', tape = Tape_init_word ''1|x'' CHR ''.'', step_count = 0\<rparr>"

definition fp_collide_ma :: MultiConfiguration where
  "fp_collide_ma =
     \<lparr>multi_current_state = ''q'',
      multi_tapes = \<lparr>tapes = [Tape_init_word ''a|b'' CHR ''.'', Tape_init CHR ''.''], num_tapes = 2\<rparr>,
      multi_step_count = 0\<rparr>"

definition fp_collide_mb :: MultiConfiguration where
  "fp_collide_mb =
     \<lparr>multi_current_state = ''q'',
      multi_tapes = \<lparr>tapes = [Tape_init_word ''a'' CHR ''.'', Tape_init_word ''b|'' CHR ''.''],
                     num_tapes = 2\<rparr>,
      multi_step_count = 0\<rparr>"

section \<open>Simulator (Simulator.hpp, Simulator.cpp)\<close>

datatype SimulationResult = ACCEPTED | REJECTED | INFINITE | ERROR

definition result_to_string :: "SimulationResult \<Rightarrow> string" where
  "result_to_string r =
     (case r of ACCEPTED \<Rightarrow> ''ACCEPT'' | REJECTED \<Rightarrow> ''REJECT''
              | INFINITE \<Rightarrow> ''INFINITE'' | ERROR \<Rightarrow> ''ERROR'')"

text \<open>
  The texts that the simulators store in \<^verbatim>\<open>last_error_\<close>, one constructor for each
  string literal of the source (the empty string is \<open>No_error\<close>).
\<close>

datatype error_message =
    No_error
  | Machine_is_null
  | No_machine_assigned
  | Machine_not_valid
  | Word_has_invalid_symbols
  | Step_failed
  | Multi_machine_is_null
  | No_multi_machine_assigned
  | Multi_machine_not_valid
  | Multi_step_failed

text \<open>
  Class \<^verbatim>\<open>Simulator\<close>. The pointer to the machine is an option, \<open>None\<close> for
  \<^verbatim>\<open>nullptr\<close>. The set of visited fingerprints is a set of strings. The constructor
  builds the configuration with the blank symbol \<^verbatim>\<open>'.'\<close>, whatever the machine's blank
  symbol is, and \<^verbatim>\<open>reset\<close> keeps the tape object and so its blank symbol.
\<close>

record Simulator =
  machine :: "TuringMachine option"
  current_config :: Configuration
  trace :: "Configuration list"
  trace_enabled :: bool
  max_steps :: nat
  last_error :: error_message
  visited_configurations :: "string set"

definition Simulator_init :: "TuringMachine option \<Rightarrow> Simulator" where
  "Simulator_init m =
     \<lparr>machine = m, current_config = Configuration_init [] [] CHR ''.'', trace = [],
      trace_enabled = False, max_steps = 1000,
      last_error = (if m = None then Machine_is_null else No_error),
      visited_configurations = {}\<rparr>"

definition Simulator_add_to_trace :: "Simulator \<Rightarrow> Simulator" where
  "Simulator_add_to_trace s =
     (if trace_enabled s then s\<lparr>trace := trace s @ [current_config s]\<rparr> else s)"

text \<open>
  The fingerprint of the current configuration and the three member functions built on
  it. They have no handler, so the exception of \<^verbatim>\<open>Tape::get_content\<close> leaves them.
\<close>

definition Simulator_get_configuration_key :: "Simulator \<Rightarrow> exception + string" where
  "Simulator_get_configuration_key s = Configuration_to_compact_string (current_config s)"

definition Simulator_is_configuration_visited :: "Simulator \<Rightarrow> exception + bool" where
  "Simulator_is_configuration_visited s =
     (case Simulator_get_configuration_key s of
        Inl e \<Rightarrow> Inl e
      | Inr key \<Rightarrow> Inr (key \<in> visited_configurations s))"

definition Simulator_mark_configuration_as_visited :: "Simulator \<Rightarrow> exception + Simulator" where
  "Simulator_mark_configuration_as_visited s =
     (case Simulator_get_configuration_key s of
        Inl e \<Rightarrow> Inl e
      | Inr key \<Rightarrow> Inr (s\<lparr>visited_configurations := insert key (visited_configurations s)\<rparr>))"

definition Simulator_is_infinite_loop_detected :: "Simulator \<Rightarrow> exception + bool" where
  "Simulator_is_infinite_loop_detected s = Simulator_is_configuration_visited s"

definition Simulator_is_accepting_state :: "Simulator \<Rightarrow> bool" where
  "Simulator_is_accepting_state s =
     (case machine s of
        None \<Rightarrow> False
      | Some m \<Rightarrow> TuringMachine_is_accept_state m (current_state (current_config s)))"

definition Simulator_has_applicable_transition :: "Simulator \<Rightarrow> bool" where
  "Simulator_has_applicable_transition s =
     (case machine s of
        None \<Rightarrow> False
      | Some m \<Rightarrow>
          TuringMachine_get_transition m (current_state (current_config s))
            (Tape_read (tape (current_config s))) \<noteq> None)"

text \<open>
  \<^verbatim>\<open>Simulator::step\<close> returns its boolean together with the simulator as the call
  leaves it: write, then move, then the new state, then the step counter.
\<close>

definition Simulator_step :: "Simulator \<Rightarrow> bool \<times> Simulator" where
  "Simulator_step s =
     (case machine s of
        None \<Rightarrow> (False, s)
      | Some m \<Rightarrow>
          (case TuringMachine_get_transition m (current_state (current_config s))
                  (Tape_read (tape (current_config s))) of
             None \<Rightarrow> (False, s)
           | Some tr \<Rightarrow>
               (let t1 = Tape_write (write_symbol tr) (tape (current_config s));
                    t2 = (case movement tr of
                            LEFT \<Rightarrow> Tape_move_left t1
                          | RIGHT \<Rightarrow> Tape_move_right t1
                          | STAY \<Rightarrow> t1)
                in (True, s\<lparr>current_config :=
                               \<lparr>current_state = to_state tr, tape = t2,
                                step_count = step_count (current_config s) + 1\<rparr>\<rparr>))))"

definition Simulator_reset :: "string \<Rightarrow> Simulator \<Rightarrow> Simulator" where
  "Simulator_reset input_word s =
     (let s1 = (case machine s of
                  None \<Rightarrow> s
                | Some m \<Rightarrow>
                    (let c = Configuration_reset (initial_state m) input_word (current_config s)
                     in s\<lparr>current_config := c\<lparr>tape := Tape_set_head_position 0 (tape c)\<rparr>\<rparr>))
      in s1\<lparr>trace := [], visited_configurations := {}, last_error := No_error\<rparr>)"

text \<open>
  One pass through the body of the main loop of \<^verbatim>\<open>Simulator::simulate\<close>: either the
  loop is left (\<open>Inl\<close>: with a thrown exception, or with a result and the simulator as
  it is then), or the loop goes round again with the simulator given (\<open>Inr\<close>).
\<close>

definition Simulator_loop_body ::
  "Simulator \<Rightarrow> (exception + SimulationResult \<times> Simulator) + Simulator" where
  "Simulator_loop_body s =
     (if 0 < max_steps s \<and> max_steps s \<le> step_count (current_config s)
      then Inl (Inr (INFINITE, s))
      else if Simulator_is_accepting_state s then Inl (Inr (ACCEPTED, s))
      else if \<not> Simulator_has_applicable_transition s then Inl (Inr (REJECTED, s))
      else if \<not> fst (Simulator_step s)
      then Inl (Inr (ERROR, (snd (Simulator_step s))\<lparr>last_error := Step_failed\<rparr>))
      else (case Simulator_is_configuration_visited (snd (Simulator_step s)) of
              Inl e \<Rightarrow> Inl (Inl e)
            | Inr visited \<Rightarrow>
                if visited then Inl (Inr (INFINITE, snd (Simulator_step s)))
                else (case Simulator_mark_configuration_as_visited (snd (Simulator_step s)) of
                        Inl e \<Rightarrow> Inl (Inl e)
                      | Inr s2 \<Rightarrow> Inr (Simulator_add_to_trace s2))))"

text \<open>
  The main loop. With a budget of zero the loop may run for ever, so it is a partial
  function: \<open>None\<close> is a run that never returns. \<^verbatim>\<open>simulate\<close> has no handler and hands
  an exception on to its caller; a result comes with the simulator as the call leaves
  it.
\<close>

partial_function (option) Simulator_simulate_loop ::
  "Simulator \<Rightarrow> (exception + SimulationResult \<times> Simulator) option" where
  "Simulator_simulate_loop s =
     (case Simulator_loop_body s of
        Inl outcome \<Rightarrow> Some outcome
      | Inr s' \<Rightarrow> Simulator_simulate_loop s')"

declare Simulator_simulate_loop.simps [code]

definition Simulator_simulate ::
  "string \<Rightarrow> bool \<Rightarrow> nat \<Rightarrow> Simulator
     \<Rightarrow> (exception + SimulationResult \<times> Simulator) option" where
  "Simulator_simulate input_word enable_trace budget s =
     (case machine s of
        None \<Rightarrow> Some (Inr (ERROR, s\<lparr>last_error := No_machine_assigned\<rparr>))
      | Some m \<Rightarrow>
          if \<not> TuringMachine_is_valid m
          then Some (Inr (ERROR, s\<lparr>last_error := Machine_not_valid\<rparr>))
          else if \<not> TuringMachine_is_valid_input_word m input_word
          then Some (Inr (ERROR, s\<lparr>last_error := Word_has_invalid_symbols\<rparr>))
          else (case Simulator_mark_configuration_as_visited
                       (Simulator_add_to_trace
                         (Simulator_reset input_word
                           (s\<lparr>trace_enabled := enable_trace, max_steps := budget\<rparr>))) of
                  Inl e \<Rightarrow> Some (Inl e)
                | Inr s1 \<Rightarrow> Simulator_simulate_loop s1))"

text \<open>
  The relation between two simulators that agree on everything the checks of the loop
  look at but the budget.
\<close>

definition sim_rel :: "Simulator \<Rightarrow> Simulator \<Rightarrow> bool" where
  "sim_rel s s2 = (machine s = machine s2 \<and> current_config s = current_config s2
                   \<and> visited_configurations s = visited_configurations s2)"

text \<open>
  The simulator with which \<^verbatim>\<open>simulate\<close> enters its loop, when marking the initial
  configuration does not throw.
\<close>

definition sim_start :: "string \<Rightarrow> bool \<Rightarrow> nat \<Rightarrow> Simulator \<Rightarrow> exception + Simulator" where
  "sim_start w tr N s =
     Simulator_mark_configuration_as_visited
       (Simulator_add_to_trace
         (Simulator_reset w (s\<lparr>trace_enabled := tr, max_steps := N\<rparr>)))"

text \<open>
  What a caller observes of a run: a thrown exception or the result with the number of
  steps executed; and a thrown exception or the result with the loop flag and the
  fingerprints of the traced configurations.
\<close>

definition run_outcome ::
  "(exception + SimulationResult \<times> Simulator) option
     \<Rightarrow> (exception + SimulationResult \<times> nat) option" where
  "run_outcome x = map_option (map_sum id (\<lambda>(r, s). (r, step_count (current_config s)))) x"

definition run_report ::
  "(exception + SimulationResult \<times> Simulator) option
     \<Rightarrow> (exception + SimulationResult \<times> (exception + bool) \<times> (exception + string) list) option" where
  "run_report x =
     map_option (map_sum id (\<lambda>(r, s). (r, Simulator_is_infinite_loop_detected s,
                                        map Configuration_to_compact_string (trace s)))) x"

text \<open>
  The first check of the loop: the budget is positive and the step counter has reached it.
\<close>

definition budget_exhausted :: "Simulator \<Rightarrow> bool" where
  "budget_exhausted s = (0 < max_steps s \<and> max_steps s \<le> step_count (current_config s))"

text \<open>
  The invariant of a traced run at the entry of the loop: the trace ends with the current
  configuration, its fingerprints are pairwise different, and they are the visited set.
\<close>

definition trace_inv :: "Simulator \<Rightarrow> bool" where
  "trace_inv s =
     (trace_enabled s \<and> trace s \<noteq> [] \<and> last (trace s) = current_config s
      \<and> distinct (map Configuration_to_compact_string (trace s))
      \<and> set (map Configuration_to_compact_string (trace s)) = Inr ` visited_configurations s)"


section \<open>MultiSimulator (Simulator.hpp, Simulator.cpp)\<close>

text \<open>
  Class \<^verbatim>\<open>MultiSimulator\<close>. Its member functions go through the checked accessors of
  MultiTape and through \<^verbatim>\<open>MultiTuringMachine::is_valid\<close>, all of which can throw, so
  they return sums; \<^verbatim>\<open>simulate\<close> has no handler and hands an exception on to its
  caller.
\<close>

record MultiSimulator =
  multi_machine :: "MultiTuringMachine option"
  multi_current_config :: MultiConfiguration
  multi_trace :: "MultiConfiguration list"
  multi_trace_enabled :: bool
  multi_max_steps :: nat
  multi_last_error :: error_message
  multi_visited_configurations :: "string set"

definition MultiSimulator_init :: "MultiTuringMachine option \<Rightarrow> exception + MultiSimulator" where
  "MultiSimulator_init m =
     (case MultiConfiguration_init [] 1 [] CHR ''.'' of
        Inl e \<Rightarrow> Inl e
      | Inr c0 \<Rightarrow>
          (case m of
             None \<Rightarrow>
               Inr \<lparr>multi_machine = None, multi_current_config = c0, multi_trace = [],
                    multi_trace_enabled = False, multi_max_steps = 1000,
                    multi_last_error = Multi_machine_is_null,
                    multi_visited_configurations = {}\<rparr>
           | Some mm \<Rightarrow>
               (case MultiConfiguration_init (multi_initial_state mm) (machine_num_tapes mm) []
                       (multi_blank_symbol mm) of
                  Inl e \<Rightarrow> Inl e
                | Inr c \<Rightarrow>
                    Inr \<lparr>multi_machine = Some mm, multi_current_config = c, multi_trace = [],
                         multi_trace_enabled = False, multi_max_steps = 1000,
                         multi_last_error = No_error,
                         multi_visited_configurations = {}\<rparr>)))"

definition MultiSimulator_add_to_trace :: "MultiSimulator \<Rightarrow> MultiSimulator" where
  "MultiSimulator_add_to_trace s =
     (if multi_trace_enabled s then s\<lparr>multi_trace := multi_trace s @ [multi_current_config s]\<rparr>
      else s)"

definition MultiSimulator_get_configuration_key :: "MultiSimulator \<Rightarrow> exception + string" where
  "MultiSimulator_get_configuration_key s =
     MultiConfiguration_to_compact_string (multi_current_config s)"

definition MultiSimulator_is_configuration_visited :: "MultiSimulator \<Rightarrow> exception + bool" where
  "MultiSimulator_is_configuration_visited s =
     (case MultiSimulator_get_configuration_key s of
        Inl e \<Rightarrow> Inl e
      | Inr key \<Rightarrow> Inr (key \<in> multi_visited_configurations s))"

definition MultiSimulator_mark_configuration_as_visited ::
  "MultiSimulator \<Rightarrow> exception + MultiSimulator" where
  "MultiSimulator_mark_configuration_as_visited s =
     (case MultiSimulator_get_configuration_key s of
        Inl e \<Rightarrow> Inl e
      | Inr key \<Rightarrow>
          Inr (s\<lparr>multi_visited_configurations := insert key (multi_visited_configurations s)\<rparr>))"

definition MultiSimulator_is_infinite_loop_detected :: "MultiSimulator \<Rightarrow> exception + bool" where
  "MultiSimulator_is_infinite_loop_detected s = MultiSimulator_is_configuration_visited s"

text \<open>
  \<^verbatim>\<open>is_accepting_state\<close> dereferences the machine pointer without a check; \<^verbatim>\<open>simulate\<close>,
  its only caller, has returned before when the pointer is null.
\<close>

definition MultiSimulator_is_accepting_state :: "MultiSimulator \<Rightarrow> bool" where
  "MultiSimulator_is_accepting_state s =
     (case multi_machine s of
        None \<Rightarrow> False
      | Some m \<Rightarrow>
          MultiTuringMachine_is_accept_state m (multi_current_state (multi_current_config s)))"

text \<open>
  The loop that reads the symbol under every head into a vector.
\<close>

fun read_current_symbols :: "nat list \<Rightarrow> MultiTape \<Rightarrow> exception + char list" where
  "read_current_symbols [] mt = Inr []"
| "read_current_symbols (i # is) mt =
     (case MultiTape_read mt i of
        Inl e \<Rightarrow> Inl e
      | Inr c \<Rightarrow>
          (case read_current_symbols is mt of
             Inl e \<Rightarrow> Inl e
           | Inr cs \<Rightarrow> Inr (c # cs)))"

definition MultiSimulator_has_applicable_transition :: "MultiSimulator \<Rightarrow> exception + bool" where
  "MultiSimulator_has_applicable_transition s =
     (case multi_machine s of
        None \<Rightarrow> Inr False
      | Some m \<Rightarrow>
          (case read_current_symbols
                  [0..<MultiTape_get_num_tapes (multi_tapes (multi_current_config s))]
                  (multi_tapes (multi_current_config s)) of
             Inl e \<Rightarrow> Inl e
           | Inr current_symbols \<Rightarrow>
               Inr (MultiTuringMachine_get_transition m
                      (multi_current_state (multi_current_config s)) current_symbols \<noteq> None)))"

text \<open>
  The two loops of \<^verbatim>\<open>MultiSimulator::step\<close>: all the writes, then all the moves. The
  vectors of the transition are indexed without a check there; every transition of a
  valid machine has one entry for each tape.
\<close>

fun write_all_tapes :: "nat list \<Rightarrow> MultiTransition \<Rightarrow> MultiTape \<Rightarrow> exception + MultiTape" where
  "write_all_tapes [] tr mt = Inr mt"
| "write_all_tapes (i # is) tr mt =
     (case MultiTape_write i (write_symbols tr ! i) mt of
        Inl e \<Rightarrow> Inl e
      | Inr mt' \<Rightarrow> write_all_tapes is tr mt')"

fun move_all_tapes :: "nat list \<Rightarrow> MultiTransition \<Rightarrow> MultiTape \<Rightarrow> exception + MultiTape" where
  "move_all_tapes [] tr mt = Inr mt"
| "move_all_tapes (i # is) tr mt =
     (case MultiTape_move i (movements tr ! i) mt of
        Inl e \<Rightarrow> Inl e
      | Inr mt' \<Rightarrow> move_all_tapes is tr mt')"

definition MultiSimulator_step :: "MultiSimulator \<Rightarrow> exception + bool \<times> MultiSimulator" where
  "MultiSimulator_step s =
     (case multi_machine s of
        None \<Rightarrow> Inr (False, s)
      | Some m \<Rightarrow>
          (let n = MultiTape_get_num_tapes (multi_tapes (multi_current_config s))
           in case read_current_symbols [0..<n] (multi_tapes (multi_current_config s)) of
                Inl e \<Rightarrow> Inl e
              | Inr current_symbols \<Rightarrow>
                  (case MultiTuringMachine_get_transition m
                          (multi_current_state (multi_current_config s)) current_symbols of
                     None \<Rightarrow> Inr (False, s)
                   | Some tr \<Rightarrow>
                       (case write_all_tapes [0..<n] tr (multi_tapes (multi_current_config s)) of
                          Inl e \<Rightarrow> Inl e
                        | Inr mt1 \<Rightarrow>
                            (case move_all_tapes [0..<n] tr mt1 of
                               Inl e \<Rightarrow> Inl e
                             | Inr mt2 \<Rightarrow>
                                 Inr (True,
                                      s\<lparr>multi_current_config :=
                                          \<lparr>multi_current_state = multi_to_state tr,
                                           multi_tapes = mt2,
                                           multi_step_count =
                                             multi_step_count (multi_current_config s) + 1\<rparr>\<rparr>))))))"

definition MultiSimulator_reset :: "string \<Rightarrow> MultiSimulator \<Rightarrow> exception + MultiSimulator" where
  "MultiSimulator_reset input_word s =
     (case multi_machine s of
        None \<Rightarrow> Inr s
      | Some m \<Rightarrow>
          (case MultiConfiguration_init (multi_initial_state m) (machine_num_tapes m) input_word
                  (multi_blank_symbol m) of
             Inl e \<Rightarrow> Inl e
           | Inr c \<Rightarrow>
               Inr (s\<lparr>multi_trace := [], multi_visited_configurations := {},
                      multi_last_error := No_error, multi_current_config := c\<rparr>)))"

text \<open>
  One pass through the body of the main loop of \<^verbatim>\<open>MultiSimulator::simulate\<close>: either
  the loop is left (\<open>Inl\<close>: with a thrown exception, or with a result and the simulator
  as it is then), or the loop goes round again with the simulator given (\<open>Inr\<close>).
\<close>

definition MultiSimulator_loop_body ::
  "MultiSimulator \<Rightarrow> (exception + SimulationResult \<times> MultiSimulator) + MultiSimulator" where
  "MultiSimulator_loop_body s =
     (if 0 < multi_max_steps s \<and> multi_max_steps s \<le> multi_step_count (multi_current_config s)
      then Inl (Inr (INFINITE, s))
      else if MultiSimulator_is_accepting_state s then Inl (Inr (ACCEPTED, s))
      else case MultiSimulator_has_applicable_transition s of
        Inl e \<Rightarrow> Inl (Inl e)
      | Inr applicable \<Rightarrow>
          if \<not> applicable then Inl (Inr (REJECTED, s))
          else (case MultiSimulator_step s of
                  Inl e \<Rightarrow> Inl (Inl e)
                | Inr (ok, s1) \<Rightarrow>
                    if \<not> ok then Inl (Inr (ERROR, s1\<lparr>multi_last_error := Multi_step_failed\<rparr>))
                    else (case MultiSimulator_is_configuration_visited s1 of
                            Inl e \<Rightarrow> Inl (Inl e)
                          | Inr visited \<Rightarrow>
                              if visited then Inl (Inr (INFINITE, s1))
                              else (case MultiSimulator_mark_configuration_as_visited s1 of
                                      Inl e \<Rightarrow> Inl (Inl e)
                                    | Inr s2 \<Rightarrow> Inr (MultiSimulator_add_to_trace s2)))))"

partial_function (option) MultiSimulator_simulate_loop ::
  "MultiSimulator \<Rightarrow> (exception + SimulationResult \<times> MultiSimulator) option" where
  "MultiSimulator_simulate_loop s =
     (case MultiSimulator_loop_body s of
        Inl outcome \<Rightarrow> Some outcome
      | Inr s' \<Rightarrow> MultiSimulator_simulate_loop s')"

declare MultiSimulator_simulate_loop.simps [code]

definition MultiSimulator_simulate ::
  "string \<Rightarrow> bool \<Rightarrow> nat \<Rightarrow> MultiSimulator
     \<Rightarrow> (exception + SimulationResult \<times> MultiSimulator) option" where
  "MultiSimulator_simulate input_word enable_trace budget s =
     (case multi_machine s of
        None \<Rightarrow> Some (Inr (ERROR, s\<lparr>multi_last_error := No_multi_machine_assigned\<rparr>))
      | Some m \<Rightarrow>
          (case MultiTuringMachine_is_valid m of
             Inl e \<Rightarrow> Some (Inl e)
           | Inr valid \<Rightarrow>
               if \<not> valid then Some (Inr (ERROR, s\<lparr>multi_last_error := Multi_machine_not_valid\<rparr>))
               else if \<not> MultiTuringMachine_is_valid_input_word m input_word
               then Some (Inr (ERROR, s\<lparr>multi_last_error := Word_has_invalid_symbols\<rparr>))
               else (case MultiSimulator_reset input_word
                            (s\<lparr>multi_trace_enabled := enable_trace, multi_max_steps := budget\<rparr>) of
                       Inl e \<Rightarrow> Some (Inl e)
                     | Inr s1 \<Rightarrow>
                         (case MultiSimulator_mark_configuration_as_visited
                                 (MultiSimulator_add_to_trace s1) of
                            Inl e \<Rightarrow> Some (Inl e)
                          | Inr s2 \<Rightarrow> MultiSimulator_simulate_loop s2))))"

definition multi_budget_exhausted :: "MultiSimulator \<Rightarrow> bool" where
  "multi_budget_exhausted s =
     (0 < multi_max_steps s \<and> multi_max_steps s \<le> multi_step_count (multi_current_config s))"

text \<open>
  What a caller observes of a multi-tape run: a thrown exception, or the result with the
  number of steps executed.
\<close>

definition multi_run_outcome ::
  "(exception + SimulationResult \<times> MultiSimulator) option
     \<Rightarrow> (exception + SimulationResult \<times> nat) option" where
  "multi_run_outcome x =
     map_option (map_sum id (\<lambda>(r, s). (r, multi_step_count (multi_current_config s)))) x"

text \<open>
  The invariant of a MultiSimulator: the tapes of its configuration are a MultiTape as
  the constructors build it.
\<close>

definition MultiSimulator_wf :: "MultiSimulator \<Rightarrow> bool" where
  "MultiSimulator_wf s = MultiTape_wf (multi_tapes (multi_current_config s))"

section \<open>Example machines\<close>

text \<open>
  A machine that accepts after reading one \<open>a\<close>, and a machine that walks right over
  \<open>a\<close>s and halts, without accepting, on the first blank.
\<close>

definition accept_after_a :: TuringMachine where
  "accept_after_a =
     \<lparr>states = {''q0'', ''q1''}, input_alphabet = {CHR ''a''},
      tape_alphabet = {CHR ''a'', CHR ''.''}, initial_state = ''q0'', accept_states = {''q1''},
      machine_blank_symbol = CHR ''.'',
      transitions = [((''q0'', CHR ''a''),
                      \<lparr>from_state = ''q0'', read_symbol = CHR ''a'', to_state = ''q1'',
                       write_symbol = CHR ''a'', movement = RIGHT\<rparr>)]\<rparr>"

definition right_mover :: TuringMachine where
  "right_mover =
     \<lparr>states = {''q0''}, input_alphabet = {CHR ''a''}, tape_alphabet = {CHR ''a'', CHR ''.''},
      initial_state = ''q0'', accept_states = {}, machine_blank_symbol = CHR ''.'',
      transitions = [((''q0'', CHR ''a''),
                      \<lparr>from_state = ''q0'', read_symbol = CHR ''a'', to_state = ''q0'',
                       write_symbol = CHR ''a'', movement = RIGHT\<rparr>)]\<rparr>"

text \<open>
  Two simulators of the first machine in its accept state \<open>q1\<close> after one step, where no
  transition is defined: one with the budget 1, so at the step cap, one with the budget 5.
\<close>

definition sim_cap_accept :: Simulator where
  "sim_cap_accept =
     \<lparr>machine = Some accept_after_a,
      current_config = \<lparr>current_state = ''q1'',
                        tape = Tape_move_right (Tape_init_word ''a'' CHR ''.''),
                        step_count = 1\<rparr>,
      trace = [], trace_enabled = False, max_steps = 1, last_error = No_error,
      visited_configurations = {''q0|0|a'', ''q1|1|a''}\<rparr>"

definition sim_accept_halt :: Simulator where
  "sim_accept_halt = sim_cap_accept\<lparr>max_steps := 5\<rparr>"

text \<open>
  The same on two tapes: the machine copies one \<open>a\<close> to the second tape and accepts.
\<close>

definition multi_accept_after_a :: MultiTuringMachine where
  "multi_accept_after_a =
     \<lparr>multi_states = {''q0'', ''q1''}, multi_input_alphabet = {CHR ''a''},
      multi_tape_alphabet = {CHR ''a'', CHR ''.''}, multi_initial_state = ''q0'',
      multi_accept_states = {''q1''}, multi_blank_symbol = CHR ''.'', machine_num_tapes = 2,
      multi_transitions =
        [((''q0'', ''a.''),
          \<lparr>multi_from_state = ''q0'', read_symbols = ''a.'', multi_to_state = ''q1'',
           write_symbols = ''aa'', movements = [RIGHT, RIGHT]\<rparr>)]\<rparr>"

definition multi_cap_accept :: MultiSimulator where
  "multi_cap_accept =
     \<lparr>multi_machine = Some multi_accept_after_a,
      multi_current_config =
        \<lparr>multi_current_state = ''q1'',
         multi_tapes = \<lparr>tapes = [Tape_move_right (Tape_init_word ''a'' CHR ''.''),
                                 Tape_move_right (Tape_write CHR ''a'' (Tape_init CHR ''.''))],
                        num_tapes = 2\<rparr>,
         multi_step_count = 1\<rparr>,
      multi_trace = [], multi_trace_enabled = False, multi_max_steps = 1,
      multi_last_error = No_error,
      multi_visited_configurations = {''q0|0,0|a|'', ''q1|1,1|a|a''}\<rparr>"

definition multi_accept_halt :: MultiSimulator where
  "multi_accept_halt = multi_cap_accept\<lparr>multi_max_steps := 5\<rparr>"

text \<open>
  The simulator that the constructor of MultiSimulator builds for this machine.
\<close>

definition multi_start :: MultiSimulator where
  "multi_start =
     \<lparr>multi_machine = Some multi_accept_after_a,
      multi_current_config =
        \<lparr>multi_current_state = ''q0'',
         multi_tapes = \<lparr>tapes = [Tape_init_word [] CHR ''.'', Tape_init CHR ''.''],
                        num_tapes = 2\<rparr>,
         multi_step_count = 0\<rparr>,
      multi_trace = [], multi_trace_enabled = False, multi_max_steps = 1000,
      multi_last_error = No_error, multi_visited_configurations = {}\<rparr>"

text \<open>
  Simulators at the entry of the loop and at a halt without acceptance: the first machine
  entering the loop on the word \<open>a\<close> with the budget 1, the second machine halted on the
  blank after one step, and the two-tape machine entering the loop on the word \<open>a\<close> with
  the budget 1.
\<close>

definition sim_first_pass :: Simulator where
  "sim_first_pass =
     \<lparr>machine = Some accept_after_a,
      current_config = \<lparr>current_state = ''q0'', tape = Tape_init_word ''a'' CHR ''.'',
                        step_count = 0\<rparr>,
      trace = [], trace_enabled = False, max_steps = 1, last_error = No_error,
      visited_configurations = {''q0|0|a''}\<rparr>"

definition sim_reject_halt :: Simulator where
  "sim_reject_halt =
     \<lparr>machine = Some right_mover,
      current_config = \<lparr>current_state = ''q0'',
                        tape = Tape_move_right (Tape_init_word ''a'' CHR ''.''),
                        step_count = 1\<rparr>,
      trace = [], trace_enabled = False, max_steps = 5, last_error = No_error,
      visited_configurations = {''q0|0|a'', ''q0|1|a''}\<rparr>"

definition multi_first_pass :: MultiSimulator where
  "multi_first_pass =
     \<lparr>multi_machine = Some multi_accept_after_a,
      multi_current_config =
        \<lparr>multi_current_state = ''q0'',
         multi_tapes = \<lparr>tapes = [Tape_init_word ''a'' CHR ''.'', Tape_init CHR ''.''],
                        num_tapes = 2\<rparr>,
         multi_step_count = 0\<rparr>,
      multi_trace = [], multi_trace_enabled = False, multi_max_steps = 1,
      multi_last_error = No_error, multi_visited_configurations = {''q0|0,0|a|''}\<rparr>"

text \<open>
  A machine that writes an \<open>a\<close> on every blank and moves left, so that on the empty
  word its tape grows by one cell with every step; and the invariant of its run at the
  entry of the loop: after \<open>k\<close> steps the head is on cell \<open>- k\<close>, the cells from
  \<open>- k + 1\<close> to 0 are written, and every fingerprint seen belongs to a configuration
  whose head was not further left.
\<close>

definition left_writer :: TuringMachine where
  "left_writer =
     \<lparr>states = {''q0''}, input_alphabet = {CHR ''a''}, tape_alphabet = {CHR ''a'', CHR ''.''},
      initial_state = ''q0'', accept_states = {}, machine_blank_symbol = CHR ''.'',
      transitions = [((''q0'', CHR ''.''),
                      \<lparr>from_state = ''q0'', read_symbol = CHR ''.'', to_state = ''q0'',
                       write_symbol = CHR ''a'', movement = LEFT\<rparr>)]\<rparr>"

definition writer_inv :: "Simulator \<Rightarrow> bool" where
  "writer_inv s =
     (machine s = Some left_writer
      \<and> current_state (current_config s) = ''q0''
      \<and> head_position (tape (current_config s)) = - int (step_count (current_config s))
      \<and> blank_symbol (tape (current_config s)) = CHR ''.''
      \<and> fst ` set (cells (tape (current_config s)))
          = (\<lambda>i. - int i) ` {..<step_count (current_config s)}
      \<and> (\<forall>key \<in> visited_configurations s.
           \<exists>c. Configuration_to_compact_string c = Inr key \<and> current_state c = ''q0''
               \<and> - int (step_count (current_config s)) \<le> head_position (tape c)))"
section \<open>Parser of single-tape machine files (Parser.cpp)\<close>

text \<open>
  The characters that \<^verbatim>\<open>Parser::trim\<close> strips (space, tab, carriage return, newline),
  and the white space at which the extraction of a token from a \<^verbatim>\<open>std::istringstream\<close>
  stops (those and the vertical tab and the form feed).
\<close>

definition trim_char :: "char \<Rightarrow> bool" where
  "trim_char c = (c = CHR '' '' \<or> c = CHR 0x09 \<or> c = CHR 0x0D \<or> c = CHR 0x0A)"

definition isspace :: "char \<Rightarrow> bool" where
  "isspace c = (c = CHR '' '' \<or> c = CHR 0x09 \<or> c = CHR 0x0A \<or> c = CHR 0x0B
                \<or> c = CHR 0x0C \<or> c = CHR 0x0D)"

definition Parser_trim :: "string \<Rightarrow> string" where
  "Parser_trim str = rev (dropWhile trim_char (rev (dropWhile trim_char str)))"

text \<open>
  \<^verbatim>\<open>Parser::split\<close>: the loop \<^verbatim>\<open>while (iss >> token)\<close>. The first argument is the
  token read so far.
\<close>

fun split_from :: "string \<Rightarrow> string \<Rightarrow> string list" where
  "split_from token [] = (if token = [] then [] else [token])"
| "split_from token (c # cs) =
     (if isspace c then (if token = [] then split_from [] cs else token # split_from [] cs)
      else split_from (token @ [c]) cs)"

definition Parser_split :: "string \<Rightarrow> string list" where
  "Parser_split str = split_from [] str"

definition Parser_is_comment :: "string \<Rightarrow> bool" where
  "Parser_is_comment line =
     (let trimmed = Parser_trim line in trimmed \<noteq> [] \<and> hd trimmed = CHR ''#'')"

definition Parser_is_empty_line :: "string \<Rightarrow> bool" where
  "Parser_is_empty_line line = (Parser_trim line = [])"

definition Parser_string_to_char :: "string \<Rightarrow> exception + char" where
  "Parser_string_to_char str =
     (if str = [] then Inl invalid_argument
      else if length str = 1 then Inr (hd str)
      else if str = ''espacio'' \<or> str = ''space'' then Inr CHR '' ''
      else if 1 < length str then Inl invalid_argument
      else Inr (hd str))"

definition Parser_parse_transition :: "string \<Rightarrow> exception + Transition" where
  "Parser_parse_transition line =
     (let tokens = Parser_split line
      in if length tokens \<noteq> 5 then Inl invalid_argument
         else case Parser_string_to_char (tokens ! 1) of
           Inl e \<Rightarrow> Inl e
         | Inr rd \<Rightarrow>
             (case Parser_string_to_char (tokens ! 3) of
                Inl e \<Rightarrow> Inl e
              | Inr wr \<Rightarrow>
                  (case Parser_string_to_char (tokens ! 4) of
                     Inl e \<Rightarrow> Inl invalid_argument
                   | Inr mc \<Rightarrow>
                       (case Transition_char_to_movement mc of
                          Inl e \<Rightarrow> Inl invalid_argument
                        | Inr mv \<Rightarrow>
                            Inr \<lparr>from_state = tokens ! 0, read_symbol = rd, to_state = tokens ! 2,
                                 write_symbol = wr, movement = mv\<rparr>))))"

text \<open>
  A loop that calls a builder for every element of a vector and is left by the first
  exception.
\<close>

fun for_each_build ::
  "('a \<Rightarrow> TuringMachine \<Rightarrow> exception option \<times> TuringMachine) \<Rightarrow> 'a list \<Rightarrow> TuringMachine
     \<Rightarrow> exception + TuringMachine" where
  "for_each_build build [] m = Inr m"
| "for_each_build build (x # xs) m =
     (case build x m of
        (Some e, m') \<Rightarrow> Inl e
      | (None, m') \<Rightarrow> for_each_build build xs m')"

definition add_input_symbol_token ::
  "string \<Rightarrow> TuringMachine \<Rightarrow> exception option \<times> TuringMachine" where
  "add_input_symbol_token symbol_str m =
     (case Parser_string_to_char symbol_str of
        Inl e \<Rightarrow> (Some e, m)
      | Inr symbol \<Rightarrow> TuringMachine_add_input_symbol symbol m)"

definition add_tape_symbol_token ::
  "string \<Rightarrow> TuringMachine \<Rightarrow> exception option \<times> TuringMachine" where
  "add_tape_symbol_token symbol_str m =
     (case Parser_string_to_char symbol_str of
        Inl e \<Rightarrow> (Some e, m)
      | Inr symbol \<Rightarrow> (None, TuringMachine_add_tape_symbol symbol m))"

text \<open>
  The \<^verbatim>\<open>switch (section)\<close> of \<^verbatim>\<open>Parser::load_from_stream\<close> on one trimmed line that is
  neither a comment nor empty: the exception thrown, or the next section with the
  machine. The line number only appears in the texts of the exceptions and is left out.
\<close>

definition load_section ::
  "string \<Rightarrow> nat \<Rightarrow> TuringMachine \<Rightarrow> exception + nat \<times> TuringMachine" where
  "load_section line section m =
     (if section = 0 then
        (let sts = Parser_split line
         in if sts = [] then Inl invalid_argument
            else case for_each_build TuringMachine_add_state sts m of
              Inl e \<Rightarrow> Inl e
            | Inr m' \<Rightarrow> Inr (section + 1, m'))
      else if section = 1 then
        (case for_each_build add_input_symbol_token (Parser_split line) m of
           Inl e \<Rightarrow> Inl e
         | Inr m' \<Rightarrow> Inr (section + 1, m'))
      else if section = 2 then
        (case for_each_build add_tape_symbol_token (Parser_split line) m of
           Inl e \<Rightarrow> Inl e
         | Inr m' \<Rightarrow> Inr (section + 1, m'))
      else if section = 3 then
        (let tokens = Parser_split line
         in if length tokens \<noteq> 1 then Inl invalid_argument
            else case TuringMachine_set_initial_state (tokens ! 0) m of
              (Some e, m') \<Rightarrow> Inl e
            | (None, m') \<Rightarrow> Inr (section + 1, m'))
      else if section = 4 then
        (let tokens = Parser_split line
         in if length tokens \<noteq> 1 then Inl invalid_argument
            else case Parser_string_to_char (tokens ! 0) of
              Inl e \<Rightarrow> Inl e
            | Inr blank \<Rightarrow> Inr (section + 1, TuringMachine_set_blank_symbol blank m))
      else if section = 5 then
        (case for_each_build TuringMachine_add_accept_state (Parser_split line) m of
           Inl e \<Rightarrow> Inl e
         | Inr m' \<Rightarrow> Inr (section + 1, m'))
      else
        (case Parser_parse_transition line of
           Inl e \<Rightarrow> Inl invalid_argument
         | Inr transition \<Rightarrow>
             (case TuringMachine_add_transition transition m of
                (Some e, m') \<Rightarrow> Inl invalid_argument
              | (None, m') \<Rightarrow> Inr (section, m'))))"

text \<open>
  The \<^verbatim>\<open>while (std::getline(input, line))\<close> loop, over the lines of the stream.
\<close>

fun load_lines :: "string list \<Rightarrow> nat \<Rightarrow> TuringMachine \<Rightarrow> exception + nat \<times> TuringMachine" where
  "load_lines [] section m = Inr (section, m)"
| "load_lines (line # rest) section m =
     (if Parser_is_comment line \<or> Parser_is_empty_line line then load_lines rest section m
      else case load_section (Parser_trim line) section m of
        Inl e \<Rightarrow> Inl e
      | Inr (section', m') \<Rightarrow> load_lines rest section' m')"

text \<open>
  \<^verbatim>\<open>Parser::load_from_stream\<close>. The result is the boolean that the function returns,
  the kind of text it leaves in \<^verbatim>\<open>last_error_\<close>, and the machine on success. Every
  exception is caught by the handler of the function, which returns false.
\<close>

datatype parser_message =
    No_parser_error
  | Exception_text
  | Incomplete_file
  | Resulting_machine_not_valid

definition Parser_load_from_stream ::
  "string list \<Rightarrow> TuringMachine \<Rightarrow> bool \<times> parser_message \<times> TuringMachine option" where
  "Parser_load_from_stream input m =
     (case load_lines input 0 (TuringMachine_clear m) of
        Inl e \<Rightarrow> (False, Exception_text, None)
      | Inr (section, m') \<Rightarrow>
          if section < 6 then (False, Incomplete_file, None)
          else if \<not> TuringMachine_is_valid m' then (False, Resulting_machine_not_valid, None)
          else (True, No_parser_error, Some m'))"

text \<open>
  Two machine files, line by line: in the first the initial state \<open>qInicial\<close> is not
  among the declared states, in the second the blank symbol \<open>Z\<close> is not in the declared
  tape alphabet.
\<close>

definition file_undeclared_initial_state :: "string list" where
  "file_undeclared_initial_state =
     [''# estados'', ''q0 q1'', ''0 1'', ''0 1 .'', ''qInicial'', ''.'', ''q1'',
      ''q0 0 q1 0 R'']"

definition file_undeclared_blank :: "string list" where
  "file_undeclared_blank =
     [''q0 q1'', ''0 1'', ''0 1 .'', ''q0'', ''Z'', ''q1'', ''q0 0 q1 0 R'']"

section \<open>The word loop of the program (main.cpp)\<close>

definition strip_spaces :: "string \<Rightarrow> string" where
  "strip_spaces s = filter (\<lambda>c. \<not> isspace c) s"

text \<open>
  \<^verbatim>\<open>word_in_alphabet\<close> and \<^verbatim>\<open>word_in_alphabet_multi\<close>: the boolean, and the string left in
  \<^verbatim>\<open>*bad\<close> (the first symbol outside the input alphabet; untouched, so empty as the
  caller initialises it, when there is none).
\<close>

fun word_in_alphabet :: "string \<Rightarrow> TuringMachine \<Rightarrow> bool \<times> string" where
  "word_in_alphabet [] m = (True, [])"
| "word_in_alphabet (c # w) m =
     (if \<not> TuringMachine_is_input_symbol m c then (False, [c]) else word_in_alphabet w m)"

fun word_in_alphabet_multi :: "string \<Rightarrow> MultiTuringMachine \<Rightarrow> bool \<times> string" where
  "word_in_alphabet_multi [] m = (True, [])"
| "word_in_alphabet_multi (c # w) m =
     (if \<not> MultiTuringMachine_is_input_symbol m c then (False, [c])
      else word_in_alphabet_multi w m)"

text \<open>
  What the body of the word loop writes. A line of standard output that holds a result
  token is kept as the string; the renderings of tapes and traces and the information
  lines are kept as what they render (\<open>Out_info_begun\<close> is the beginning of the
  information line, written before the loop flag is asked for, when the exception of
  the flag cuts the line short). On standard error: the diagnostic of a word with a
  symbol outside the alphabet (the symbol and the word), the error text of a simulator,
  and the text of a caught exception.
\<close>

datatype stdout_item =
    Out_line string
  | Out_final_tape Tape
  | Out_final_tapes "Tape list"
  | Out_trace "Configuration list"
  | Out_multi_trace "MultiConfiguration list"
  | Out_info_begun
  | Out_info_loop_detected
  | Out_info_step_limit nat

datatype stderr_item =
    Err_word_symbol string string
  | Err_simulation error_message
  | Err_exception exception

text \<open>
  The body of \<^verbatim>\<open>while (std::getline(*in, line))\<close> for a single-tape machine: what it
  writes to standard output and to standard error, and the simulator after it. \<open>None\<close>
  is a simulation that never returns. An exception out of the simulation, or out of
  \<^verbatim>\<open>is_infinite_loop_detected\<close> after it, is caught in the body: the diagnostic goes to
  standard error and the line \<^verbatim>\<open>ERROR\<close> to standard output; the model does not follow
  the simulator through a thrown exception (\<open>None\<close> in the last component).
\<close>

definition main_process_line ::
  "bool \<Rightarrow> bool \<Rightarrow> nat \<Rightarrow> TuringMachine \<Rightarrow> string \<Rightarrow> Simulator
     \<Rightarrow> (stdout_item list \<times> stderr_item list \<times> Simulator option) option" where
  "main_process_line strict_mode tr budget m line simulator =
     (let word = strip_spaces line;
          (valid_word, bad_symbol) = word_in_alphabet word m
      in if \<not> valid_word then
           (if strict_mode
            then Some ([Out_line ''REJECT''], [Err_word_symbol bad_symbol word], Some simulator)
            else Some ([Out_line ''REJECT''], [], Some simulator))
         else
           (case Simulator_simulate word tr budget simulator of
              None \<Rightarrow> None
            | Some (Inl e) \<Rightarrow> Some ([Out_line ''ERROR''], [Err_exception e], None)
            | Some (Inr (result, simulator')) \<Rightarrow>
                (let head_lines =
                       [Out_line (result_to_string result),
                        Out_final_tape (tape (current_config simulator'))]
                       @ (if tr then [Out_trace (trace simulator')] else [])
                 in if result = INFINITE then
                      (case Simulator_is_infinite_loop_detected simulator' of
                         Inl e \<Rightarrow>
                           Some (head_lines @ [Out_info_begun, Out_line ''ERROR''],
                                 [Err_exception e], None)
                       | Inr loop_detected \<Rightarrow>
                           Some (head_lines
                                 @ [if loop_detected then Out_info_loop_detected
                                    else Out_info_step_limit budget],
                                 [], Some simulator'))
                    else if result = ERROR
                    then Some (head_lines, [Err_simulation (last_error simulator')],
                               Some simulator')
                    else Some (head_lines, [], Some simulator'))))"

text \<open>
  The same for a multi-tape machine.
\<close>

definition main_process_line_multi ::
  "bool \<Rightarrow> bool \<Rightarrow> nat \<Rightarrow> MultiTuringMachine \<Rightarrow> string \<Rightarrow> MultiSimulator
     \<Rightarrow> (stdout_item list \<times> stderr_item list \<times> MultiSimulator option) option" where
  "main_process_line_multi strict_mode tr budget m line simulator =
     (let word = strip_spaces line;
          (valid_word, bad_symbol) = word_in_alphabet_multi word m
      in if \<not> valid_word then
           (if strict_mode
            then Some ([Out_line ''REJECT''], [Err_word_symbol bad_symbol word], Some simulator)
            else Some ([Out_line ''REJECT''], [], Some simulator))
         else
           (case MultiSimulator_simulate word tr budget simulator of
              None \<Rightarrow> None
            | Some (Inl e) \<Rightarrow> Some ([Out_line ''ERROR''], [Err_exception e], None)
            | Some (Inr (result, simulator')) \<Rightarrow>
                (let head_lines =
                       [Out_line (result_to_string result),
                        Out_final_tapes (tapes (multi_tapes (multi_current_config simulator')))]
                       @ (if tr then [Out_multi_trace (multi_trace simulator')] else [])
                 in if result = INFINITE then
                      (case MultiSimulator_is_infinite_loop_detected simulator' of
                         Inl e \<Rightarrow>
                           Some (head_lines @ [Out_info_begun, Out_line ''ERROR''],
                                 [Err_exception e], None)
                       | Inr loop_detected \<Rightarrow>
                           Some (head_lines
                                 @ [if loop_detected then Out_info_loop_detected
                                    else Out_info_step_limit budget],
                                 [], Some simulator'))
                    else if result = ERROR
                    then Some (head_lines, [Err_simulation (multi_last_error simulator')],
                               Some simulator')
                    else Some (head_lines, [], Some simulator'))))"


section \<open>Example: a state name that holds the separator\<close>

text \<open>
  A machine file whose fourth state is named \<open>q|0\<close>. The machine erases \<open>1\<close> and the bar,
  steps back from the \<open>x\<close> into the state \<open>q|0\<close>, and from there accepts on the blank.
\<close>

definition file_bar_state :: "string list" where
  "file_bar_state =
     [''q q1 q2 q|0 qf'', ''1 | x'', ''1 | x .'', ''q'', ''.'', ''qf'',
      ''q 1 q1 . R'', ''q1 | q2 . R'', ''q2 x q|0 x L'', ''q|0 . qf . S'']"

definition bar_state_machine :: "TuringMachine option" where
  "bar_state_machine =
     snd (snd (Parser_load_from_stream file_bar_state (TuringMachine_init CHR ''.'')))"

text \<open>
  The three fields of a configuration that the fingerprint is made of, and what a caller
  can read off a finished run: the result with the fields of the final configuration and
  of the traced configurations; the fingerprint of the final configuration;
  \<^verbatim>\<open>is_equivalent\<close> of the final configuration with each traced one; and whether one
  more step from the final configuration reaches an accept state.
\<close>

definition config_fields :: "Configuration \<Rightarrow> string \<times> int \<times> (exception + string)" where
  "config_fields c =
     (current_state c, Tape_get_head_position (tape c), Tape_get_content (tape c))"

definition run_fields ::
  "(exception + SimulationResult \<times> Simulator) option
     \<Rightarrow> (exception + SimulationResult \<times> (string \<times> int \<times> (exception + string))
                       \<times> (string \<times> int \<times> (exception + string)) list) option" where
  "run_fields x =
     map_option
       (map_sum id (\<lambda>(r, s). (r, config_fields (current_config s), map config_fields (trace s))))
       x"

definition run_final_fingerprint ::
  "(exception + SimulationResult \<times> Simulator) option \<Rightarrow> (exception + string) option" where
  "run_final_fingerprint x =
     map_option (\<lambda>y. case y of
                         Inl e \<Rightarrow> Inl e
                       | Inr (r, s) \<Rightarrow> Configuration_to_compact_string (current_config s)) x"

definition run_final_equivalences ::
  "(exception + SimulationResult \<times> Simulator) option
     \<Rightarrow> (exception + (exception + bool) list) option" where
  "run_final_equivalences x =
     map_option
       (map_sum id (\<lambda>(r, s). map (Configuration_is_equivalent (current_config s)) (trace s)))
       x"

definition run_accepts_after_next_step ::
  "(exception + SimulationResult \<times> Simulator) option \<Rightarrow> (exception + bool) option" where
  "run_accepts_after_next_step x =
     map_option
       (map_sum id (\<lambda>(r, s). fst (Simulator_step s)
                                \<and> Simulator_is_accepting_state (snd (Simulator_step s))))
       x"

text \<open>
  Two configurations in the same state with the head on cell 0 and the tape content
  \<open>a\<close>: in the first the \<open>a\<close> is on cell 0, under the head, in the second on cell 1.
\<close>

definition fp_offset_a :: Configuration where
  "fp_offset_a =
     \<lparr>current_state = ''q0'', tape = Tape_init_word ''a'' CHR ''.'', step_count = 0\<rparr>"

definition fp_offset_b :: Configuration where
  "fp_offset_b =
     \<lparr>current_state = ''q0'', tape = Tape_init_word ''.a'' CHR ''.'', step_count = 0\<rparr>"
section \<open>Properties of the tape\<close>

subsection \<open>Invariant I5 is kept by every operation of the class\<close>

lemma set_update_subset: "set (AList.update k v al) \<subseteq> insert (k, v) (set al)"
  by (induction al) auto

lemma set_delete_subset: "set (AList.delete k al) \<subseteq> set al"
  by (auto simp: AList.delete_eq)

lemma Tape_compact_init: "Tape_compact (Tape_init b)"
  by (simp add: Tape_compact_def Tape_init_def)

lemma Tape_compact_write: "Tape_compact t \<Longrightarrow> Tape_compact (Tape_write s t)"
  using set_update_subset[of "head_position t" s "cells t"]
    set_delete_subset[of "head_position t" "cells t"]
  by (auto simp: Tape_compact_def Tape_write_def)

lemma fold_reset_compact:
  "\<forall>(p, c) \<in> set acc. c \<noteq> b \<Longrightarrow>
   \<forall>(p, c) \<in> set (fold (\<lambda>(i, c) cs. if c \<noteq> b then AList.update (int i) c cs else cs) xs acc).
     c \<noteq> b"
proof (induction xs arbitrary: acc)
  case Nil
  then show ?case by simp
next
  case (Cons x xs)
  obtain i c where x: "x = (i, c)" by (cases x)
  show ?case
  proof (cases "c \<noteq> b")
    case True
    have "\<forall>(p, c') \<in> set (AList.update (int i) c acc). c' \<noteq> b"
      using set_update_subset[of "int i" c acc] Cons.prems True by auto
    from Cons.IH[OF this] show ?thesis using x True by simp
  next
    case False
    then show ?thesis using Cons x by simp
  qed
qed

lemma Tape_compact_reset: "Tape_compact (Tape_reset w t)"
  using fold_reset_compact[of "[]" "blank_symbol t"]
  by (simp add: Tape_compact_def Tape_reset_def)

lemma Tape_compact_init_word: "Tape_compact (Tape_init_word w b)"
  by (simp add: Tape_init_word_def Tape_compact_reset)

lemma Tape_compact_moves:
  "Tape_compact (Tape_move_left t) = Tape_compact t"
  "Tape_compact (Tape_move_right t) = Tape_compact t"
  "Tape_compact (Tape_set_head_position p t) = Tape_compact t"
  by (simp_all add: Tape_compact_def Tape_move_left_def Tape_move_right_def
      Tape_set_head_position_def)

subsection \<open>Write and read\<close>

lemma delete_update_absent:
  "map_of al k = None \<Longrightarrow> AList.delete k (AList.update k v al) = al"
  by (induction al) (auto split: if_splits)

lemma delete_absent: "map_of al k = None \<Longrightarrow> AList.delete k al = al"
  by (induction al) (auto split: if_splits)

lemma Tape_get_content_cong:
  assumes "map_of (cells t1) = map_of (cells t2)" and "blank_symbol t1 = blank_symbol t2"
  shows "Tape_get_content t1 = Tape_get_content t2"
proof -
  have e: "(cells t1 = []) = (cells t2 = [])"
    using assms(1) by (metis map_of_eq_empty_iff)
  have k: "set (map fst (cells t1)) = set (map fst (cells t2))"
    using assms(1) by (metis dom_map_of_conv_image_fst set_map)
  show ?thesis
    unfolding Tape_get_content_def e k assms by simp
qed

text \<open>
  Claim C7. After \<^verbatim>\<open>write(s)\<close> the head reads \<open>s\<close>, for every tape, head position and
  symbol (the blank included). After \<^verbatim>\<open>write(blank)\<close> the sparse map has no entry at
  the head position, and \<^verbatim>\<open>get_content\<close> returns what it returns (or throws as it
  throws) on any tape with the same blank symbol that holds the same cells but none at
  that position. On a position that never held an entry, writing any symbol and then the
  blank gives back the very same tape, and so the same content.
\<close>

theorem tape_write_read_roundtrip:
  "Tape_read (Tape_write s t) = s
   \<and> map_of (cells (Tape_write (blank_symbol t) t)) (head_position t) = None
   \<and> (blank_symbol t' = blank_symbol t
        \<and> map_of (cells t') = (map_of (cells t))(head_position t := None)
      \<longrightarrow> Tape_get_content (Tape_write (blank_symbol t) t) = Tape_get_content t')
   \<and> (map_of (cells t) (head_position t) = None \<longrightarrow>
        Tape_write (blank_symbol t) (Tape_write s t) = t
        \<and> Tape_get_content (Tape_write (blank_symbol t) (Tape_write s t)) = Tape_get_content t)"
proof (intro conjI impI)
  show "Tape_read (Tape_write s t) = s"
    by (simp add: Tape_read_def Tape_write_def update_conv' delete_conv')
  show "map_of (cells (Tape_write (blank_symbol t) t)) (head_position t) = None"
    by (simp add: Tape_write_def delete_conv')
next
  assume "blank_symbol t' = blank_symbol t
        \<and> map_of (cells t') = (map_of (cells t))(head_position t := None)"
  then show "Tape_get_content (Tape_write (blank_symbol t) t) = Tape_get_content t'"
    by (intro Tape_get_content_cong) (simp_all add: Tape_write_def delete_conv')
next
  assume a: "map_of (cells t) (head_position t) = None"
  then show r: "Tape_write (blank_symbol t) (Tape_write s t) = t"
    by (simp add: Tape_write_def delete_update_absent delete_absent)
  then show "Tape_get_content (Tape_write (blank_symbol t) (Tape_write s t)) = Tape_get_content t"
    by simp
qed

theorem tape_write_read_roundtrip_witness:
  "map_of (cells (Tape_set_head_position 2 (Tape_init_word ''ab'' CHR ''.'')))
      (head_position (Tape_set_head_position 2 (Tape_init_word ''ab'' CHR ''.''))) = None
   \<and> Tape_read (Tape_write CHR ''x'' (Tape_set_head_position 2 (Tape_init_word ''ab'' CHR ''.'')))
       = CHR ''x''
   \<and> Tape_get_content
        (Tape_write CHR ''.''
          (Tape_write CHR ''x'' (Tape_set_head_position 2 (Tape_init_word ''ab'' CHR ''.''))))
       = Inr ''ab''
   \<and> Tape_get_content (Tape_write CHR ''.'' (Tape_init_word ''abc'' CHR ''.''))
       = Tape_get_content (Tape_init_word ''.bc'' CHR ''.'')"
proof -
  let ?t = "Tape_set_head_position 2 (Tape_init_word ''ab'' CHR ''.'')"
  let ?u = "Tape_init_word ''abc'' CHR ''.''" and ?v = "Tape_init_word ''.bc'' CHR ''.''"
  have h: "map_of (cells ?t) (head_position ?t) = None" by code_simp
  have b: "blank_symbol ?t = CHR ''.''" by code_simp
  have c: "Tape_get_content ?t = Inr ''ab''" by code_simp
  have bu: "blank_symbol ?u = CHR ''.''" "blank_symbol ?v = CHR ''.''" "head_position ?u = 0"
    by code_simp+
  have cu: "cells ?u = [(0, CHR ''a''), (1, CHR ''b''), (2, CHR ''c'')]"
    and cv: "cells ?v = [(1, CHR ''b''), (2, CHR ''c'')]"
    by code_simp+
  have m: "map_of (cells ?v) = (map_of (cells ?u))(head_position ?u := None)"
    unfolding cu cv bu by (rule ext) simp
  from tape_write_read_roundtrip[of "CHR ''x''" ?t ?t] h b c
    tape_write_read_roundtrip[of "CHR ''x''" ?u ?v] bu m
  show ?thesis by simp
qed

subsection \<open>The content of a tape\<close>

lemma nonblank_positions_keys:
  assumes "Tape_compact t"
  shows "nonblank_positions t = set (map fst (cells t))"
proof -
  have v: "\<And>p c. map_of (cells t) p = Some c \<Longrightarrow> c \<noteq> blank_symbol t"
    using assms by (auto simp: Tape_compact_def dest: map_of_SomeD)
  have "nonblank_positions t = dom (map_of (cells t))"
    using v by (auto simp: nonblank_positions_def symbol_at_def split: option.splits)
  then show ?thesis
    by (simp add: dom_map_of_conv_image_fst)
qed

text \<open>
  What holds of \<^verbatim>\<open>get_content\<close>. On every tape that keeps invariant I5 (every tape the
  class builds, by the lemmas above) and whose window can be computed in \<^verbatim>\<open>int\<close>s,
  \<^verbatim>\<open>get_content\<close> is the string of the symbols from the leftmost to the rightmost
  non-blank position, a position without an entry giving the blank symbol, and it is the
  empty string when no position is non-blank. On every other tape that keeps I5 the call
  throws.
\<close>

lemma get_content_minimal_window:
  assumes "Tape_compact t"
  shows "Tape_get_content t = (if content_fits t then Inr (content_spec t) else Inl length_error)"
proof -
  have nb: "nonblank_positions t = set (map fst (cells t))"
    by (rule nonblank_positions_keys[OF assms])
  have e: "(nonblank_positions t = {}) = (cells t = [])"
    using nb by simp
  show ?thesis
    unfolding Tape_get_content_def content_spec_def content_fits_def e nb Let_def
    by (auto simp: symbol_at_def fun_eq_iff)
qed

lemma get_content_minimal_window_example:
  "Tape_compact (Tape_write CHR ''b'' (Tape_set_head_position (-2) (Tape_init_word ''a.c'' CHR ''.'')))
   \<and> content_fits (Tape_write CHR ''b'' (Tape_set_head_position (-2) (Tape_init_word ''a.c'' CHR ''.'')))
   \<and> content_spec (Tape_write CHR ''b'' (Tape_set_head_position (-2) (Tape_init_word ''a.c'' CHR ''.'')))
       = ''b.a.c''
   \<and> Tape_compact (Tape_init_word ''..'' CHR ''.'')
   \<and> content_fits (Tape_init_word ''..'' CHR ''.'')
   \<and> content_spec (Tape_init_word ''..'' CHR ''.'') = []"
proof -
  let ?t = "Tape_write CHR ''b'' (Tape_set_head_position (-2) (Tape_init_word ''a.c'' CHR ''.''))"
  let ?e = "Tape_init_word ''..'' CHR ''.''"
  have h: "Tape_compact ?t"
    by (simp add: Tape_compact_write Tape_compact_moves Tape_compact_init_word)
  have h': "Tape_compact ?e"
    by (rule Tape_compact_init_word)
  have c: "Tape_get_content ?t = Inr ''b.a.c''" by code_simp
  have c': "Tape_get_content ?e = Inr []" by code_simp
  from get_content_minimal_window[OF h] get_content_minimal_window[OF h'] h h' c c'
  show ?thesis by (simp split: if_splits)
qed

lemma Tape_compact_wide_tape: "Tape_compact wide_tape"
  by (simp add: wide_tape_def Tape_compact_write Tape_compact_moves Tape_compact_init)

lemma cells_wide_tape:
  "cells wide_tape = [(- 1500000000, CHR ''a''), (1500000000, CHR ''b'')]"
  by code_simp

lemma nonblank_positions_wide_tape:
  "nonblank_positions wide_tape = {- 1500000000, 1500000000}"
  using nonblank_positions_keys[OF Tape_compact_wide_tape] by (simp add: cells_wide_tape)

lemma length_content_spec_wide_tape: "length (content_spec wide_tape) = 3000000001"
proof -
  have m: "Min {- 1500000000, 1500000000 :: int} = - 1500000000"
    "Max {- 1500000000, 1500000000 :: int} = 1500000000"
    by simp_all
  have "content_spec wide_tape = map (symbol_at wide_tape) [- 1500000000..1500000000]"
    unfolding content_spec_def nonblank_positions_wide_tape
    by (simp only: m insert_not_empty if_False)
  then have "length (content_spec wide_tape) = nat (1500000000 - (- 1500000000) + 1)"
    by (simp only: length_map length_upto)
  then show ?thesis by simp
qed

text \<open>
  Claim C8 at a failing input. The tape \<open>wide_tape\<close> is built with \<^verbatim>\<open>set_head_position\<close>
  and \<^verbatim>\<open>write\<close>: an \<open>a\<close> on cell -1500000000 and a \<open>b\<close> on cell 1500000000, every
  other cell blank. The string from its leftmost to its rightmost non-blank cell has
  3000000001 characters; \<^verbatim>\<open>get_content\<close> computes this width in an \<^verbatim>\<open>int\<close>, which
  overflows, and the call throws \<^verbatim>\<open>std::length_error\<close> where the claim has it return
  that string.
\<close>

theorem get_content_throws_on_wide_tape:
  "nonblank_positions wide_tape = {- 1500000000, 1500000000}
   \<and> symbol_at wide_tape (- 1500000000) = CHR ''a''
   \<and> symbol_at wide_tape 1500000000 = CHR ''b''
   \<and> length (content_spec wide_tape) = 3000000001
   \<and> Tape_get_content wide_tape = Inl length_error"
proof -
  have a: "symbol_at wide_tape (- 1500000000) = CHR ''a''"
    and b: "symbol_at wide_tape 1500000000 = CHR ''b''"
    by (simp_all add: symbol_at_def cells_wide_tape)
  have c: "Tape_get_content wide_tape = Inl length_error"
    by code_simp
  from nonblank_positions_wide_tape a b length_content_spec_wide_tape c show ?thesis
    by (simp only: simp_thms)
qed
section \<open>Properties of MultiTape\<close>

lemma MultiTape_wf_init: "MultiTape_init n b = Inr mt \<Longrightarrow> MultiTape_wf mt"
  by (auto simp: MultiTape_init_def MultiTape_wf_def split: if_splits)

lemma MultiTape_wf_init_word: "MultiTape_init_word n w b = Inr mt \<Longrightarrow> MultiTape_wf mt"
  by (auto simp: MultiTape_init_word_def MultiTape_wf_def split: if_splits)

lemma MultiTape_wf_write: "MultiTape_wf mt \<Longrightarrow> MultiTape_write i s mt = Inr mt' \<Longrightarrow> MultiTape_wf mt'"
  by (auto simp: MultiTape_write_def MultiTape_wf_def split: if_splits)

lemma MultiTape_wf_move: "MultiTape_wf mt \<Longrightarrow> MultiTape_move i mv mt = Inr mt' \<Longrightarrow> MultiTape_wf mt'"
  by (auto simp: MultiTape_move_def MultiTape_wf_def split: if_splits Movement.splits)

lemma MultiTape_wf_set_head_position:
  "MultiTape_wf mt \<Longrightarrow> MultiTape_set_head_position i p mt = Inr mt' \<Longrightarrow> MultiTape_wf mt'"
  by (auto simp: MultiTape_set_head_position_def MultiTape_wf_def split: if_splits)

lemma MultiTape_wf_reset: "MultiTape_wf mt \<Longrightarrow> MultiTape_wf (MultiTape_reset w mt)"
  by (auto simp: MultiTape_reset_def MultiTape_wf_def split: list.splits)

text \<open>
  Claim C9. On a MultiTape (the stored count being the size of the vector, as the
  constructors make it), each of read, write, move, get_head_position,
  set_head_position, get_tape_content and get_tape throws \<^verbatim>\<open>std::out_of_range\<close> when
  the index is not below the number of tapes, and touches no tape then; for an index
  below the number of tapes the index is inside the vector, the guard does not throw and
  the operation is the one of class Tape on that tape, the other tapes unchanged
  (\<^verbatim>\<open>get_tape_content\<close> returns what \<^verbatim>\<open>Tape::get_content\<close> returns on that tape, and
  throws what it throws).
\<close>

theorem multitape_index_guard:
  assumes "MultiTape_wf mt"
  shows "(num_tapes mt \<le> i \<longrightarrow>
            MultiTape_read mt i = Inl out_of_range
          \<and> MultiTape_write i s mt = Inl out_of_range
          \<and> MultiTape_move i mv mt = Inl out_of_range
          \<and> MultiTape_get_head_position mt i = Inl out_of_range
          \<and> MultiTape_set_head_position i p mt = Inl out_of_range
          \<and> MultiTape_get_tape_content mt i = Inl out_of_range
          \<and> MultiTape_get_tape mt i = Inl out_of_range)
       \<and> (i < num_tapes mt \<longrightarrow>
            i < length (tapes mt)
          \<and> MultiTape_read mt i = Inr (Tape_read (tapes mt ! i))
          \<and> MultiTape_write i s mt
              = Inr (mt\<lparr>tapes := (tapes mt)[i := Tape_write s (tapes mt ! i)]\<rparr>)
          \<and> MultiTape_move i mv mt
              = Inr (mt\<lparr>tapes := (tapes mt)[i := (case mv of LEFT \<Rightarrow> Tape_move_left (tapes mt ! i)
                                                   | RIGHT \<Rightarrow> Tape_move_right (tapes mt ! i)
                                                   | STAY \<Rightarrow> tapes mt ! i)]\<rparr>)
          \<and> MultiTape_get_head_position mt i = Inr (head_position (tapes mt ! i))
          \<and> MultiTape_set_head_position i p mt
              = Inr (mt\<lparr>tapes := (tapes mt)[i := Tape_set_head_position p (tapes mt ! i)]\<rparr>)
          \<and> MultiTape_get_tape_content mt i = Tape_get_content (tapes mt ! i)
          \<and> MultiTape_get_tape mt i = Inr (tapes mt ! i))"
proof -
  have len: "length (tapes mt) = num_tapes mt"
    using assms by (simp add: MultiTape_wf_def)
  have hi: "num_tapes mt \<le> i \<Longrightarrow> \<not> MultiTape_is_valid_tape_index mt i"
    by (simp add: MultiTape_is_valid_tape_index_def)
  have lo: "i < num_tapes mt \<Longrightarrow> MultiTape_is_valid_tape_index mt i"
    by (simp add: MultiTape_is_valid_tape_index_def)
  show ?thesis
  proof (intro conjI impI)
    assume "i < num_tapes mt"
    then show "MultiTape_move i mv mt
              = Inr (mt\<lparr>tapes := (tapes mt)[i := (case mv of LEFT \<Rightarrow> Tape_move_left (tapes mt ! i)
                                                   | RIGHT \<Rightarrow> Tape_move_right (tapes mt ! i)
                                                   | STAY \<Rightarrow> tapes mt ! i)]\<rparr>)"
      using lo by (cases mv) (simp_all add: MultiTape_move_def)
  qed (simp_all add: hi lo len MultiTape_read_def MultiTape_write_def MultiTape_move_def
      MultiTape_get_head_position_def MultiTape_set_head_position_def
      MultiTape_get_tape_content_def MultiTape_get_tape_def Tape_get_head_position_def)
qed

theorem multitape_index_guard_witness:
  "MultiTape_wf \<lparr>tapes = [Tape_init_word ''110'' CHR ''.'', Tape_init CHR ''.''], num_tapes = 2\<rparr>
   \<and> MultiTape_read \<lparr>tapes = [Tape_init_word ''110'' CHR ''.'', Tape_init CHR ''.''], num_tapes = 2\<rparr> 2
       = Inl out_of_range
   \<and> MultiTape_write 2 CHR ''X''
        \<lparr>tapes = [Tape_init_word ''110'' CHR ''.'', Tape_init CHR ''.''], num_tapes = 2\<rparr>
       = Inl out_of_range
   \<and> MultiTape_move 5 LEFT
        \<lparr>tapes = [Tape_init_word ''110'' CHR ''.'', Tape_init CHR ''.''], num_tapes = 2\<rparr>
       = Inl out_of_range
   \<and> MultiTape_read \<lparr>tapes = [Tape_init_word ''110'' CHR ''.'', Tape_init CHR ''.''], num_tapes = 2\<rparr> 0
       = Inr CHR ''1''
   \<and> MultiTape_write 1 CHR ''X''
        \<lparr>tapes = [Tape_init_word ''110'' CHR ''.'', Tape_init CHR ''.''], num_tapes = 2\<rparr>
       = Inr \<lparr>tapes = [Tape_init_word ''110'' CHR ''.'', Tape_write CHR ''X'' (Tape_init CHR ''.'')],
              num_tapes = 2\<rparr>"
proof -
  let ?mt = "\<lparr>tapes = [Tape_init_word ''110'' CHR ''.'', Tape_init CHR ''.''], num_tapes = 2\<rparr>"
  have wf: "MultiTape_wf ?mt"
    by (simp add: MultiTape_wf_def)
  have r: "Tape_read (Tape_init_word ''110'' CHR ''.'') = CHR ''1''"
    by code_simp
  from multitape_index_guard[OF wf, of 2 "CHR ''X''" LEFT 0]
    multitape_index_guard[OF wf, of 5 "CHR ''X''" LEFT 0]
    multitape_index_guard[OF wf, of 0 "CHR ''X''" LEFT 0]
    multitape_index_guard[OF wf, of 1 "CHR ''X''" LEFT 0] wf r
  show ?thesis by simp
qed

section \<open>Properties of the machine builders\<close>

lemma apply_builder_op_blank:
  assumes "machine_blank_symbol m \<in> tape_alphabet m"
  shows "machine_blank_symbol (snd (apply_builder_op op m))
           \<in> tape_alphabet (snd (apply_builder_op op m))"
  using assms
  by (cases op)
    (auto simp: TuringMachine_add_state_def TuringMachine_add_input_symbol_def
      TuringMachine_add_tape_symbol_def TuringMachine_set_initial_state_def
      TuringMachine_add_accept_state_def TuringMachine_set_blank_symbol_def
      TuringMachine_add_transition_def TuringMachine_clear_def Let_def)

lemma run_builder_ops_blank:
  "machine_blank_symbol m \<in> tape_alphabet m \<Longrightarrow>
   machine_blank_symbol (run_builder_ops ops m) \<in> tape_alphabet (run_builder_ops ops m)"
  unfolding run_builder_ops_def
  by (induction ops arbitrary: m) (simp_all add: apply_builder_op_blank)

lemma add_transition_symbols_blank:
  "multi_blank_symbol m \<in> multi_tape_alphabet m \<Longrightarrow>
   multi_blank_symbol (snd (add_transition_symbols is tr m))
     \<in> multi_tape_alphabet (snd (add_transition_symbols is tr m))"
  by (induction "is" arbitrary: m)
    (auto simp: MultiTuringMachine_add_tape_symbol_def split: sum.splits)

lemma MultiTuringMachine_add_state_blank:
  "multi_blank_symbol m \<in> multi_tape_alphabet m \<Longrightarrow>
   multi_blank_symbol (snd (MultiTuringMachine_add_state s m))
     \<in> multi_tape_alphabet (snd (MultiTuringMachine_add_state s m))"
  by (simp add: MultiTuringMachine_add_state_def)

lemma MultiTuringMachine_add_transition_blank:
  assumes "multi_blank_symbol m \<in> multi_tape_alphabet m"
  shows "multi_blank_symbol (snd (MultiTuringMachine_add_transition tr m))
           \<in> multi_tape_alphabet (snd (MultiTuringMachine_add_transition tr m))"
proof -
  let ?r1 = "MultiTuringMachine_add_state (multi_from_state tr) m"
  let ?r2 = "MultiTuringMachine_add_state (multi_to_state tr) (snd ?r1)"
  let ?r3 = "add_transition_symbols [0..<machine_num_tapes (snd ?r2)] tr (snd ?r2)"
  have b1: "multi_blank_symbol (snd ?r1) \<in> multi_tape_alphabet (snd ?r1)"
    by (rule MultiTuringMachine_add_state_blank[OF assms])
  have b2: "multi_blank_symbol (snd ?r2) \<in> multi_tape_alphabet (snd ?r2)"
    by (rule MultiTuringMachine_add_state_blank[OF b1])
  have b3: "multi_blank_symbol (snd ?r3) \<in> multi_tape_alphabet (snd ?r3)"
    by (rule add_transition_symbols_blank[OF b2])
  show ?thesis
    using assms b1 b2 b3
    by (auto simp: MultiTuringMachine_add_transition_def Let_def split: prod.splits option.splits)
qed

lemma apply_multi_builder_op_blank:
  assumes "multi_blank_symbol m \<in> multi_tape_alphabet m"
  shows "multi_blank_symbol (snd (apply_multi_builder_op op m))
           \<in> multi_tape_alphabet (snd (apply_multi_builder_op op m))"
proof (cases op)
  case (MAdd_transition tr)
  then show ?thesis
    using MultiTuringMachine_add_transition_blank[OF assms] by simp
qed (use assms in \<open>auto simp: MultiTuringMachine_add_state_def
      MultiTuringMachine_add_input_symbol_def MultiTuringMachine_add_tape_symbol_def
      MultiTuringMachine_set_initial_state_def MultiTuringMachine_add_accept_state_def
      MultiTuringMachine_set_blank_symbol_def MultiTuringMachine_set_num_tapes_def
      MultiTuringMachine_clear_def\<close>)

lemma run_multi_builder_ops_blank:
  "multi_blank_symbol m \<in> multi_tape_alphabet m \<Longrightarrow>
   multi_blank_symbol (run_multi_builder_ops ops m)
     \<in> multi_tape_alphabet (run_multi_builder_ops ops m)"
  unfolding run_multi_builder_ops_def
  by (induction ops arbitrary: m) (simp_all add: apply_multi_builder_op_blank)

text \<open>
  Claim C10. After the constructor and any sequence of builder calls (set_blank_symbol
  and clear among them, calls that throw included), the blank symbol of a TuringMachine
  is in its tape alphabet; and the same for a MultiTuringMachine, whose constructor
  throws on zero tapes and builds the object otherwise.
\<close>

theorem blank_always_in_tape_alphabet:
  "machine_blank_symbol (run_builder_ops ops (TuringMachine_init b))
     \<in> tape_alphabet (run_builder_ops ops (TuringMachine_init b))
   \<and> (MultiTuringMachine_init n b = Inr mm \<longrightarrow>
        multi_blank_symbol (run_multi_builder_ops mops mm)
          \<in> multi_tape_alphabet (run_multi_builder_ops mops mm))"
proof (intro conjI impI)
  show "machine_blank_symbol (run_builder_ops ops (TuringMachine_init b))
          \<in> tape_alphabet (run_builder_ops ops (TuringMachine_init b))"
    by (rule run_builder_ops_blank) (simp add: TuringMachine_init_def)
next
  assume "MultiTuringMachine_init n b = Inr mm"
  then have "multi_blank_symbol mm \<in> multi_tape_alphabet mm"
    by (auto simp: MultiTuringMachine_init_def split: if_splits)
  then show "multi_blank_symbol (run_multi_builder_ops mops mm)
               \<in> multi_tape_alphabet (run_multi_builder_ops mops mm)"
    by (rule run_multi_builder_ops_blank)
qed

theorem blank_always_in_tape_alphabet_witness:
  "machine_blank_symbol
     (run_builder_ops
        [Add_state ''q0'', Set_blank_symbol CHR ''B'', Clear, Set_blank_symbol CHR ''_'',
         Add_input_symbol CHR ''_'', Set_initial_state []]
        (TuringMachine_init CHR ''.''))
     \<in> tape_alphabet
         (run_builder_ops
            [Add_state ''q0'', Set_blank_symbol CHR ''B'', Clear, Set_blank_symbol CHR ''_'',
             Add_input_symbol CHR ''_'', Set_initial_state []]
            (TuringMachine_init CHR ''.''))
   \<and> MultiTuringMachine_init 2 CHR ''.''
       = Inr \<lparr>multi_states = {}, multi_input_alphabet = {}, multi_tape_alphabet = {CHR ''.''},
              multi_initial_state = [], multi_accept_states = {}, multi_blank_symbol = CHR ''.'',
              machine_num_tapes = 2, multi_transitions = []\<rparr>
   \<and> multi_blank_symbol
       (run_multi_builder_ops [MSet_blank_symbol CHR ''B'', MClear, MSet_num_tapes 0]
          \<lparr>multi_states = {}, multi_input_alphabet = {}, multi_tape_alphabet = {CHR ''.''},
           multi_initial_state = [], multi_accept_states = {}, multi_blank_symbol = CHR ''.'',
           machine_num_tapes = 2, multi_transitions = []\<rparr>)
       \<in> multi_tape_alphabet
           (run_multi_builder_ops [MSet_blank_symbol CHR ''B'', MClear, MSet_num_tapes 0]
              \<lparr>multi_states = {}, multi_input_alphabet = {}, multi_tape_alphabet = {CHR ''.''},
               multi_initial_state = [], multi_accept_states = {}, multi_blank_symbol = CHR ''.'',
               machine_num_tapes = 2, multi_transitions = []\<rparr>)"
proof -
  let ?mm = "\<lparr>multi_states = {}, multi_input_alphabet = {}, multi_tape_alphabet = {CHR ''.''},
              multi_initial_state = [], multi_accept_states = {}, multi_blank_symbol = CHR ''.'',
              machine_num_tapes = 2, multi_transitions = []\<rparr>"
  have h: "MultiTuringMachine_init 2 CHR ''.'' = Inr ?mm"
    by (simp add: MultiTuringMachine_init_def)
  from blank_always_in_tape_alphabet[of
      "[Add_state ''q0'', Set_blank_symbol CHR ''B'', Clear, Set_blank_symbol CHR ''_'',
        Add_input_symbol CHR ''_'', Set_initial_state []]"
      "CHR ''.''" 2 ?mm "[MSet_blank_symbol CHR ''B'', MClear, MSet_num_tapes 0]"] h
  show ?thesis by blast
qed

section \<open>Properties of the configuration fingerprint\<close>

subsection \<open>Decimal notation is injective and has no separator in it\<close>

lemma digit_char_cases: "d < 10 \<Longrightarrow> d \<in> {0,1,2,3,4,5,6,7,8,9::nat}"
  by auto

lemma digit_char_inj: "a < 10 \<Longrightarrow> b < 10 \<Longrightarrow> digit_char a = digit_char b \<Longrightarrow> a = b"
  using digit_char_cases[of a] digit_char_cases[of b]
  by (auto simp: digit_char_def)

lemma digit_char_not_sep: "d < 10 \<Longrightarrow> digit_char d \<notin> {CHR ''|'', CHR '','', CHR ''-''}"
  using digit_char_cases[of d] by (auto simp: digit_char_def)

lemma show_nat_nonempty: "show_nat n \<noteq> []"
  by (subst show_nat.simps) simp

lemma show_nat_chars: "c \<in> set (show_nat n) \<Longrightarrow> c \<notin> {CHR ''|'', CHR '','', CHR ''-''}"
proof (induction n rule: show_nat.induct)
  case (1 n)
  show ?case
  proof (cases "n < 10")
    case True
    with "1.prems" show ?thesis
      using digit_char_not_sep[of n] by (subst (asm) show_nat.simps) simp
  next
    case False
    with "1.prems" have "c \<in> set (show_nat (n div 10)) \<or> c = digit_char (n mod 10)"
      by (subst (asm) show_nat.simps) auto
    then show ?thesis
      using "1.IH"[OF False] digit_char_not_sep[of "n mod 10"] by auto
  qed
qed

lemma show_nat_inj: "show_nat n = show_nat m \<Longrightarrow> n = m"
proof (induction n arbitrary: m rule: show_nat.induct)
  case (1 n)
  show ?case
  proof (cases "n < 10")
    case n: True
    show ?thesis
    proof (cases "m < 10")
      case True
      with n "1.prems" show ?thesis
        using digit_char_inj[of n m] by (simp add: show_nat.simps[of n] show_nat.simps[of m])
    next
      case False
      with n "1.prems" show_nat_nonempty[of "m div 10"] show ?thesis
        by (simp add: show_nat.simps[of n] show_nat.simps[of m])
    qed
  next
    case n: False
    show ?thesis
    proof (cases "m < 10")
      case True
      with n "1.prems" show_nat_nonempty[of "n div 10"] show ?thesis
        by (simp add: show_nat.simps[of n] show_nat.simps[of m])
    next
      case False
      with n "1.prems" have e: "show_nat (n div 10) = show_nat (m div 10)"
        and d: "digit_char (n mod 10) = digit_char (m mod 10)"
        by (simp_all add: show_nat.simps[of n] show_nat.simps[of m])
      from "1.IH"[OF n e] have "n div 10 = m div 10" .
      moreover from d have "n mod 10 = m mod 10"
        using digit_char_inj[of "n mod 10" "m mod 10"] by simp
      ultimately show ?thesis
        by (metis div_mult_mod_eq)
    qed
  qed
qed

lemma show_int_inj: "show_int i = show_int j \<Longrightarrow> i = j"
proof -
  assume a: "show_int i = show_int j"
  have hd_nat: "\<And>n. hd (show_nat n) \<noteq> CHR ''-''"
    using show_nat_chars show_nat_nonempty by (metis hd_in_set insertCI)
  have ne: "\<And>n. show_nat n \<noteq> CHR ''-'' # show_nat m" for m
    using hd_nat by (metis list.sel(1))
  show ?thesis
  proof (cases "i < 0")
    case i: True
    show ?thesis
    proof (cases "j < 0")
      case True
      with i a have "nat (- i) = nat (- j)" by (auto simp: show_int_def dest: show_nat_inj)
      with i True show ?thesis by simp
    next
      case False
      with i a ne[of "nat j" "nat (- i)"] show ?thesis by (auto simp: show_int_def)
    qed
  next
    case i: False
    show ?thesis
    proof (cases "j < 0")
      case True
      with i a ne[of "nat i" "nat (- j)"] show ?thesis by (auto simp: show_int_def)
    next
      case False
      with i a have "nat i = nat j" by (auto simp: show_int_def dest: show_nat_inj)
      with i False show ?thesis by simp
    qed
  qed
qed

lemma show_int_chars: "c \<in> set (show_int i) \<Longrightarrow> c \<noteq> CHR ''|'' \<and> c \<noteq> CHR '',''"
  using show_nat_chars by (auto simp: show_int_def split: if_splits)

lemma show_int_nonempty: "show_int i \<noteq> []"
  by (simp add: show_int_def show_nat_nonempty)


subsection \<open>Splitting a fingerprint at its separators\<close>

lemma split_at_sep:
  "c \<notin> set a \<Longrightarrow> c \<notin> set a' \<Longrightarrow> a @ c # b = a' @ c # b' \<Longrightarrow> a = a' \<and> b = b'"
proof (induction a arbitrary: a')
  case Nil
  then show ?case by (cases a') auto
next
  case (Cons x a)
  then show ?case by (cases a') auto
qed

lemma Tape_get_content_Inl: "Tape_get_content t = Inl e \<Longrightarrow> e = length_error"
  by (auto simp: Tape_get_content_def Let_def split: if_splits)

lemma mono_fingerprint_Inr:
  "Configuration_to_compact_string c = Inr f \<longleftrightarrow>
   (\<exists>x. Tape_get_content (tape c) = Inr x
        \<and> f = current_state c @ CHR ''|'' # (show_int (head_position (tape c)) @ CHR ''|'' # x))"
  by (auto simp: Configuration_to_compact_string_def Tape_get_head_position_def split: sum.splits)

lemma mono_fingerprint_inj:
  assumes "CHR ''|'' \<notin> set (current_state c1)" "CHR ''|'' \<notin> set (current_state c2)"
    and "Configuration_to_compact_string c1 = Inr f"
    and "Configuration_to_compact_string c2 = Inr f"
  shows "current_state c1 = current_state c2
       \<and> head_position (tape c1) = head_position (tape c2)
       \<and> Tape_get_content (tape c1) = Tape_get_content (tape c2)"
proof -
  let ?h1 = "show_int (head_position (tape c1))" and ?h2 = "show_int (head_position (tape c2))"
  from assms(3) obtain x1 where x1: "Tape_get_content (tape c1) = Inr x1"
    and f1: "f = current_state c1 @ CHR ''|'' # (?h1 @ CHR ''|'' # x1)"
    by (auto simp: mono_fingerprint_Inr)
  from assms(4) obtain x2 where x2: "Tape_get_content (tape c2) = Inr x2"
    and f2: "f = current_state c2 @ CHR ''|'' # (?h2 @ CHR ''|'' # x2)"
    by (auto simp: mono_fingerprint_Inr)
  from f1 f2 have e: "current_state c1 @ CHR ''|'' # (?h1 @ CHR ''|'' # x1)
      = current_state c2 @ CHR ''|'' # (?h2 @ CHR ''|'' # x2)"
    by simp
  from split_at_sep[OF assms(1,2) e]
  have s: "current_state c1 = current_state c2"
    and r: "?h1 @ CHR ''|'' # x1 = ?h2 @ CHR ''|'' # x2"
    by simp_all
  have "CHR ''|'' \<notin> set ?h1" "CHR ''|'' \<notin> set ?h2"
    using show_int_chars by blast+
  from split_at_sep[OF this r] s x1 x2 show ?thesis
    by (auto dest: show_int_inj)
qed

lemma join_with_hd_tl:
  "xs \<noteq> [] \<Longrightarrow> join_with s xs = hd xs @ concat (map (\<lambda>y. s # y) (tl xs))"
  by (induction s xs rule: join_with.induct) auto

lemma join_with_butlast_last:
  "xs \<noteq> [] \<Longrightarrow> join_with s xs = concat (map (\<lambda>y. y @ [s]) (butlast xs)) @ last xs"
  by (induction s xs rule: join_with.induct) auto

lemma join_with_inj:
  "xs \<noteq> [] \<Longrightarrow> ys \<noteq> [] \<Longrightarrow> \<forall>x \<in> set xs. s \<notin> set x \<Longrightarrow> \<forall>y \<in> set ys. s \<notin> set y \<Longrightarrow>
   join_with s xs = join_with s ys \<Longrightarrow> xs = ys"
proof (induction s xs arbitrary: ys rule: join_with.induct)
  case (1 s)
  then show ?case by simp
next
  case (2 s x)
  then obtain y ys' where ys: "ys = y # ys'" by (cases ys) auto
  show ?case
  proof (cases ys')
    case Nil
    with 2 ys show ?thesis by simp
  next
    case (Cons y' zs)
    with 2 ys have "x = y @ s # join_with s (y' # zs)" by simp
    then have "s \<in> set x" by simp
    with 2 show ?thesis by simp
  qed
next
  case (3 s x x' xs)
  then obtain y ys' where ys: "ys = y # ys'" by (cases ys) auto
  show ?case
  proof (cases ys')
    case Nil
    with 3 ys have "y = x @ s # join_with s (x' # xs)" by simp
    then have "s \<in> set y" by simp
    with 3 ys show ?thesis by simp
  next
    case (Cons y' zs)
    with 3 ys have e: "x @ s # join_with s (x' # xs) = y @ s # join_with s (y' # zs)" by simp
    have "s \<notin> set x" "s \<notin> set y" using 3 ys by auto
    from split_at_sep[OF this e] have xy: "x = y" and j: "join_with s (x' # xs) = join_with s (y' # zs)"
      by simp_all
    have "x' # xs = y' # zs"
      by (rule "3.IH") (use 3 ys Cons j in auto)
    with xy ys Cons show ?thesis by simp
  qed
qed

lemma heads_string_concat:
  "\<forall>i \<in> set is. i < num_tapes mt \<Longrightarrow>
   heads_string is mt
     = Inr (concat (map (\<lambda>i. (if 0 < i then '','' else []) @ show_int (head_position (tapes mt ! i))) is))"
proof (induction "is")
  case Nil
  show ?case by simp
next
  case (Cons i "is")
  then have i: "MultiTape_get_head_position mt i = Inr (head_position (tapes mt ! i))"
    by (simp add: MultiTape_get_head_position_def MultiTape_is_valid_tape_index_def
      Tape_get_head_position_def)
  from Cons have "heads_string is mt
     = Inr (concat (map (\<lambda>i. (if 0 < i then '','' else []) @ show_int (head_position (tapes mt ! i))) is))"
    by simp
  with i show ?case by simp
qed


lemma contents_string_concat:
  "\<forall>i \<in> set is. i < num_tapes mt \<and> (\<exists>c. Tape_get_content (tapes mt ! i) = Inr c) \<Longrightarrow>
   contents_string is mt
     = Inr (concat (map (\<lambda>i. projr (Tape_get_content (tapes mt ! i))
                           @ (if i < num_tapes mt - 1 then ''|'' else [])) is))"
proof (induction "is")
  case Nil
  show ?case by simp
next
  case (Cons i "is")
  then obtain c where c: "Tape_get_content (tapes mt ! i) = Inr c" by auto
  with Cons.prems have i: "MultiTape_get_tape_content mt i = Inr c"
    by (simp add: MultiTape_get_tape_content_def MultiTape_is_valid_tape_index_def)
  from Cons have "contents_string is mt
     = Inr (concat (map (\<lambda>i. projr (Tape_get_content (tapes mt ! i))
                           @ (if i < num_tapes mt - 1 then ''|'' else [])) is))"
    by simp
  with i c show ?case by (simp add: MultiTape_get_num_tapes_def)
qed

lemma contents_string_Inr:
  "contents_string is mt = Inr x \<Longrightarrow> i \<in> set is \<Longrightarrow> i < num_tapes mt \<Longrightarrow>
   \<exists>c. Tape_get_content (tapes mt ! i) = Inr c"
proof (induction "is" arbitrary: x)
  case Nil
  then show ?case by simp
next
  case (Cons j "is")
  from Cons.prems(1) obtain c rest where c: "MultiTape_get_tape_content mt j = Inr c"
    and rest: "contents_string is mt = Inr rest"
    by (auto split: sum.splits)
  show ?case
  proof (cases "i = j")
    case True
    with c Cons.prems(3) show ?thesis
      by (auto simp: MultiTape_get_tape_content_def MultiTape_is_valid_tape_index_def
          split: if_splits)
  next
    case False
    with Cons.prems(2) have "i \<in> set is" by simp
    from Cons.IH[OF rest this Cons.prems(3)] show ?thesis .
  qed
qed

lemma contents_string_Inl:
  "contents_string is mt = Inl e \<Longrightarrow> \<forall>i \<in> set is. i < num_tapes mt \<Longrightarrow> e = length_error"
proof (induction "is")
  case Nil
  then show ?case by simp
next
  case (Cons j "is")
  then show ?case
    by (auto simp: MultiTape_get_tape_content_def MultiTape_is_valid_tape_index_def
        split: sum.splits if_splits dest: Tape_get_content_Inl)
qed

lemma heads_string_cong:
  "\<forall>i \<in> set is. MultiTape_get_head_position mt i = MultiTape_get_head_position mt' i \<Longrightarrow>
   heads_string is mt = heads_string is mt'"
  by (induction "is") (simp_all cong: sum.case_cong)

lemma contents_string_cong:
  "num_tapes mt = num_tapes mt' \<Longrightarrow>
   \<forall>i \<in> set is. MultiTape_get_tape_content mt i = MultiTape_get_tape_content mt' i \<Longrightarrow>
   contents_string is mt = contents_string is mt'"
  by (induction "is") (simp_all add: MultiTape_get_num_tapes_def cong: sum.case_cong)

lemma join_with_snoc:
  "join_with s (xs @ [x]) = (if xs = [] then x else join_with s xs @ s # x)"
  by (induction s xs rule: join_with.induct) simp_all

lemma concat_sep_before:
  "concat (map (\<lambda>i. (if 0 < i then [s] else []) @ f i) [0..<Suc k]) = join_with s (map f [0..<Suc k])"
proof (induction k)
  case 0
  show ?case by simp
next
  case (Suc k)
  have "concat (map (\<lambda>i. (if 0 < i then [s] else []) @ f i) [0..<Suc (Suc k)])
        = concat (map (\<lambda>i. (if 0 < i then [s] else []) @ f i) [0..<Suc k]) @ s # f (Suc k)"
    by simp
  also have "\<dots> = join_with s (map f [0..<Suc k]) @ s # f (Suc k)"
    by (simp only: Suc.IH)
  also have "\<dots> = join_with s (map f [0..<Suc k] @ [f (Suc k)])"
  proof -
    have "map f [0..<Suc k] \<noteq> []" by simp
    then show ?thesis by (simp only: join_with_snoc if_False)
  qed
  also have "\<dots> = join_with s (map f [0..<Suc (Suc k)])"
    by simp
  finally show ?case .
qed

lemma concat_sep_after:
  "concat (map (\<lambda>i. f i @ (if i < k then [s] else [])) [0..<Suc k]) = join_with s (map f [0..<Suc k])"
proof -
  have a: "map (\<lambda>i. f i @ (if i < k then [s] else [])) [0..<k] = map (\<lambda>i. f i @ [s]) [0..<k]"
    by (rule map_cong) simp_all
  have "concat (map (\<lambda>i. f i @ (if i < k then [s] else [])) [0..<Suc k])
      = concat (map (\<lambda>i. f i @ (if i < k then [s] else [])) [0..<k]) @ f k"
    by simp
  also have "\<dots> = concat (map (\<lambda>i. f i @ [s]) [0..<k]) @ f k"
    by (simp only: a)
  also have "\<dots> = concat (map (\<lambda>y. y @ [s]) (map f [0..<k])) @ f k"
    by (simp add: comp_def)
  also have "\<dots> = join_with s (map f [0..<k] @ [f k])"
    by (simp add: join_with_butlast_last)
  finally show ?thesis by simp
qed

lemma multi_fingerprint_eq:
  assumes "MultiTape_wf (multi_tapes cfg)"
    and "\<forall>t \<in> set (tapes (multi_tapes cfg)). \<exists>c. Tape_get_content t = Inr c"
  shows "MultiConfiguration_to_compact_string cfg
         = Inr (multi_current_state cfg @ CHR ''|''
                # join_with CHR '','' (map (\<lambda>t. show_int (head_position t)) (tapes (multi_tapes cfg)))
                @ CHR ''|'' # join_with CHR ''|''
                    (map (\<lambda>t. projr (Tape_get_content t)) (tapes (multi_tapes cfg))))"
proof -
  let ?mt = "multi_tapes cfg"
  let ?n = "num_tapes ?mt"
  have len: "length (tapes ?mt) = ?n" and pos: "0 < ?n"
    using assms by (simp_all add: MultiTape_wf_def)
  obtain k where k: "?n = Suc k" using pos by (cases ?n) auto
  have r: "\<forall>i \<in> set [0..<?n]. i < ?n" by simp
  have rc: "\<forall>i \<in> set [0..<?n]. i < ?n \<and> (\<exists>c. Tape_get_content (tapes ?mt ! i) = Inr c)"
    using assms(2) len by simp
  have m: "map (\<lambda>i. g (tapes ?mt ! i)) [0..<?n] = map g (tapes ?mt)" for g :: "Tape \<Rightarrow> string"
    unfolding len[symmetric] by (rule nth_equalityI) simp_all
  have "heads_string [0..<?n] ?mt
        = Inr (concat (map (\<lambda>i. (if 0 < i then '','' else []) @ show_int (head_position (tapes ?mt ! i)))
               [0..<Suc k]))"
    using heads_string_concat[OF r] by (simp only: k)
  also have "\<dots> = Inr (join_with CHR '','' (map (\<lambda>i. show_int (head_position (tapes ?mt ! i))) [0..<Suc k]))"
    by (simp only: concat_sep_before)
  also have "\<dots> = Inr (join_with CHR '','' (map (\<lambda>t. show_int (head_position t)) (tapes ?mt)))"
    using m[of "\<lambda>t. show_int (head_position t)"] by (simp only: k)
  finally have h: "heads_string [0..<?n] ?mt
        = Inr (join_with CHR '','' (map (\<lambda>t. show_int (head_position t)) (tapes ?mt)))" .
  have "contents_string [0..<?n] ?mt
        = Inr (concat (map (\<lambda>i. projr (Tape_get_content (tapes ?mt ! i)) @ (if i < k then ''|'' else []))
               [0..<Suc k]))"
    using contents_string_concat[OF rc] by (simp add: k)
  also have "\<dots> = Inr (join_with CHR ''|''
                        (map (\<lambda>i. projr (Tape_get_content (tapes ?mt ! i))) [0..<Suc k]))"
    by (simp only: concat_sep_after)
  also have "\<dots> = Inr (join_with CHR ''|'' (map (\<lambda>t. projr (Tape_get_content t)) (tapes ?mt)))"
    using m[of "\<lambda>t. projr (Tape_get_content t)"] by (simp only: k)
  finally have c: "contents_string [0..<?n] ?mt
        = Inr (join_with CHR ''|'' (map (\<lambda>t. projr (Tape_get_content t)) (tapes ?mt)))" .
  show ?thesis
    by (simp add: MultiConfiguration_to_compact_string_def MultiTape_get_num_tapes_def h c)
qed

lemma multi_fingerprint_Inr_contents:
  assumes "MultiTape_wf (multi_tapes cfg)"
    and "MultiConfiguration_to_compact_string cfg = Inr f"
  shows "\<forall>t \<in> set (tapes (multi_tapes cfg)). \<exists>c. Tape_get_content t = Inr c"
proof
  fix t assume "t \<in> set (tapes (multi_tapes cfg))"
  then obtain i where i: "i < length (tapes (multi_tapes cfg))" and t: "t = tapes (multi_tapes cfg) ! i"
    by (auto simp: in_set_conv_nth)
  have len: "length (tapes (multi_tapes cfg)) = num_tapes (multi_tapes cfg)"
    using assms(1) by (simp add: MultiTape_wf_def)
  from assms(2) obtain x where
    "contents_string [0..<num_tapes (multi_tapes cfg)] (multi_tapes cfg) = Inr x"
    by (auto simp: MultiConfiguration_to_compact_string_def MultiTape_get_num_tapes_def
        split: sum.splits)
  from contents_string_Inr[OF this, of i] i len t show "\<exists>c. Tape_get_content t = Inr c"
    by simp
qed

lemma multi_fingerprint_Inl:
  assumes "MultiTape_wf (multi_tapes cfg)"
    and "MultiConfiguration_to_compact_string cfg = Inl e"
  shows "e = length_error"
proof -
  let ?mt = "multi_tapes cfg"
  have r: "\<forall>i \<in> set [0..<num_tapes ?mt]. i < num_tapes ?mt" by simp
  from heads_string_concat[OF r] obtain hs where
    h: "heads_string [0..<num_tapes ?mt] ?mt = Inr hs"
    by blast
  from assms(2) h have "contents_string [0..<num_tapes ?mt] ?mt = Inl e"
    by (auto simp: MultiConfiguration_to_compact_string_def MultiTape_get_num_tapes_def
        split: sum.splits)
  from contents_string_Inl[OF this r] show ?thesis .
qed

lemma join_with_chars: "c \<in> set (join_with s xs) \<Longrightarrow> c = s \<or> (\<exists>x \<in> set xs. c \<in> set x)"
  by (induction s xs rule: join_with.induct) auto

lemma map_projr_eq:
  assumes "\<forall>x \<in> set xs. \<exists>c. g x = Inr c" and "\<forall>y \<in> set ys. \<exists>c. g y = Inr c"
    and "map (\<lambda>x. projr (g x)) xs = map (\<lambda>y. projr (g y)) ys"
  shows "map g xs = map g ys"
proof -
  have len: "length xs = length ys"
    using assms(3) by (rule map_eq_imp_length_eq)
  show ?thesis
  proof (rule nth_equalityI)
    show "length (map g xs) = length (map g ys)" using len by simp
  next
    fix i assume "i < length (map g xs)"
    then have i: "i < length xs" "i < length ys" using len by simp_all
    from assms(3) have "map (\<lambda>x. projr (g x)) xs ! i = map (\<lambda>y. projr (g y)) ys ! i"
      by simp
    with i have p: "projr (g (xs ! i)) = projr (g (ys ! i))" by simp
    from assms(1) i obtain c where c: "g (xs ! i) = Inr c" by (meson nth_mem)
    from assms(2) i obtain d where d: "g (ys ! i) = Inr d" by (meson nth_mem)
    from p c d i show "map g xs ! i = map g ys ! i" by simp
  qed
qed

lemma multi_fingerprint_inj:
  assumes wf: "MultiTape_wf (multi_tapes m1)" "MultiTape_wf (multi_tapes m2)"
    and st: "CHR ''|'' \<notin> set (multi_current_state m1)" "CHR ''|'' \<notin> set (multi_current_state m2)"
    and ct: "\<forall>t \<in> set (tapes (multi_tapes m1)) \<union> set (tapes (multi_tapes m2)).
               \<forall>c. Tape_get_content t = Inr c \<longrightarrow> CHR ''|'' \<notin> set c"
    and eq: "MultiConfiguration_to_compact_string m1 = Inr f"
      "MultiConfiguration_to_compact_string m2 = Inr f"
  shows "multi_current_state m1 = multi_current_state m2
       \<and> map head_position (tapes (multi_tapes m1)) = map head_position (tapes (multi_tapes m2))
       \<and> map Tape_get_content (tapes (multi_tapes m1)) = map Tape_get_content (tapes (multi_tapes m2))"
proof -
  let ?t1 = "tapes (multi_tapes m1)" and ?t2 = "tapes (multi_tapes m2)"
  let ?H1 = "map (\<lambda>t. show_int (head_position t)) ?t1"
  let ?H2 = "map (\<lambda>t. show_int (head_position t)) ?t2"
  let ?C1 = "map (\<lambda>t. projr (Tape_get_content t)) ?t1"
  let ?C2 = "map (\<lambda>t. projr (Tape_get_content t)) ?t2"
  have ne: "?t1 \<noteq> []" "?t2 \<noteq> []"
    using wf by (auto simp: MultiTape_wf_def)
  note ok1 = multi_fingerprint_Inr_contents[OF wf(1) eq(1)]
  note ok2 = multi_fingerprint_Inr_contents[OF wf(2) eq(2)]
  from eq have e: "multi_current_state m1 @ CHR ''|'' # (join_with CHR '','' ?H1 @ CHR ''|'' # join_with CHR ''|'' ?C1)
      = multi_current_state m2 @ CHR ''|'' # (join_with CHR '','' ?H2 @ CHR ''|'' # join_with CHR ''|'' ?C2)"
    by (simp add: multi_fingerprint_eq[OF wf(1) ok1] multi_fingerprint_eq[OF wf(2) ok2])
  from split_at_sep[OF st e]
  have s: "multi_current_state m1 = multi_current_state m2"
    and r: "join_with CHR '','' ?H1 @ CHR ''|'' # join_with CHR ''|'' ?C1
          = join_with CHR '','' ?H2 @ CHR ''|'' # join_with CHR ''|'' ?C2"
    by simp_all
  have nb: "CHR ''|'' \<notin> set (join_with CHR '','' ?H1)" "CHR ''|'' \<notin> set (join_with CHR '','' ?H2)"
    using join_with_chars[of "CHR ''|''" "CHR '',''"] show_int_chars by fastforce+
  from split_at_sep[OF nb r]
  have h: "join_with CHR '','' ?H1 = join_with CHR '','' ?H2"
    and c: "join_with CHR ''|'' ?C1 = join_with CHR ''|'' ?C2"
    by simp_all
  have "?H1 = ?H2"
    by (rule join_with_inj[OF _ _ _ _ h]) (use ne show_int_chars in auto)
  then have "map show_int (map head_position ?t1) = map show_int (map head_position ?t2)"
    by (simp add: comp_def)
  moreover have "inj show_int"
    by (rule injI) (rule show_int_inj)
  ultimately have hp: "map head_position ?t1 = map head_position ?t2"
    by (simp only: inj_map_eq_map)
  have nb1: "\<forall>x \<in> set ?C1. CHR ''|'' \<notin> set x"
  proof
    fix x assume "x \<in> set ?C1"
    then obtain t where t: "t \<in> set ?t1" and x: "x = projr (Tape_get_content t)" by auto
    from ok1 t obtain c where "Tape_get_content t = Inr c" by blast
    with ct t x show "CHR ''|'' \<notin> set x" by auto
  qed
  have nb2: "\<forall>x \<in> set ?C2. CHR ''|'' \<notin> set x"
  proof
    fix x assume "x \<in> set ?C2"
    then obtain t where t: "t \<in> set ?t2" and x: "x = projr (Tape_get_content t)" by auto
    from ok2 t obtain c where "Tape_get_content t = Inr c" by blast
    with ct t x show "CHR ''|'' \<notin> set x" by auto
  qed
  have "?C1 = ?C2"
    by (rule join_with_inj[OF _ _ nb1 nb2 c]) (use ne in auto)
  from map_projr_eq[OF ok1 ok2 this] s hp show ?thesis by simp
qed

lemma multi_fingerprint_cong:
  assumes wf: "MultiTape_wf (multi_tapes m1)" "MultiTape_wf (multi_tapes m2)"
    and s: "multi_current_state m1 = multi_current_state m2"
    and h: "map head_position (tapes (multi_tapes m1)) = map head_position (tapes (multi_tapes m2))"
    and c: "map Tape_get_content (tapes (multi_tapes m1)) = map Tape_get_content (tapes (multi_tapes m2))"
  shows "MultiConfiguration_to_compact_string m1 = MultiConfiguration_to_compact_string m2"
proof -
  let ?a = "multi_tapes m1" and ?b = "multi_tapes m2"
  have len: "length (tapes ?a) = num_tapes ?a" "length (tapes ?b) = num_tapes ?b"
    using wf by (simp_all add: MultiTape_wf_def)
  from h have "length (tapes ?a) = length (tapes ?b)"
    by (rule map_eq_imp_length_eq)
  with len have n: "num_tapes ?a = num_tapes ?b" by simp
  have hi: "head_position (tapes ?a ! i) = head_position (tapes ?b ! i)" if "i < num_tapes ?a" for i
  proof -
    from h have "map head_position (tapes ?a) ! i = map head_position (tapes ?b) ! i" by simp
    with that len n show ?thesis by simp
  qed
  have ci: "Tape_get_content (tapes ?a ! i) = Tape_get_content (tapes ?b ! i)"
    if "i < num_tapes ?a" for i
  proof -
    from c have "map Tape_get_content (tapes ?a) ! i = map Tape_get_content (tapes ?b) ! i" by simp
    with that len n show ?thesis by simp
  qed
  have hs: "heads_string [0..<num_tapes ?a] ?a = heads_string [0..<num_tapes ?a] ?b"
    by (rule heads_string_cong)
      (simp add: MultiTape_get_head_position_def MultiTape_is_valid_tape_index_def n[symmetric]
        Tape_get_head_position_def hi)
  have cs: "contents_string [0..<num_tapes ?a] ?a = contents_string [0..<num_tapes ?a] ?b"
    by (rule contents_string_cong[OF n])
      (simp add: MultiTape_get_tape_content_def MultiTape_is_valid_tape_index_def n[symmetric] ci)
  show ?thesis
    by (simp add: MultiConfiguration_to_compact_string_def MultiTape_get_num_tapes_def
        n[symmetric] hs cs s cong: sum.case_cong)
qed

text \<open>
  What holds of the fingerprint. Two configurations with the same state, head position(s)
  and tape content(s) have the same fingerprint (or throw the same exception). Two
  configurations that have one and the same fingerprint have the same state, head
  position(s) and tape content(s) provided no bar occurs in their state names and, for
  multi-tape configurations, in their tape contents (the bar is the separator of the
  fingerprint; head positions are unambiguous decimal numbers). On a MultiTape the
  checked accessors do not throw: the fingerprint is produced whenever the content of
  every tape is, and the only exception is that of \<^verbatim>\<open>Tape::get_content\<close>.
\<close>

lemma fingerprint_equivalence:
  "(current_state c1 = current_state c2
      \<and> head_position (tape c1) = head_position (tape c2)
      \<and> Tape_get_content (tape c1) = Tape_get_content (tape c2)
      \<longrightarrow> Configuration_to_compact_string c1 = Configuration_to_compact_string c2)
   \<and> (CHR ''|'' \<notin> set (current_state c1) \<and> CHR ''|'' \<notin> set (current_state c2)
      \<and> Configuration_to_compact_string c1 = Inr f
      \<and> Configuration_to_compact_string c2 = Inr f
      \<longrightarrow> current_state c1 = current_state c2
        \<and> head_position (tape c1) = head_position (tape c2)
        \<and> Tape_get_content (tape c1) = Tape_get_content (tape c2))
   \<and> (MultiTape_wf (multi_tapes m1) \<and> MultiTape_wf (multi_tapes m2) \<longrightarrow>
        ((\<forall>t \<in> set (tapes (multi_tapes m1)). \<exists>c. Tape_get_content t = Inr c)
           \<longrightarrow> (\<exists>s. MultiConfiguration_to_compact_string m1 = Inr s))
      \<and> (\<forall>e. MultiConfiguration_to_compact_string m1 = Inl e \<longrightarrow> e = length_error)
      \<and> (multi_current_state m1 = multi_current_state m2
          \<and> map head_position (tapes (multi_tapes m1)) = map head_position (tapes (multi_tapes m2))
          \<and> map Tape_get_content (tapes (multi_tapes m1))
              = map Tape_get_content (tapes (multi_tapes m2))
          \<longrightarrow> MultiConfiguration_to_compact_string m1 = MultiConfiguration_to_compact_string m2)
      \<and> (CHR ''|'' \<notin> set (multi_current_state m1) \<and> CHR ''|'' \<notin> set (multi_current_state m2)
          \<and> (\<forall>t \<in> set (tapes (multi_tapes m1)) \<union> set (tapes (multi_tapes m2)).
                \<forall>c. Tape_get_content t = Inr c \<longrightarrow> CHR ''|'' \<notin> set c)
          \<and> MultiConfiguration_to_compact_string m1 = Inr mf
          \<and> MultiConfiguration_to_compact_string m2 = Inr mf
          \<longrightarrow> multi_current_state m1 = multi_current_state m2
            \<and> map head_position (tapes (multi_tapes m1)) = map head_position (tapes (multi_tapes m2))
            \<and> map Tape_get_content (tapes (multi_tapes m1))
                = map Tape_get_content (tapes (multi_tapes m2))))"
proof (intro conjI impI allI)
  assume "current_state c1 = current_state c2
      \<and> head_position (tape c1) = head_position (tape c2)
      \<and> Tape_get_content (tape c1) = Tape_get_content (tape c2)"
  then show "Configuration_to_compact_string c1 = Configuration_to_compact_string c2"
    by (simp add: Configuration_to_compact_string_def Tape_get_head_position_def
        cong: sum.case_cong)
next
  assume a: "CHR ''|'' \<notin> set (current_state c1) \<and> CHR ''|'' \<notin> set (current_state c2)
      \<and> Configuration_to_compact_string c1 = Inr f
      \<and> Configuration_to_compact_string c2 = Inr f"
  with mono_fingerprint_inj[of c1 c2 f]
  show "current_state c1 = current_state c2" "head_position (tape c1) = head_position (tape c2)"
    "Tape_get_content (tape c1) = Tape_get_content (tape c2)"
    by simp_all
next
  assume "MultiTape_wf (multi_tapes m1) \<and> MultiTape_wf (multi_tapes m2)"
    and "\<forall>t \<in> set (tapes (multi_tapes m1)). \<exists>c. Tape_get_content t = Inr c"
  then show "\<exists>s. MultiConfiguration_to_compact_string m1 = Inr s"
    by (simp add: multi_fingerprint_eq)
next
  fix e
  assume "MultiTape_wf (multi_tapes m1) \<and> MultiTape_wf (multi_tapes m2)"
    and "MultiConfiguration_to_compact_string m1 = Inl e"
  then show "e = length_error"
    using multi_fingerprint_Inl[of m1 e] by simp
next
  assume "MultiTape_wf (multi_tapes m1) \<and> MultiTape_wf (multi_tapes m2)"
    and "multi_current_state m1 = multi_current_state m2
          \<and> map head_position (tapes (multi_tapes m1)) = map head_position (tapes (multi_tapes m2))
          \<and> map Tape_get_content (tapes (multi_tapes m1))
              = map Tape_get_content (tapes (multi_tapes m2))"
  then show "MultiConfiguration_to_compact_string m1 = MultiConfiguration_to_compact_string m2"
    using multi_fingerprint_cong[of m1 m2] by simp
next
  assume wf: "MultiTape_wf (multi_tapes m1) \<and> MultiTape_wf (multi_tapes m2)"
    and a: "CHR ''|'' \<notin> set (multi_current_state m1) \<and> CHR ''|'' \<notin> set (multi_current_state m2)
          \<and> (\<forall>t \<in> set (tapes (multi_tapes m1)) \<union> set (tapes (multi_tapes m2)).
                \<forall>c. Tape_get_content t = Inr c \<longrightarrow> CHR ''|'' \<notin> set c)
          \<and> MultiConfiguration_to_compact_string m1 = Inr mf
          \<and> MultiConfiguration_to_compact_string m2 = Inr mf"
  have r: "multi_current_state m1 = multi_current_state m2
       \<and> map head_position (tapes (multi_tapes m1)) = map head_position (tapes (multi_tapes m2))
       \<and> map Tape_get_content (tapes (multi_tapes m1)) = map Tape_get_content (tapes (multi_tapes m2))"
    by (rule multi_fingerprint_inj[where f = mf]) (use wf a in simp_all)
  from r show "multi_current_state m1 = multi_current_state m2" by simp
  from r show "map head_position (tapes (multi_tapes m1)) = map head_position (tapes (multi_tapes m2))"
    by simp
  from r show "map Tape_get_content (tapes (multi_tapes m1))
                = map Tape_get_content (tapes (multi_tapes m2))" by simp
qed

lemma fingerprint_equivalence_example:
  "Configuration_to_compact_string fp_example_c1 = Configuration_to_compact_string fp_example_c2
   \<and> Configuration_to_compact_string fp_example_c1 = Inr ''q0|0|ab''
   \<and> current_state fp_example_c1 = current_state fp_example_c2
   \<and> head_position (tape fp_example_c1) = head_position (tape fp_example_c2)
   \<and> Tape_get_content (tape fp_example_c1) = Tape_get_content (tape fp_example_c2)
   \<and> MultiTape_wf (multi_tapes fp_example_m1) \<and> MultiTape_wf (multi_tapes fp_example_m2)
   \<and> MultiConfiguration_to_compact_string fp_example_m1
       = MultiConfiguration_to_compact_string fp_example_m2
   \<and> MultiConfiguration_to_compact_string fp_example_m1 = Inr ''q0|0,-1|ab|''
   \<and> map head_position (tapes (multi_tapes fp_example_m1))
       = map head_position (tapes (multi_tapes fp_example_m2))
   \<and> map Tape_get_content (tapes (multi_tapes fp_example_m1))
       = map Tape_get_content (tapes (multi_tapes fp_example_m2))"
  by code_simp

text \<open>
  A bar in a state name, or in a tape content of a multi-tape configuration, lets
  configurations that differ in state, head position and content have one fingerprint.
\<close>

lemma fingerprint_collision:
  "current_state fp_collide_a \<noteq> current_state fp_collide_b
   \<and> head_position (tape fp_collide_a) \<noteq> head_position (tape fp_collide_b)
   \<and> Tape_get_content (tape fp_collide_a) \<noteq> Tape_get_content (tape fp_collide_b)
   \<and> Configuration_to_compact_string fp_collide_a = Configuration_to_compact_string fp_collide_b
   \<and> Configuration_to_compact_string fp_collide_a = Inr ''q|0|1|x''
   \<and> Configuration_is_equivalent fp_collide_a fp_collide_b = Inr False
   \<and> MultiTape_wf (multi_tapes fp_collide_ma) \<and> MultiTape_wf (multi_tapes fp_collide_mb)
   \<and> map Tape_get_content (tapes (multi_tapes fp_collide_ma))
       \<noteq> map Tape_get_content (tapes (multi_tapes fp_collide_mb))
   \<and> MultiConfiguration_to_compact_string fp_collide_ma
       = MultiConfiguration_to_compact_string fp_collide_mb
   \<and> MultiConfiguration_to_compact_string fp_collide_ma = Inr ''q|0,0|a|b|''"
  by code_simp

section \<open>Properties of the simulation loop\<close>

lemma Simulator_step_applicable:
  assumes "Simulator_has_applicable_transition s"
  shows "fst (Simulator_step s)"
    and "machine (snd (Simulator_step s)) = machine s"
    and "max_steps (snd (Simulator_step s)) = max_steps s"
    and "visited_configurations (snd (Simulator_step s)) = visited_configurations s"
    and "step_count (current_config (snd (Simulator_step s))) = Suc (step_count (current_config s))"
    and "trace (snd (Simulator_step s)) = trace s"
    and "trace_enabled (snd (Simulator_step s)) = trace_enabled s"
  using assms
  by (auto simp: Simulator_has_applicable_transition_def Simulator_step_def Let_def
      split: option.splits)

lemma add_to_trace_fields:
  "machine (Simulator_add_to_trace s) = machine s"
  "max_steps (Simulator_add_to_trace s) = max_steps s"
  "current_config (Simulator_add_to_trace s) = current_config s"
  "visited_configurations (Simulator_add_to_trace s) = visited_configurations s"
  "trace_enabled (Simulator_add_to_trace s) = trace_enabled s"
  by (simp_all add: Simulator_add_to_trace_def)

lemma Simulator_key_Inl:
  "Simulator_get_configuration_key s = Inl e \<Longrightarrow> e = length_error"
  by (auto simp: Simulator_get_configuration_key_def Configuration_to_compact_string_def
      split: sum.splits dest: Tape_get_content_Inl)

lemma Simulator_visited_cases:
  obtains (throws) "Simulator_get_configuration_key s = Inl length_error"
      "Simulator_is_configuration_visited s = Inl length_error"
      "Simulator_mark_configuration_as_visited s = Inl length_error"
    | (key) key where "Simulator_get_configuration_key s = Inr key"
      "Simulator_is_configuration_visited s = Inr (key \<in> visited_configurations s)"
      "Simulator_mark_configuration_as_visited s
         = Inr (s\<lparr>visited_configurations := insert key (visited_configurations s)\<rparr>)"
proof (cases "Simulator_get_configuration_key s")
  case (Inl e)
  with Simulator_key_Inl[OF Inl] throws show ?thesis
    by (simp add: Simulator_is_configuration_visited_def
        Simulator_mark_configuration_as_visited_def)
next
  case (Inr k)
  with key[of k] show ?thesis
    by (simp add: Simulator_is_configuration_visited_def
        Simulator_mark_configuration_as_visited_def)
qed

lemma loop_exit:
  "Simulator_loop_body s = Inl out \<Longrightarrow> Simulator_simulate_loop s = Some out"
  by (subst Simulator_simulate_loop.simps) simp

lemma loop_next:
  "Simulator_loop_body s = Inr s' \<Longrightarrow> Simulator_simulate_loop s = Simulator_simulate_loop s'"
  by (subst Simulator_simulate_loop.simps) simp

text \<open>
  The five ways through the body of the loop.
\<close>

lemma loop_body_cases:
  obtains (budget) "budget_exhausted s" "Simulator_loop_body s = Inl (Inr (INFINITE, s))"
    | (accept) "\<not> budget_exhausted s" "Simulator_is_accepting_state s"
        "Simulator_loop_body s = Inl (Inr (ACCEPTED, s))"
    | (reject) "\<not> budget_exhausted s" "\<not> Simulator_is_accepting_state s"
        "\<not> Simulator_has_applicable_transition s"
        "Simulator_loop_body s = Inl (Inr (REJECTED, s))"
    | (throws) "\<not> budget_exhausted s" "\<not> Simulator_is_accepting_state s"
        "Simulator_has_applicable_transition s"
        "Simulator_get_configuration_key (snd (Simulator_step s)) = Inl length_error"
        "Simulator_loop_body s = Inl (Inl length_error)"
    | (repeat) key where "\<not> budget_exhausted s" "\<not> Simulator_is_accepting_state s"
        "Simulator_has_applicable_transition s"
        "Simulator_get_configuration_key (snd (Simulator_step s)) = Inr key"
        "key \<in> visited_configurations s"
        "Simulator_loop_body s = Inl (Inr (INFINITE, snd (Simulator_step s)))"
    | (again) key where "\<not> budget_exhausted s" "\<not> Simulator_is_accepting_state s"
        "Simulator_has_applicable_transition s"
        "Simulator_get_configuration_key (snd (Simulator_step s)) = Inr key"
        "key \<notin> visited_configurations s"
        "Simulator_loop_body s
           = Inr (Simulator_add_to_trace
                   ((snd (Simulator_step s))
                      \<lparr>visited_configurations := insert key (visited_configurations s)\<rparr>))"
proof (cases "budget_exhausted s")
  case True
  with budget show ?thesis
    by (simp add: Simulator_loop_body_def budget_exhausted_def)
next
  case nb: False
  then have nb': "\<not> (0 < max_steps s \<and> max_steps s \<le> step_count (current_config s))"
    by (simp add: budget_exhausted_def)
  show ?thesis
  proof (cases "Simulator_is_accepting_state s")
    case True
    with nb nb' accept show ?thesis
      by (auto simp: Simulator_loop_body_def)
  next
    case na: False
    show ?thesis
    proof (cases "Simulator_has_applicable_transition s")
      case False
      with nb nb' na reject show ?thesis
        by (auto simp: Simulator_loop_body_def)
    next
      case ha: True
      note st = Simulator_step_applicable[OF ha]
      let ?s1 = "snd (Simulator_step s)"
      show ?thesis
      proof (cases ?s1 rule: Simulator_visited_cases)
        case throws
        with nb nb' na ha st(1) show ?thesis
          by (intro that(4)) (auto simp: Simulator_loop_body_def)
      next
        case (key k)
        show ?thesis
        proof (cases "k \<in> visited_configurations s")
          case True
          with key nb nb' na ha st(1,4) show ?thesis
            by (intro repeat[of k]) (auto simp: Simulator_loop_body_def)
        next
          case False
          with key nb nb' na ha st(1,4) show ?thesis
            by (intro again[of k]) (auto simp: Simulator_loop_body_def)
        qed
      qed
    qed
  qed
qed

lemma again_fields:
  assumes "Simulator_has_applicable_transition s"
  shows "machine (Simulator_add_to_trace ((snd (Simulator_step s))\<lparr>visited_configurations := v\<rparr>))
         = machine s"
    and "max_steps (Simulator_add_to_trace ((snd (Simulator_step s))\<lparr>visited_configurations := v\<rparr>))
         = max_steps s"
    and "step_count (current_config
           (Simulator_add_to_trace ((snd (Simulator_step s))\<lparr>visited_configurations := v\<rparr>)))
         = Suc (step_count (current_config s))"
    and "current_config (Simulator_add_to_trace ((snd (Simulator_step s))\<lparr>visited_configurations := v\<rparr>))
         = current_config (snd (Simulator_step s))"
    and "visited_configurations
           (Simulator_add_to_trace ((snd (Simulator_step s))\<lparr>visited_configurations := v\<rparr>))
         = v"
  using Simulator_step_applicable[OF assms]
  by (simp_all add: Simulator_add_to_trace_def)

lemma sim_rel_preds:
  assumes "sim_rel s s2"
  shows "Simulator_is_accepting_state s2 = Simulator_is_accepting_state s"
    and "Simulator_has_applicable_transition s2 = Simulator_has_applicable_transition s"
    and "current_config (snd (Simulator_step s2)) = current_config (snd (Simulator_step s))"
    and "Simulator_get_configuration_key (snd (Simulator_step s2))
         = Simulator_get_configuration_key (snd (Simulator_step s))"
    and "visited_configurations s2 = visited_configurations s"
    and "machine s2 = machine s"
    and "budget_exhausted s2
         = (0 < max_steps s2 \<and> max_steps s2 \<le> step_count (current_config s))"
  using assms
  by (auto simp: sim_rel_def Simulator_is_accepting_state_def
      Simulator_has_applicable_transition_def Simulator_step_def Let_def
      Simulator_get_configuration_key_def budget_exhausted_def
      split: option.splits)

text \<open>
  A run that halts (ACCEPTED or REJECTED) is repeated step by step by a simulator that
  differs in the budget only, as long as that budget is not reached.
\<close>

lemma loop_budget_mono_aux:
  assumes "Simulator_simulate_loop s = Some y"
  shows "\<forall>r s'. y = Inr (r, s') \<longrightarrow>
     step_count (current_config s) \<le> step_count (current_config s')
   \<and> ((r = ACCEPTED \<or> r = REJECTED) \<longrightarrow>
        (\<forall>s2. sim_rel s s2
              \<and> (max_steps s2 = 0 \<or> step_count (current_config s') < max_steps s2)
              \<longrightarrow> (\<exists>s2'. Simulator_simulate_loop s2 = Some (Inr (r, s2')) \<and> sim_rel s' s2')))"
  using assms
proof (induction s y rule: Simulator_simulate_loop.raw_induct[rotated 1, consumes 1, case_names 1])
  case (1 loop s y)
  show ?case
  proof (cases s rule: loop_body_cases)
    case budget
    with 1(2) show ?thesis by auto
  next
    case accept
    with 1(2) have y: "y = Inr (ACCEPTED, s)" by simp
    have "\<exists>s2'. Simulator_simulate_loop s2 = Some (Inr (ACCEPTED, s2')) \<and> sim_rel s s2'"
      if r: "sim_rel s s2" and b: "max_steps s2 = 0 \<or> step_count (current_config s) < max_steps s2"
      for s2
    proof (cases s2 rule: loop_body_cases)
      case accept
      from loop_exit[OF accept(3)] r show ?thesis by blast
    qed (use b accept sim_rel_preds[OF r] in auto)
    with y show ?thesis by simp
  next
    case reject
    with 1(2) have y: "y = Inr (REJECTED, s)" by simp
    have "\<exists>s2'. Simulator_simulate_loop s2 = Some (Inr (REJECTED, s2')) \<and> sim_rel s s2'"
      if r: "sim_rel s s2" and b: "max_steps s2 = 0 \<or> step_count (current_config s) < max_steps s2"
      for s2
    proof (cases s2 rule: loop_body_cases)
      case reject
      from loop_exit[OF reject(4)] r show ?thesis by blast
    qed (use b reject sim_rel_preds[OF r] in auto)
    with y show ?thesis by simp
  next
    case throws
    with 1(2) show ?thesis by auto
  next
    case (repeat key)
    with 1(2) have "y = Inr (INFINITE, snd (Simulator_step s))" by simp
    with Simulator_step_applicable(5)[OF repeat(3)] show ?thesis by simp
  next
    case (again key)
    let ?s1 = "Simulator_add_to_trace
                 ((snd (Simulator_step s))
                    \<lparr>visited_configurations := insert key (visited_configurations s)\<rparr>)"
    from again 1(2) have rec: "loop ?s1 = Some y" by simp
    note ih = 1(1)[OF rec]
    note f = again_fields[OF again(3), of "insert key (visited_configurations s)"]
    show ?thesis
    proof (intro allI impI)
      fix r s' assume y: "y = Inr (r, s')"
      with ih f(3) have le: "Suc (step_count (current_config s)) \<le> step_count (current_config s')"
        by simp
      have "\<exists>s2'. Simulator_simulate_loop s2 = Some (Inr (r, s2')) \<and> sim_rel s' s2'"
        if res: "r = ACCEPTED \<or> r = REJECTED" and rel: "sim_rel s s2"
          and b: "max_steps s2 = 0 \<or> step_count (current_config s') < max_steps s2"
        for s2
      proof (cases s2 rule: loop_body_cases)
        case (again key2)
        let ?s3 = "Simulator_add_to_trace
                     ((snd (Simulator_step s2))
                        \<lparr>visited_configurations := insert key2 (visited_configurations s2)\<rparr>)"
        note g = again_fields[OF again(3), of "insert key2 (visited_configurations s2)"]
        from again(4) \<open>Simulator_get_configuration_key (snd (Simulator_step s)) = Inr key\<close>
          sim_rel_preds(4)[OF rel]
        have k: "key2 = key" by simp
        have rel': "sim_rel ?s1 ?s3"
          using f g k sim_rel_preds[OF rel] by (simp add: sim_rel_def)
        have b': "max_steps ?s3 = 0 \<or> step_count (current_config s') < max_steps ?s3"
          using b g(2) by simp
        from ih y res rel' b'
        obtain s2' where "Simulator_simulate_loop ?s3 = Some (Inr (r, s2'))" and "sim_rel s' s2'"
          by blast
        with loop_next[OF again(6)] show ?thesis by auto
      qed (use b le \<open>\<not> Simulator_is_accepting_state s\<close> \<open>Simulator_has_applicable_transition s\<close>
          \<open>Simulator_get_configuration_key (snd (Simulator_step s)) = Inr key\<close>
          \<open>key \<notin> visited_configurations s\<close> sim_rel_preds[OF rel] in auto)
      with le show "step_count (current_config s) \<le> step_count (current_config s')
         \<and> ((r = ACCEPTED \<or> r = REJECTED) \<longrightarrow>
          (\<forall>s2. sim_rel s s2
              \<and> (max_steps s2 = 0 \<or> step_count (current_config s') < max_steps s2)
              \<longrightarrow> (\<exists>s2'. Simulator_simulate_loop s2 = Some (Inr (r, s2')) \<and> sim_rel s' s2')))"
        by auto
    qed
  qed
qed


subsection \<open>Runs that stay in the range of int\<close>










subsection \<open>The whole call\<close>

lemma Simulator_reset_fields:
  "machine (Simulator_reset w s) = machine s"
  "max_steps (Simulator_reset w s) = max_steps s"
  "trace_enabled (Simulator_reset w s) = trace_enabled s"
  "machine s \<noteq> None \<Longrightarrow> step_count (current_config (Simulator_reset w s)) = 0"
  "current_config (Simulator_reset w (s\<lparr>trace_enabled := tr, max_steps := N\<rparr>))
     = current_config (Simulator_reset w s)"
  "visited_configurations (Simulator_reset w s) = {}"
  "trace (Simulator_reset w s) = []"
  by (auto simp: Simulator_reset_def Let_def Configuration_reset_def split: option.splits)

lemma sim_start_cases:
  obtains (throws) "sim_start w tr N s = Inl length_error"
      "Configuration_to_compact_string (current_config (Simulator_reset w s)) = Inl length_error"
    | (starts) key where
      "Configuration_to_compact_string (current_config (Simulator_reset w s)) = Inr key"
      "sim_start w tr N s
         = Inr ((Simulator_add_to_trace (Simulator_reset w (s\<lparr>trace_enabled := tr, max_steps := N\<rparr>)))
                  \<lparr>visited_configurations := {key}\<rparr>)"
proof -
  let ?s1 = "Simulator_add_to_trace (Simulator_reset w (s\<lparr>trace_enabled := tr, max_steps := N\<rparr>))"
  have c: "Simulator_get_configuration_key ?s1
           = Configuration_to_compact_string (current_config (Simulator_reset w s))"
    by (simp add: Simulator_get_configuration_key_def add_to_trace_fields Simulator_reset_fields)
  have v: "visited_configurations ?s1 = {}"
    by (simp add: add_to_trace_fields Simulator_reset_fields)
  show ?thesis
  proof (cases ?s1 rule: Simulator_visited_cases)
    case throws
    with c that(1) show ?thesis by (simp add: sim_start_def)
  next
    case (key k)
    with c v that(2)[of k] show ?thesis by (simp add: sim_start_def)
  qed
qed

lemma sim_start_Inr:
  assumes "sim_start w tr N s = Inr s0"
  shows "machine s0 = machine s"
    and "max_steps s0 = N"
    and "machine s \<noteq> None \<Longrightarrow> step_count (current_config s0) = 0"
    and "\<exists>s1. sim_start w tr' N' s = Inr s1 \<and> sim_rel s0 s1 \<and> max_steps s1 = N'"
    and "Simulator_is_configuration_visited s0 = Inr True"
    and "current_config s0 = current_config (Simulator_reset w s)"
proof -
  from assms obtain key where
    k: "Configuration_to_compact_string (current_config (Simulator_reset w s)) = Inr key"
    and s0: "s0 = (Simulator_add_to_trace
                    (Simulator_reset w (s\<lparr>trace_enabled := tr, max_steps := N\<rparr>)))
                  \<lparr>visited_configurations := {key}\<rparr>"
    by (cases rule: sim_start_cases[of w tr N s]) simp_all
  from s0 show "machine s0 = machine s" and "max_steps s0 = N"
    and c: "current_config s0 = current_config (Simulator_reset w s)"
    by (simp_all add: add_to_trace_fields Simulator_reset_fields)
  from c show "machine s \<noteq> None \<Longrightarrow> step_count (current_config s0) = 0"
    by (simp add: Simulator_reset_fields)
  from k c s0 show "Simulator_is_configuration_visited s0 = Inr True"
    by (simp add: Simulator_is_configuration_visited_def Simulator_get_configuration_key_def)
  show "\<exists>s1. sim_start w tr' N' s = Inr s1 \<and> sim_rel s0 s1 \<and> max_steps s1 = N'"
  proof (cases rule: sim_start_cases[of w tr' N' s])
    case throws
    with k show ?thesis by simp
  next
    case (starts key')
    with k have "key' = key" by simp
    with starts(2) s0 show ?thesis
      by (simp add: sim_rel_def add_to_trace_fields Simulator_reset_fields)
  qed
qed


lemma Simulator_simulate_loop_eq:
  assumes "machine s = Some m" and "TuringMachine_is_valid m"
    and "TuringMachine_is_valid_input_word m w"
  shows "Simulator_simulate w tr N s
         = (case sim_start w tr N s of Inl e \<Rightarrow> Some (Inl e) | Inr s1 \<Rightarrow> Simulator_simulate_loop s1)"
  using assms by (simp add: Simulator_simulate_def sim_start_def)

lemma Simulator_simulate_Some_loop:
  assumes "Simulator_simulate w tr N s = Some (Inr (r, s'))" and "r \<noteq> ERROR"
  obtains m s0 where "machine s = Some m" and "TuringMachine_is_valid m"
    and "TuringMachine_is_valid_input_word m w"
    and "sim_start w tr N s = Inr s0" and "Simulator_simulate_loop s0 = Some (Inr (r, s'))"
  using assms
  by (auto simp: Simulator_simulate_def sim_start_def split: option.splits if_splits sum.splits)


lemma run_outcome_Inr:
  assumes "run_outcome x = Some (Inr (r, n))"
  shows "\<exists>s. x = Some (Inr (r, s)) \<and> step_count (current_config s) = n"
proof (cases x)
  case None
  with assms show ?thesis by (simp add: run_outcome_def)
next
  case (Some y)
  with assms show ?thesis
    by (cases y) (auto simp: run_outcome_def)
qed



subsection \<open>A larger budget that ends in the exception of the content\<close>

lemma left_writer_facts:
  "TuringMachine_is_valid left_writer"
  "TuringMachine_is_valid_input_word left_writer []"
  "TuringMachine_get_transition left_writer ''q0'' CHR ''.''
     = Some \<lparr>from_state = ''q0'', read_symbol = CHR ''.'', to_state = ''q0'',
             write_symbol = CHR ''a'', movement = LEFT\<rparr>"
  "\<not> TuringMachine_is_accept_state left_writer q"
  by (code_simp, code_simp, code_simp, simp add: TuringMachine_is_accept_state_def left_writer_def)

lemma writer_step:
  assumes "writer_inv s"
  shows "\<not> Simulator_is_accepting_state s"
    and "Simulator_has_applicable_transition s"
    and "current_state (current_config (snd (Simulator_step s))) = ''q0''"
    and "head_position (tape (current_config (snd (Simulator_step s))))
         = - int (Suc (step_count (current_config s)))"
    and "blank_symbol (tape (current_config (snd (Simulator_step s)))) = CHR ''.''"
    and "fst ` set (cells (tape (current_config (snd (Simulator_step s)))))
         = (\<lambda>i. - int i) ` {..<Suc (step_count (current_config s))}"
proof -
  let ?k = "step_count (current_config s)"
  let ?t = "tape (current_config s)"
  from assms have m: "machine s = Some left_writer" and q: "current_state (current_config s) = ''q0''"
    and h: "head_position ?t = - int ?k" and b: "blank_symbol ?t = CHR ''.''"
    and keys: "fst ` set (cells ?t) = (\<lambda>i. - int i) ` {..<?k}"
    by (simp_all add: writer_inv_def)
  have "- int ?k \<notin> fst ` set (cells ?t)" using keys by auto
  then have "map_of (cells ?t) (- int ?k) = None"
    by (simp add: map_of_eq_None_iff)
  then have r: "Tape_read ?t = CHR ''.''"
    by (simp add: Tape_read_def h b)
  show "\<not> Simulator_is_accepting_state s"
    using m left_writer_facts(4) by (simp add: Simulator_is_accepting_state_def)
  show "Simulator_has_applicable_transition s"
    using m q r left_writer_facts(3) by (simp add: Simulator_has_applicable_transition_def)
  have c: "current_config (snd (Simulator_step s))
      = \<lparr>current_state = ''q0'',
         tape = Tape_move_left (Tape_write CHR ''a'' ?t),
         step_count = ?k + 1\<rparr>"
    using m q r left_writer_facts(3) by (simp add: Simulator_step_def Let_def)
  show "current_state (current_config (snd (Simulator_step s))) = ''q0''"
    by (simp add: c)
  show "head_position (tape (current_config (snd (Simulator_step s)))) = - int (Suc ?k)"
    by (simp add: c Tape_move_left_def Tape_write_def h b)
  show "blank_symbol (tape (current_config (snd (Simulator_step s)))) = CHR ''.''"
    by (simp add: c Tape_move_left_def Tape_write_def b)
  show "fst ` set (cells (tape (current_config (snd (Simulator_step s)))))
        = (\<lambda>i. - int i) ` {..<Suc ?k}"
    using keys by (auto simp: c Tape_move_left_def Tape_write_def h b dom_update lessThan_Suc)
qed


lemma writer_content:
  assumes "fst ` set (cells t) = (\<lambda>i. - int i) ` {..<n}"
  shows "(\<exists>c. Tape_get_content t = Inr c) \<longleftrightarrow> int n \<le> INT_MAX"
proof (cases n)
  case 0
  with assms have "cells t = []" by simp
  with 0 show ?thesis by (simp add: Tape_get_content_def INT_MAX_def)
next
  case (Suc m)
  have ne: "cells t \<noteq> []" using assms Suc by auto
  have k: "set (map fst (cells t)) = (\<lambda>i. - int i) ` {..<Suc m}" using assms Suc by simp
  have mn: "Min ((\<lambda>i. - int i) ` {..<Suc m}) = - int m"
    by (rule Min_eqI) auto
  have mx: "Max ((\<lambda>i. - int i) ` {..<Suc m}) = 0"
    by (rule Max_eqI) auto
  show ?thesis
    unfolding Tape_get_content_def Let_def k mn mx using ne Suc
    by (auto simp: INT_MAX_def)
qed

lemma writer_loop:
  assumes "writer_inv s" and "max_steps s = 2147483648"
    and "step_count (current_config s) \<le> 2147483647"
  shows "Simulator_simulate_loop s = Some (Inl length_error)"
  using assms
proof (induction "2147483647 - step_count (current_config s)" arbitrary: s rule: less_induct)
  case less
  let ?k = "step_count (current_config s)"
  let ?c1 = "current_config (snd (Simulator_step s))"
  note ws = writer_step[OF less.prems(1)]
  show ?case
  proof (cases s rule: loop_body_cases)
    case budget
    with less.prems(2,3) show ?thesis by (simp add: budget_exhausted_def)
  next
    case accept
    with ws(1) show ?thesis by simp
  next
    case reject
    with ws(2) show ?thesis by simp
  next
    case throws
    from loop_exit[OF throws(5)] show ?thesis .
  next
    case (repeat key)
    from repeat(5) less.prems(1) obtain c where c: "Configuration_to_compact_string c = Inr key"
      and cq: "current_state c = ''q0''" and ch: "- int ?k \<le> head_position (tape c)"
      by (auto simp: writer_inv_def)
    from repeat(4) have k: "Configuration_to_compact_string ?c1 = Inr key"
      by (simp add: Simulator_get_configuration_key_def)
    have "head_position (tape ?c1) = head_position (tape c)"
      using mono_fingerprint_inj[of ?c1 c key] k c cq ws(3) by simp
    with ws(4) ch show ?thesis by simp
  next
    case (again key)
    let ?s1 = "Simulator_add_to_trace
                 ((snd (Simulator_step s))
                    \<lparr>visited_configurations := insert key (visited_configurations s)\<rparr>)"
    note f = again_fields[OF again(3), of "insert key (visited_configurations s)"]
    from again(4) have k: "Configuration_to_compact_string ?c1 = Inr key"
      by (simp add: Simulator_get_configuration_key_def)
    then have "\<exists>c. Tape_get_content (tape ?c1) = Inr c"
      by (auto simp: mono_fingerprint_Inr)
    with writer_content[OF ws(6)] have b: "int (Suc ?k) \<le> INT_MAX" by simp
    then have lt: "Suc ?k \<le> 2147483647" by (simp add: INT_MAX_def)
    have inv: "writer_inv ?s1"
      unfolding writer_inv_def f
    proof (intro conjI ballI)
      show "machine s = Some left_writer" using less.prems(1) by (simp add: writer_inv_def)
      show "current_state ?c1 = ''q0''" by (rule ws(3))
      show "head_position (tape ?c1) = - int (step_count ?c1)"
        using ws(4) Simulator_step_applicable(5)[OF again(3)] by simp
      show "blank_symbol (tape ?c1) = CHR ''.''" by (rule ws(5))
      show "fst ` set (cells (tape ?c1)) = (\<lambda>i. - int i) ` {..<step_count ?c1}"
        using ws(6) Simulator_step_applicable(5)[OF again(3)] by simp
    next
      fix key' assume "key' \<in> insert key (visited_configurations s)"
      then show "\<exists>c. Configuration_to_compact_string c = Inr key' \<and> current_state c = ''q0''
                 \<and> - int (step_count ?c1) \<le> head_position (tape c)"
      proof
        assume "key' = key"
        with k ws(3,4) Simulator_step_applicable(5)[OF again(3)] show ?thesis
          by (intro exI[of _ ?c1]) simp
      next
        assume "key' \<in> visited_configurations s"
        with less.prems(1) obtain c where "Configuration_to_compact_string c = Inr key'"
          and "current_state c = ''q0''" and "- int ?k \<le> head_position (tape c)"
          by (auto simp: writer_inv_def)
        with Simulator_step_applicable(5)[OF again(3)] show ?thesis
          by (intro exI[of _ c]) simp
      qed
    qed
    have d: "2147483647 - step_count (current_config ?s1) < 2147483647 - ?k"
      using lt f(3) by simp
    have "Simulator_simulate_loop ?s1 = Some (Inl length_error)"
      by (rule less.hyps[OF d inv]) (use less.prems(2) f(2) f(3) lt in simp_all)
    with loop_next[OF again(6)] show ?thesis by simp
  qed
qed

text \<open>
  Beyond the bound of the amended claim the call need not return a result. On the empty
  word the run of \<open>left_writer\<close> is cut by the budget 1 after one step; under the budget
  \<open>2 ^ 31\<close> it goes on (the head never leaves the range of \<^verbatim>\<open>int\<close>) until the tape holds
  \<open>2 ^ 31\<close> cells, the width of its content overflows, and the exception of
  \<^verbatim>\<open>Tape::get_content\<close> leaves \<^verbatim>\<open>simulate\<close>: the word loop of the program catches it and
  writes \<^verbatim>\<open>ERROR\<close>.
\<close>

lemma larger_budget_reaches_content_overflow:
  "run_outcome (Simulator_simulate [] False 1 (Simulator_init (Some left_writer)))
     = Some (Inr (INFINITE, 1))
   \<and> Simulator_simulate [] False 2147483648 (Simulator_init (Some left_writer))
     = Some (Inl length_error)
   \<and> main_process_line False False 2147483648 left_writer [] (Simulator_init (Some left_writer))
     = Some ([Out_line ''ERROR''], [Err_exception length_error], None)"
proof -
  let ?s = "Simulator_init (Some left_writer)"
  have a: "run_outcome (Simulator_simulate [] False 1 ?s) = Some (Inr (INFINITE, 1))"
    by code_simp
  have m: "machine ?s = Some left_writer" by (simp add: Simulator_init_def)
  have c: "current_config (Simulator_reset [] ?s)
           = \<lparr>current_state = ''q0'',
              tape = \<lparr>cells = [], head_position = 0, blank_symbol = CHR ''.''\<rparr>,
              step_count = 0\<rparr>"
    by code_simp
  have k: "Configuration_to_compact_string (current_config (Simulator_reset [] ?s)) = Inr ''q0|0|''"
    by code_simp
  obtain s0 where s0: "sim_start [] False 2147483648 ?s = Inr s0"
    and v: "visited_configurations s0 = {''q0|0|''}"
  proof (cases rule: sim_start_cases[of "[]" False 2147483648 ?s])
    case throws
    with k show ?thesis by simp
  next
    case (starts key)
    with k that show ?thesis by simp
  qed
  note f = sim_start_Inr[OF s0]
  have inv: "writer_inv s0"
    unfolding writer_inv_def f(1) f(6) v c
    using m k c by (auto intro!: exI[of _ "current_config (Simulator_reset [] ?s)"])
  have "Simulator_simulate_loop s0 = Some (Inl length_error)"
    by (rule writer_loop[OF inv]) (simp_all add: f(2) f(6) c)
  with Simulator_simulate_loop_eq[OF m left_writer_facts(1,2), of False 2147483648] s0
  have b: "Simulator_simulate [] False 2147483648 ?s = Some (Inl length_error)" by simp
  then have "main_process_line False False 2147483648 left_writer [] ?s
      = Some ([Out_line ''ERROR''], [Err_exception length_error], None)"
    by (simp add: main_process_line_def strip_spaces_def)
  with a b show ?thesis by simp
qed

subsection \<open>The first lookup comes after the first step\<close>

lemma simulate_infinite_after_step:
  assumes "Simulator_simulate w tr N s = Some (Inr (INFINITE, s'))"
  shows "0 < step_count (current_config s')"
proof -
  have ne: "INFINITE \<noteq> ERROR" by simp
  from assms ne obtain m s0 where m: "machine s = Some m"
    and s0: "sim_start w tr N s = Inr s0"
    and l: "Simulator_simulate_loop s0 = Some (Inr (INFINITE, s'))"
    by (rule Simulator_simulate_Some_loop)
  have z: "step_count (current_config s0) = 0"
    using sim_start_Inr(3)[OF s0] m by simp
  show ?thesis
  proof (cases s0 rule: loop_body_cases)
    case budget
    with z show ?thesis by (simp add: budget_exhausted_def)
  next
    case accept
    from loop_exit[OF accept(3)] l show ?thesis by simp
  next
    case reject
    from loop_exit[OF reject(4)] l show ?thesis by simp
  next
    case throws
    from loop_exit[OF throws(5)] l show ?thesis by simp
  next
    case (repeat key)
    from loop_exit[OF repeat(6)] l have "s' = snd (Simulator_step s0)" by simp
    with Simulator_step_applicable(5)[OF repeat(3)] show ?thesis by simp
  next
    case (again key)
    let ?s1 = "Simulator_add_to_trace
                 ((snd (Simulator_step s0))
                    \<lparr>visited_configurations := insert key (visited_configurations s0)\<rparr>)"
    from loop_next[OF again(6)] l have "Simulator_simulate_loop ?s1 = Some (Inr (INFINITE, s'))"
      by simp
    from loop_budget_mono_aux[OF this]
      again_fields(3)[OF again(3), of "insert key (visited_configurations s0)"]
    show ?thesis by simp
  qed
qed

subsection \<open>The loop flag and the trace\<close>

lemma loop_flag_invariant:
  assumes "Simulator_simulate_loop s = Some y"
  shows "Simulator_is_configuration_visited s = Inr True \<longrightarrow>
         (\<forall>r s'. y = Inr (r, s') \<longrightarrow> Simulator_is_infinite_loop_detected s' = Inr True)"
  using assms
proof (induction s y rule: Simulator_simulate_loop.raw_induct[rotated 1, consumes 1, case_names 1])
  case (1 loop s y)
  show ?case
  proof (cases s rule: loop_body_cases)
    case budget
    with 1(2) show ?thesis by (auto simp: Simulator_is_infinite_loop_detected_def)
  next
    case accept
    with 1(2) show ?thesis by (auto simp: Simulator_is_infinite_loop_detected_def)
  next
    case reject
    with 1(2) show ?thesis by (auto simp: Simulator_is_infinite_loop_detected_def)
  next
    case throws
    with 1(2) show ?thesis by auto
  next
    case (repeat key)
    with 1(2) Simulator_step_applicable(4)[OF repeat(3)] show ?thesis
      by (auto simp: Simulator_is_infinite_loop_detected_def
          Simulator_is_configuration_visited_def)
  next
    case (again key)
    let ?s1 = "Simulator_add_to_trace
                 ((snd (Simulator_step s))
                    \<lparr>visited_configurations := insert key (visited_configurations s)\<rparr>)"
    from again 1(2) have rec: "loop ?s1 = Some y" by simp
    have "Simulator_is_configuration_visited ?s1 = Inr True"
      using again(4) again_fields(4,5)[OF again(3), of "insert key (visited_configurations s)"]
      by (simp add: Simulator_is_configuration_visited_def Simulator_get_configuration_key_def)
    with 1(1)[OF rec] show ?thesis by simp
  qed
qed

text \<open>
  After every call of \<^verbatim>\<open>simulate\<close> that returns a result other than ERROR,
  \<^verbatim>\<open>is_infinite_loop_detected\<close> returns true.
\<close>

lemma loop_flag_always_set:
  assumes "Simulator_simulate w tr N s = Some (Inr (r, s'))" and "r \<noteq> ERROR"
  shows "Simulator_is_infinite_loop_detected s' = Inr True"
proof -
  from assms obtain s0 where s0: "sim_start w tr N s = Inr s0"
    and l: "Simulator_simulate_loop s0 = Some (Inr (r, s'))"
    by (rule Simulator_simulate_Some_loop)
  from loop_flag_invariant[OF l] sim_start_Inr(5)[OF s0] show ?thesis by simp
qed

text \<open>
  The converse direction of loop detection: a traced run that ends ACCEPTED or REJECTED
  has recorded every configuration it went through, the final one included, and their
  fingerprints are pairwise different. A run that comes back to a fingerprint therefore
  never ends ACCEPTED or REJECTED.
\<close>

lemma trace_inv_next:
  assumes "trace_inv s" and "Simulator_has_applicable_transition s"
    and "Simulator_get_configuration_key (snd (Simulator_step s)) = Inr key"
    and "key \<notin> visited_configurations s"
  shows "trace_inv (Simulator_add_to_trace
                     ((snd (Simulator_step s))
                        \<lparr>visited_configurations := insert key (visited_configurations s)\<rparr>))"
proof -
  let ?s1 = "snd (Simulator_step s)"
  note st = Simulator_step_applicable[OF assms(2)]
  have k: "Configuration_to_compact_string (current_config ?s1) = Inr key"
    using assms(3) by (simp add: Simulator_get_configuration_key_def)
  have n: "Inr key \<notin> Inr ` visited_configurations s"
    using assms(4) by auto
  show ?thesis
    using assms(1) st(6,7) k n
    by (simp add: trace_inv_def Simulator_add_to_trace_def)
qed

lemma loop_trace_distinct:
  assumes "Simulator_simulate_loop s = Some y"
  shows "trace_inv s \<longrightarrow>
           (\<forall>r s'. y = Inr (r, s') \<longrightarrow>
              distinct (map Configuration_to_compact_string (trace s'))
            \<and> ((r = ACCEPTED \<or> r = REJECTED) \<longrightarrow>
                 trace s' \<noteq> [] \<and> last (trace s') = current_config s'))"
  using assms
proof (induction s y rule: Simulator_simulate_loop.raw_induct[rotated 1, consumes 1, case_names 1])
  case (1 loop s y)
  show ?case
  proof (cases s rule: loop_body_cases)
    case budget
    with 1(2) show ?thesis by (auto simp: trace_inv_def)
  next
    case accept
    with 1(2) show ?thesis by (auto simp: trace_inv_def)
  next
    case reject
    with 1(2) show ?thesis by (auto simp: trace_inv_def)
  next
    case throws
    with 1(2) show ?thesis by auto
  next
    case (repeat key)
    with 1(2) Simulator_step_applicable(6)[OF repeat(3)] show ?thesis
      by (auto simp: trace_inv_def)
  next
    case (again key)
    let ?s1 = "Simulator_add_to_trace
                 ((snd (Simulator_step s))
                    \<lparr>visited_configurations := insert key (visited_configurations s)\<rparr>)"
    from again 1(2) have rec: "loop ?s1 = Some y" by simp
    from 1(1)[OF rec] trace_inv_next[OF _ again(3,4,5)] show ?thesis by blast
  qed
qed

lemma halting_run_has_distinct_fingerprints:
  assumes "Simulator_simulate w True N s = Some (Inr (r, s'))" and "r = ACCEPTED \<or> r = REJECTED"
  shows "distinct (map Configuration_to_compact_string (trace s'))
       \<and> trace s' \<noteq> [] \<and> last (trace s') = current_config s'"
proof -
  from assms(2) have ne: "r \<noteq> ERROR" by auto
  from assms(1) ne obtain s0 where s0: "sim_start w True N s = Inr s0"
    and l: "Simulator_simulate_loop s0 = Some (Inr (r, s'))"
    by (rule Simulator_simulate_Some_loop)
  have "trace_inv s0"
  proof (cases rule: sim_start_cases[of w True N s])
    case throws
    with s0 show ?thesis by simp
  next
    case (starts key)
    with s0 have "s0 = (Simulator_add_to_trace
                         (Simulator_reset w (s\<lparr>trace_enabled := True, max_steps := N\<rparr>)))
                       \<lparr>visited_configurations := {key}\<rparr>"
      by simp
    with starts(1) show ?thesis
      by (simp add: trace_inv_def Simulator_add_to_trace_def Simulator_reset_fields)
  qed
  with loop_trace_distinct[OF l] assms(2) show ?thesis by auto
qed

text \<open>
  Claim C4 at a failing input. \<^verbatim>\<open>is_infinite_loop_detected\<close> looks the current
  fingerprint up in the visited set, where the loop has just put it; so the flag is set
  after every run that ends without an error (lemma \<open>loop_flag_always_set\<close>). Here the
  budget of one step is exhausted, the two fingerprints of the run are different, and
  the flag is set all the same.
\<close>

theorem loop_flag_set_on_budget_exhaustion:
  "run_report (Simulator_simulate ''aa'' True 1 (Simulator_init (Some right_mover)))
     = Some (Inr (INFINITE, Inr True, [Inr ''q0|0|aa'', Inr ''q0|1|aa'']))"
  by code_simp
section \<open>Properties of the multi-tape simulation loop\<close>

lemma multi_loop_exit:
  "MultiSimulator_loop_body s = Inl out \<Longrightarrow> MultiSimulator_simulate_loop s = Some out"
  by (subst MultiSimulator_simulate_loop.simps) simp

lemma multi_loop_next:
  "MultiSimulator_loop_body s = Inr s' \<Longrightarrow>
   MultiSimulator_simulate_loop s = MultiSimulator_simulate_loop s'"
  by (subst MultiSimulator_simulate_loop.simps) simp

lemma MultiSimulator_step_count:
  assumes "MultiSimulator_step s = Inr (ok, s1)"
  shows "ok \<longrightarrow> multi_step_count (multi_current_config s1)
                 = Suc (multi_step_count (multi_current_config s))"
    and "\<not> ok \<longrightarrow> s1 = s"
  using assms
  by (auto simp: MultiSimulator_step_def Let_def split: option.splits sum.splits)

lemma MultiSimulator_mark_config:
  "MultiSimulator_mark_configuration_as_visited s = Inr s2 \<Longrightarrow>
   multi_current_config s2 = multi_current_config s"
  by (auto simp: MultiSimulator_mark_configuration_as_visited_def split: sum.splits)

lemma MultiSimulator_add_to_trace_config:
  "multi_current_config (MultiSimulator_add_to_trace s) = multi_current_config s"
  by (simp add: MultiSimulator_add_to_trace_def)

lemma multi_loop_body_Inr:
  assumes "MultiSimulator_loop_body s = Inr s'"
  shows "multi_step_count (multi_current_config s')
         = Suc (multi_step_count (multi_current_config s))"
proof -
  from assms obtain s1 s2 where st: "MultiSimulator_step s = Inr (True, s1)"
    and mk: "MultiSimulator_mark_configuration_as_visited s1 = Inr s2"
    and s': "s' = MultiSimulator_add_to_trace s2"
    by (auto simp: MultiSimulator_loop_body_def split: if_splits sum.splits prod.splits)
  from MultiSimulator_step_count(1)[OF st] MultiSimulator_mark_config[OF mk] s'
  show ?thesis by (simp add: MultiSimulator_add_to_trace_config)
qed

lemma multi_loop_body_Inl:
  assumes "MultiSimulator_loop_body s = Inl (Inr (r, s'))"
  shows "multi_step_count (multi_current_config s) \<le> multi_step_count (multi_current_config s')"
    and "r = INFINITE \<Longrightarrow>
         \<not> (0 < multi_max_steps s \<and> multi_max_steps s \<le> multi_step_count (multi_current_config s))
         \<Longrightarrow> 0 < multi_step_count (multi_current_config s')"
proof -
  have "multi_step_count (multi_current_config s) \<le> multi_step_count (multi_current_config s')
        \<and> (r = INFINITE \<longrightarrow>
             \<not> (0 < multi_max_steps s \<and> multi_max_steps s \<le> multi_step_count (multi_current_config s))
             \<longrightarrow> 0 < multi_step_count (multi_current_config s'))"
    using assms
    by (auto simp: MultiSimulator_loop_body_def
        split: if_splits sum.splits prod.splits
        dest: MultiSimulator_step_count)
  then show "multi_step_count (multi_current_config s) \<le> multi_step_count (multi_current_config s')"
    and "r = INFINITE \<Longrightarrow>
         \<not> (0 < multi_max_steps s \<and> multi_max_steps s \<le> multi_step_count (multi_current_config s))
         \<Longrightarrow> 0 < multi_step_count (multi_current_config s')"
    by simp_all
qed

lemma multi_loop_step_count_mono:
  assumes "MultiSimulator_simulate_loop s = Some out"
  shows "\<forall>r s'. out = Inr (r, s') \<longrightarrow>
           multi_step_count (multi_current_config s) \<le> multi_step_count (multi_current_config s')"
  using assms
proof (induction s out rule: MultiSimulator_simulate_loop.raw_induct[rotated 1, consumes 1, case_names 1])
  case (1 loop s out)
  show ?case
  proof (cases "MultiSimulator_loop_body s")
    case (Inl o1)
    with 1(2) have "out = o1" by simp
    with Inl show ?thesis
      by (auto dest: multi_loop_body_Inl(1))
  next
    case (Inr s1)
    with 1(2) have "loop s1 = Some out" by simp
    from 1(1)[OF this] multi_loop_body_Inr[OF Inr] show ?thesis
      by auto
  qed
qed

lemma multi_simulate_infinite_after_step:
  assumes "MultiSimulator_simulate w tr N s = Some (Inr (INFINITE, s'))"
  shows "0 < multi_step_count (multi_current_config s')"
proof -
  from assms obtain m s1 s2 where m: "multi_machine s = Some m"
    and rs: "MultiSimulator_reset w (s\<lparr>multi_trace_enabled := tr, multi_max_steps := N\<rparr>) = Inr s1"
    and mk: "MultiSimulator_mark_configuration_as_visited (MultiSimulator_add_to_trace s1) = Inr s2"
    and l: "MultiSimulator_simulate_loop s2 = Some (Inr (INFINITE, s'))"
    by (auto simp: MultiSimulator_simulate_def split: option.splits sum.splits if_splits)
  from rs m have "multi_step_count (multi_current_config s1) = 0"
    by (auto simp: MultiSimulator_reset_def MultiConfiguration_init_def
        split: option.splits sum.splits)
  with MultiSimulator_mark_config[OF mk]
  have z: "multi_step_count (multi_current_config s2) = 0"
    by (simp add: MultiSimulator_add_to_trace_config)
  show ?thesis
  proof (cases "MultiSimulator_loop_body s2")
    case (Inl o1)
    with l multi_loop_exit[OF Inl] have "MultiSimulator_loop_body s2 = Inl (Inr (INFINITE, s'))"
      by simp
    from multi_loop_body_Inl(2)[OF this] z show ?thesis by auto
  next
    case (Inr s3)
    with l multi_loop_next[OF Inr] have "MultiSimulator_simulate_loop s3 = Some (Inr (INFINITE, s'))"
      by simp
    from multi_loop_step_count_mono[OF this] multi_loop_body_Inr[OF Inr] z
    show ?thesis by simp
  qed
qed

subsection \<open>The exceptions that can leave the multi-tape simulation\<close>

text \<open>
  The checked accessors are only called with indices below the number of tapes, so on the
  objects the constructors build (and on machines whose transitions come from the
  checking constructor of MultiTransition) their exception branches are never taken: the
  only exception that can leave the simulation is the one of \<^verbatim>\<open>Tape::get_content\<close>.
\<close>

lemma read_current_symbols_ok:
  "\<forall>i \<in> set is. i < num_tapes mt \<Longrightarrow> \<exists>cs. read_current_symbols is mt = Inr cs"
  by (induction "is")
    (auto simp: MultiTape_read_def MultiTape_is_valid_tape_index_def)

lemma write_all_tapes_ok:
  "\<forall>i \<in> set is. i < num_tapes mt \<Longrightarrow> MultiTape_wf mt \<Longrightarrow>
   \<exists>mt'. write_all_tapes is tr mt = Inr mt' \<and> MultiTape_wf mt' \<and> num_tapes mt' = num_tapes mt"
proof (induction "is" arbitrary: mt)
  case Nil
  then show ?case by simp
next
  case (Cons i "is")
  let ?mt1 = "mt\<lparr>tapes := (tapes mt)[i := Tape_write (write_symbols tr ! i) (tapes mt ! i)]\<rparr>"
  have w: "MultiTape_write i (write_symbols tr ! i) mt = Inr ?mt1"
    using Cons.prems by (simp add: MultiTape_write_def MultiTape_is_valid_tape_index_def)
  have "MultiTape_wf ?mt1" "\<forall>j \<in> set is. j < num_tapes ?mt1"
    using Cons.prems by (simp_all add: MultiTape_wf_def)
  from Cons.IH[OF this(2,1)] w show ?case by simp
qed

lemma move_all_tapes_ok:
  "\<forall>i \<in> set is. i < num_tapes mt \<Longrightarrow> MultiTape_wf mt \<Longrightarrow>
   \<exists>mt'. move_all_tapes is tr mt = Inr mt' \<and> MultiTape_wf mt' \<and> num_tapes mt' = num_tapes mt"
proof (induction "is" arbitrary: mt)
  case Nil
  then show ?case by simp
next
  case (Cons i "is")
  from Cons.prems obtain mt1 where m: "MultiTape_move i (movements tr ! i) mt = Inr mt1"
    and n: "num_tapes mt1 = num_tapes mt"
    by (cases "movements tr ! i")
      (auto simp: MultiTape_move_def MultiTape_is_valid_tape_index_def)
  have "MultiTape_wf mt1"
    using MultiTape_wf_move[OF _ m] Cons.prems by simp
  moreover have "\<forall>j \<in> set is. j < num_tapes mt1"
    using Cons.prems n by simp
  ultimately show ?case
    using Cons.IH[of mt1] m n by simp
qed

lemma MultiSimulator_step_ok:
  assumes "MultiSimulator_wf s"
  shows "\<exists>ok s1. MultiSimulator_step s = Inr (ok, s1) \<and> MultiSimulator_wf s1"
proof (cases "multi_machine s")
  case None
  with assms show ?thesis by (auto simp: MultiSimulator_step_def)
next
  case (Some m)
  let ?mt = "multi_tapes (multi_current_config s)"
  let ?n = "MultiTape_get_num_tapes ?mt"
  have wf: "MultiTape_wf ?mt" using assms by (simp add: MultiSimulator_wf_def)
  have r: "\<forall>i \<in> set [0..<?n]. i < num_tapes ?mt"
    by (simp add: MultiTape_get_num_tapes_def)
  from read_current_symbols_ok[OF r] obtain cs where cs: "read_current_symbols [0..<?n] ?mt = Inr cs"
    by blast
  show ?thesis
  proof (cases "MultiTuringMachine_get_transition m (multi_current_state (multi_current_config s)) cs")
    case None
    with \<open>multi_machine s = Some m\<close> cs assms show ?thesis
      by (auto simp: MultiSimulator_step_def Let_def)
  next
    case (Some tr)
    from write_all_tapes_ok[OF r wf, of tr] obtain mt1 where
      w: "write_all_tapes [0..<?n] tr ?mt = Inr mt1" and wf1: "MultiTape_wf mt1"
      and n1: "num_tapes mt1 = num_tapes ?mt"
      by blast
    have r1: "\<forall>i \<in> set [0..<?n]. i < num_tapes mt1"
      using n1 by (simp add: MultiTape_get_num_tapes_def)
    from move_all_tapes_ok[OF r1 wf1, of tr] obtain mt2 where
      mv: "move_all_tapes [0..<?n] tr mt1 = Inr mt2" and wf2: "MultiTape_wf mt2"
      by blast
    from \<open>multi_machine s = Some m\<close> cs Some w mv wf2 show ?thesis
      by (auto simp: MultiSimulator_step_def Let_def MultiSimulator_wf_def)
  qed
qed

lemma MultiSimulator_has_applicable_transition_ok:
  "\<exists>b. MultiSimulator_has_applicable_transition s = Inr b"
proof (cases "multi_machine s")
  case None
  then show ?thesis by (auto simp: MultiSimulator_has_applicable_transition_def)
next
  case (Some m)
  let ?mt = "multi_tapes (multi_current_config s)"
  have "\<forall>i \<in> set [0..<MultiTape_get_num_tapes ?mt]. i < num_tapes ?mt"
    by (simp add: MultiTape_get_num_tapes_def)
  from read_current_symbols_ok[OF this] Some show ?thesis
    by (auto simp: MultiSimulator_has_applicable_transition_def)
qed

lemma MultiSimulator_key_ok:
  assumes "MultiSimulator_wf s"
  shows "(\<exists>key. MultiSimulator_get_configuration_key s = Inr key)
       \<or> MultiSimulator_get_configuration_key s = Inl length_error"
proof (cases "MultiSimulator_get_configuration_key s")
  case (Inl e)
  with multi_fingerprint_Inl[of "multi_current_config s" e] assms show ?thesis
    by (simp add: MultiSimulator_get_configuration_key_def MultiSimulator_wf_def)
next
  case (Inr key)
  then show ?thesis by simp
qed

lemma MultiSimulator_loop_body_ok:
  assumes "MultiSimulator_wf s"
  shows "(\<exists>r s'. MultiSimulator_loop_body s = Inl (Inr (r, s')) \<and> MultiSimulator_wf s')
       \<or> (\<exists>s'. MultiSimulator_loop_body s = Inr s' \<and> MultiSimulator_wf s')
       \<or> MultiSimulator_loop_body s = Inl (Inl length_error)"
proof -
  obtain b where b: "MultiSimulator_has_applicable_transition s = Inr b"
    using MultiSimulator_has_applicable_transition_ok by blast
  obtain ok s1 where st: "MultiSimulator_step s = Inr (ok, s1)" and wf1: "MultiSimulator_wf s1"
    using MultiSimulator_step_ok[OF assms] by blast
  have wfe: "MultiSimulator_wf (s1\<lparr>multi_last_error := Multi_step_failed\<rparr>)"
    using wf1 by (simp add: MultiSimulator_wf_def)
  from MultiSimulator_key_ok[OF wf1] show ?thesis
  proof
    assume "\<exists>key. MultiSimulator_get_configuration_key s1 = Inr key"
    then obtain key where key: "MultiSimulator_get_configuration_key s1 = Inr key" by blast
    have wfm: "MultiSimulator_wf (MultiSimulator_add_to_trace
               (s1\<lparr>multi_visited_configurations := insert key (multi_visited_configurations s1)\<rparr>))"
      using wf1 by (simp add: MultiSimulator_wf_def MultiSimulator_add_to_trace_def)
    show ?thesis
      using assms b st wf1 key wfe wfm
      by (simp add: MultiSimulator_loop_body_def MultiSimulator_is_configuration_visited_def
          MultiSimulator_mark_configuration_as_visited_def)
  next
    assume key: "MultiSimulator_get_configuration_key s1 = Inl length_error"
    show ?thesis
      using assms b st wf1 key wfe
      by (simp add: MultiSimulator_loop_body_def MultiSimulator_is_configuration_visited_def
          MultiSimulator_mark_configuration_as_visited_def)
  qed
qed

lemma multi_loop_no_throw:
  assumes "MultiSimulator_simulate_loop s = Some out"
  shows "MultiSimulator_wf s \<longrightarrow>
           (\<exists>r s'. out = Inr (r, s') \<and> MultiSimulator_wf s') \<or> out = Inl length_error"
  using assms
proof (induction s out rule: MultiSimulator_simulate_loop.raw_induct[rotated 1, consumes 1, case_names 1])
  case (1 loop s out)
  show ?case
  proof
    assume wf: "MultiSimulator_wf s"
    from MultiSimulator_loop_body_ok[OF wf]
    consider (halt) r s' where "MultiSimulator_loop_body s = Inl (Inr (r, s'))" "MultiSimulator_wf s'"
      | (again) s1 where "MultiSimulator_loop_body s = Inr s1" "MultiSimulator_wf s1"
      | (throws) "MultiSimulator_loop_body s = Inl (Inl length_error)"
      by blast
    then show "(\<exists>r s'. out = Inr (r, s') \<and> MultiSimulator_wf s') \<or> out = Inl length_error"
    proof cases
      case halt
      with 1(2) show ?thesis by auto
    next
      case again
      with 1(2) have "loop s1 = Some out" by simp
      from 1(1)[OF this] again(2) show ?thesis by simp
    next
      case throws
      with 1(2) show ?thesis by auto
    qed
  qed
qed

lemma multi_symbols_valid_ok:
  "\<forall>i \<in> set is. i < length (read_symbols tr) \<and> i < length (write_symbols tr) \<Longrightarrow>
   \<exists>v. multi_symbols_valid is tr m = Inr v"
  by (induction "is")
    (auto simp: MultiTransition_get_read_symbol_def MultiTransition_get_write_symbol_def)

lemma multi_transitions_valid_ok:
  "\<forall>(key, tr) \<in> set ts. MultiTransition_is_well_formed tr \<Longrightarrow>
   \<exists>v. multi_transitions_valid ts m = Inr v"
proof (induction ts)
  case Nil
  then show ?case by auto
next
  case (Cons p ts)
  obtain key tr where p: "p = (key, tr)" by (cases p)
  from Cons.prems p have wf: "MultiTransition_is_well_formed tr" by simp
  from Cons have ih: "\<exists>v. multi_transitions_valid ts m = Inr v" by simp
  show ?case
  proof (cases "MultiTransition_get_num_tapes tr = machine_num_tapes m")
    case False
    with p show ?thesis by auto
  next
    case True
    with wf have "\<forall>i \<in> set [0..<machine_num_tapes m].
        i < length (read_symbols tr) \<and> i < length (write_symbols tr)"
      by (simp add: MultiTransition_is_well_formed_def MultiTransition_get_num_tapes_def)
    from multi_symbols_valid_ok[OF this] obtain v where
      "multi_symbols_valid [0..<machine_num_tapes m] tr m = Inr v"
      by blast
    with p ih show ?thesis by auto
  qed
qed

lemma MultiTuringMachine_is_valid_ok:
  "\<forall>(key, tr) \<in> set (multi_transitions m). MultiTransition_is_well_formed tr \<Longrightarrow>
   \<exists>v. MultiTuringMachine_is_valid m = Inr v"
  using multi_transitions_valid_ok[of "multi_transitions m" m]
  by (auto simp: MultiTuringMachine_is_valid_def)

lemma multi_simulate_no_throw:
  assumes wf: "\<forall>(key, tr) \<in> set (multi_transitions m). MultiTransition_is_well_formed tr"
    and m: "multi_machine s = Some m"
    and run: "MultiSimulator_simulate w tr N s = Some out"
  shows "(\<exists>r s'. out = Inr (r, s')) \<or> out = Inl length_error"
proof -
  obtain v where v: "MultiTuringMachine_is_valid m = Inr v"
    using MultiTuringMachine_is_valid_ok[OF wf] by blast
  show ?thesis
  proof (cases "v \<and> MultiTuringMachine_is_valid_input_word m w")
    case False
    with m v run show ?thesis
      by (auto simp: MultiSimulator_simulate_def split: if_splits)
  next
    case True
    with v have n: "machine_num_tapes m \<noteq> 0"
      by (auto simp: MultiTuringMachine_is_valid_def split: if_splits)
    let ?s0 = "s\<lparr>multi_trace_enabled := tr, multi_max_steps := N\<rparr>"
    from n m obtain s1 where rs: "MultiSimulator_reset w ?s0 = Inr s1"
      and wf1: "MultiSimulator_wf s1"
      by (auto simp: MultiSimulator_reset_def MultiConfiguration_init_def
          MultiTape_init_word_def MultiSimulator_wf_def MultiTape_wf_def)
    have wf1': "MultiSimulator_wf (MultiSimulator_add_to_trace s1)"
      using wf1 by (simp add: MultiSimulator_wf_def MultiSimulator_add_to_trace_def)
    from MultiSimulator_key_ok[OF wf1'] show ?thesis
    proof
      assume "\<exists>key. MultiSimulator_get_configuration_key (MultiSimulator_add_to_trace s1) = Inr key"
      then obtain s2 where
        mk: "MultiSimulator_mark_configuration_as_visited (MultiSimulator_add_to_trace s1) = Inr s2"
        and wf2: "MultiSimulator_wf s2"
        using wf1' by (auto simp: MultiSimulator_mark_configuration_as_visited_def
            MultiSimulator_wf_def)
      from m v True rs mk run have "MultiSimulator_simulate_loop s2 = Some out"
        by (simp add: MultiSimulator_simulate_def)
      from multi_loop_no_throw[OF this] wf2 show ?thesis by blast
    next
      assume "MultiSimulator_get_configuration_key (MultiSimulator_add_to_trace s1)
              = Inl length_error"
      with m v True rs run show ?thesis
        by (simp add: MultiSimulator_simulate_def MultiSimulator_mark_configuration_as_visited_def)
    qed
  qed
qed
section \<open>The order of the checks in the main loop\<close>

lemma multi_run_outcome_Inr:
  assumes "multi_run_outcome x = Some (Inr (r, n))"
  shows "\<exists>s. x = Some (Inr (r, s)) \<and> multi_step_count (multi_current_config s) = n"
proof (cases x)
  case None
  with assms show ?thesis by (simp add: multi_run_outcome_def)
next
  case (Some y)
  with assms show ?thesis
    by (cases y) (auto simp: multi_run_outcome_def)
qed

text \<open>
  Claim C1. In both simulators every pass through the main loop checks, in this order:
  the budget (INFINITE when the budget is positive and the step counter has reached it,
  whatever the state), then the accept state (ACCEPTED, whether or not a transition is
  defined), then the missing transition (REJECTED), then it executes the step, and only
  then looks the new fingerprint up in the visited set (INFINITE on a repeat, another
  pass otherwise; an exception thrown while the fingerprint is built leaves the call). So a configuration at the step cap in an accept state gives INFINITE,
  an accept state without outgoing transition gives ACCEPTED, and since the first lookup
  comes after the first step, a run that returns INFINITE has executed at least one
  step: the initial configuration is not flagged against itself.
\<close>

theorem simulate_check_order:
  "(budget_exhausted s \<longrightarrow> Simulator_simulate_loop s = Some (Inr (INFINITE, s)))
   \<and> (\<not> budget_exhausted s \<and> Simulator_is_accepting_state s
        \<longrightarrow> Simulator_simulate_loop s = Some (Inr (ACCEPTED, s)))
   \<and> (\<not> budget_exhausted s \<and> \<not> Simulator_is_accepting_state s
        \<and> \<not> Simulator_has_applicable_transition s
        \<longrightarrow> Simulator_simulate_loop s = Some (Inr (REJECTED, s)))
   \<and> (\<not> budget_exhausted s \<and> \<not> Simulator_is_accepting_state s
        \<and> Simulator_has_applicable_transition s
        \<longrightarrow> fst (Simulator_step s)
          \<and> Simulator_simulate_loop s
              = (case Simulator_is_configuration_visited (snd (Simulator_step s)) of
                   Inl e \<Rightarrow> Some (Inl e)
                 | Inr visited \<Rightarrow>
                     if visited then Some (Inr (INFINITE, snd (Simulator_step s)))
                     else (case Simulator_mark_configuration_as_visited (snd (Simulator_step s)) of
                             Inl e \<Rightarrow> Some (Inl e)
                           | Inr s2 \<Rightarrow> Simulator_simulate_loop (Simulator_add_to_trace s2))))
   \<and> (Simulator_simulate w tr N s0 = Some (Inr (INFINITE, s'))
        \<longrightarrow> 0 < step_count (current_config s'))
   \<and> (multi_budget_exhausted ms \<longrightarrow> MultiSimulator_simulate_loop ms = Some (Inr (INFINITE, ms)))
   \<and> (\<not> multi_budget_exhausted ms \<and> MultiSimulator_is_accepting_state ms
        \<longrightarrow> MultiSimulator_simulate_loop ms = Some (Inr (ACCEPTED, ms)))
   \<and> (\<not> multi_budget_exhausted ms \<and> \<not> MultiSimulator_is_accepting_state ms
        \<and> MultiSimulator_has_applicable_transition ms = Inr False
        \<longrightarrow> MultiSimulator_simulate_loop ms = Some (Inr (REJECTED, ms)))
   \<and> (\<not> multi_budget_exhausted ms \<and> \<not> MultiSimulator_is_accepting_state ms
        \<and> MultiSimulator_has_applicable_transition ms = Inr True
        \<and> MultiSimulator_step ms = Inr (True, ms1)
        \<and> MultiSimulator_is_configuration_visited ms1 = Inr visited
        \<and> MultiSimulator_mark_configuration_as_visited ms1 = Inr ms2
        \<longrightarrow> MultiSimulator_simulate_loop ms
              = (if visited then Some (Inr (INFINITE, ms1))
                 else MultiSimulator_simulate_loop (MultiSimulator_add_to_trace ms2)))
   \<and> (MultiSimulator_simulate mw mtr mN ms0 = Some (Inr (INFINITE, ms'))
        \<longrightarrow> 0 < multi_step_count (multi_current_config ms'))"
proof (intro conjI impI)
  assume "budget_exhausted s"
  then show "Simulator_simulate_loop s = Some (Inr (INFINITE, s))"
    by (subst Simulator_simulate_loop.simps)
      (simp add: Simulator_loop_body_def budget_exhausted_def)
next
  assume "\<not> budget_exhausted s \<and> Simulator_is_accepting_state s"
  then show "Simulator_simulate_loop s = Some (Inr (ACCEPTED, s))"
    by (subst Simulator_simulate_loop.simps)
      (auto simp: Simulator_loop_body_def budget_exhausted_def)
next
  assume "\<not> budget_exhausted s \<and> \<not> Simulator_is_accepting_state s
        \<and> \<not> Simulator_has_applicable_transition s"
  then show "Simulator_simulate_loop s = Some (Inr (REJECTED, s))"
    by (subst Simulator_simulate_loop.simps)
      (auto simp: Simulator_loop_body_def budget_exhausted_def)
next
  assume a: "\<not> budget_exhausted s \<and> \<not> Simulator_is_accepting_state s
        \<and> Simulator_has_applicable_transition s"
  then show st: "fst (Simulator_step s)"
    by (simp add: Simulator_step_applicable(1))
  from a st show "Simulator_simulate_loop s
              = (case Simulator_is_configuration_visited (snd (Simulator_step s)) of
                   Inl e \<Rightarrow> Some (Inl e)
                 | Inr visited \<Rightarrow>
                     if visited then Some (Inr (INFINITE, snd (Simulator_step s)))
                     else (case Simulator_mark_configuration_as_visited (snd (Simulator_step s)) of
                             Inl e \<Rightarrow> Some (Inl e)
                           | Inr s2 \<Rightarrow> Simulator_simulate_loop (Simulator_add_to_trace s2)))"
    by (subst Simulator_simulate_loop.simps)
      (auto simp: Simulator_loop_body_def budget_exhausted_def split: sum.splits)
next
  assume "Simulator_simulate w tr N s0 = Some (Inr (INFINITE, s'))"
  then show "0 < step_count (current_config s')"
    by (rule simulate_infinite_after_step)
next
  assume "multi_budget_exhausted ms"
  then have "MultiSimulator_loop_body ms = Inl (Inr (INFINITE, ms))"
    by (simp add: MultiSimulator_loop_body_def multi_budget_exhausted_def)
  then show "MultiSimulator_simulate_loop ms = Some (Inr (INFINITE, ms))"
    by (rule multi_loop_exit)
next
  assume "\<not> multi_budget_exhausted ms \<and> MultiSimulator_is_accepting_state ms"
  then have "MultiSimulator_loop_body ms = Inl (Inr (ACCEPTED, ms))"
    by (auto simp: MultiSimulator_loop_body_def multi_budget_exhausted_def)
  then show "MultiSimulator_simulate_loop ms = Some (Inr (ACCEPTED, ms))"
    by (rule multi_loop_exit)
next
  assume "\<not> multi_budget_exhausted ms \<and> \<not> MultiSimulator_is_accepting_state ms
        \<and> MultiSimulator_has_applicable_transition ms = Inr False"
  then have "MultiSimulator_loop_body ms = Inl (Inr (REJECTED, ms))"
    by (auto simp: MultiSimulator_loop_body_def multi_budget_exhausted_def)
  then show "MultiSimulator_simulate_loop ms = Some (Inr (REJECTED, ms))"
    by (rule multi_loop_exit)
next
  assume a: "\<not> multi_budget_exhausted ms \<and> \<not> MultiSimulator_is_accepting_state ms
        \<and> MultiSimulator_has_applicable_transition ms = Inr True
        \<and> MultiSimulator_step ms = Inr (True, ms1)
        \<and> MultiSimulator_is_configuration_visited ms1 = Inr visited
        \<and> MultiSimulator_mark_configuration_as_visited ms1 = Inr ms2"
  show "MultiSimulator_simulate_loop ms
              = (if visited then Some (Inr (INFINITE, ms1))
                 else MultiSimulator_simulate_loop (MultiSimulator_add_to_trace ms2))"
  proof (cases visited)
    case True
    with a have "MultiSimulator_loop_body ms = Inl (Inr (INFINITE, ms1))"
      by (auto simp: MultiSimulator_loop_body_def multi_budget_exhausted_def)
    from multi_loop_exit[OF this] True show ?thesis by simp
  next
    case False
    with a have "MultiSimulator_loop_body ms = Inr (MultiSimulator_add_to_trace ms2)"
      by (auto simp: MultiSimulator_loop_body_def multi_budget_exhausted_def)
    from multi_loop_next[OF this] False show ?thesis by simp
  qed
next
  assume "MultiSimulator_simulate mw mtr mN ms0 = Some (Inr (INFINITE, ms'))"
  then show "0 < multi_step_count (multi_current_config ms')"
    by (rule multi_simulate_infinite_after_step)
qed

theorem simulate_check_order_witness:
  "budget_exhausted sim_cap_accept \<and> Simulator_is_accepting_state sim_cap_accept
   \<and> Simulator_simulate_loop sim_cap_accept = Some (Inr (INFINITE, sim_cap_accept))
   \<and> \<not> budget_exhausted sim_accept_halt \<and> Simulator_is_accepting_state sim_accept_halt
   \<and> \<not> Simulator_has_applicable_transition sim_accept_halt
   \<and> Simulator_simulate_loop sim_accept_halt = Some (Inr (ACCEPTED, sim_accept_halt))
   \<and> \<not> budget_exhausted sim_reject_halt \<and> \<not> Simulator_is_accepting_state sim_reject_halt
   \<and> \<not> Simulator_has_applicable_transition sim_reject_halt
   \<and> Simulator_simulate_loop sim_reject_halt = Some (Inr (REJECTED, sim_reject_halt))
   \<and> \<not> budget_exhausted sim_first_pass \<and> \<not> Simulator_is_accepting_state sim_first_pass
   \<and> Simulator_has_applicable_transition sim_first_pass
   \<and> Simulator_simulate_loop sim_first_pass = Simulator_simulate_loop sim_cap_accept
   \<and> (\<exists>s'. Simulator_simulate ''aa'' False 1 (Simulator_init (Some right_mover))
               = Some (Inr (INFINITE, s'))
          \<and> 0 < step_count (current_config s'))
   \<and> multi_budget_exhausted multi_cap_accept \<and> MultiSimulator_is_accepting_state multi_cap_accept
   \<and> MultiSimulator_simulate_loop multi_cap_accept = Some (Inr (INFINITE, multi_cap_accept))
   \<and> \<not> multi_budget_exhausted multi_accept_halt \<and> MultiSimulator_is_accepting_state multi_accept_halt
   \<and> MultiSimulator_has_applicable_transition multi_accept_halt = Inr False
   \<and> MultiSimulator_simulate_loop multi_accept_halt = Some (Inr (ACCEPTED, multi_accept_halt))
   \<and> \<not> multi_budget_exhausted multi_start \<and> \<not> MultiSimulator_is_accepting_state multi_start
   \<and> MultiSimulator_has_applicable_transition multi_start = Inr False
   \<and> MultiSimulator_simulate_loop multi_start = Some (Inr (REJECTED, multi_start))
   \<and> \<not> multi_budget_exhausted multi_first_pass \<and> \<not> MultiSimulator_is_accepting_state multi_first_pass
   \<and> MultiSimulator_has_applicable_transition multi_first_pass = Inr True
   \<and> MultiSimulator_simulate_loop multi_first_pass = MultiSimulator_simulate_loop multi_cap_accept
   \<and> (\<exists>ms'. MultiSimulator_simulate ''a'' False 1 multi_start = Some (Inr (INFINITE, ms'))
          \<and> 0 < multi_step_count (multi_current_config ms'))"
proof -
  have h1: "budget_exhausted sim_cap_accept \<and> Simulator_is_accepting_state sim_cap_accept"
    by code_simp
  have h2: "\<not> budget_exhausted sim_accept_halt \<and> Simulator_is_accepting_state sim_accept_halt
      \<and> \<not> Simulator_has_applicable_transition sim_accept_halt"
    by code_simp
  have h3: "\<not> budget_exhausted sim_reject_halt \<and> \<not> Simulator_is_accepting_state sim_reject_halt
      \<and> \<not> Simulator_has_applicable_transition sim_reject_halt"
    by code_simp
  have h4: "\<not> budget_exhausted sim_first_pass \<and> \<not> Simulator_is_accepting_state sim_first_pass
      \<and> Simulator_has_applicable_transition sim_first_pass"
    by code_simp
  have n4: "Simulator_is_configuration_visited (snd (Simulator_step sim_first_pass)) = Inr False"
    and e4: "Simulator_mark_configuration_as_visited (snd (Simulator_step sim_first_pass))
             = Inr sim_cap_accept"
    and t4: "Simulator_add_to_trace sim_cap_accept = sim_cap_accept"
    by code_simp+
  have "run_outcome (Simulator_simulate ''aa'' False 1 (Simulator_init (Some right_mover)))
        = Some (Inr (INFINITE, 1))"
    by code_simp
  then obtain s' where h5: "Simulator_simulate ''aa'' False 1 (Simulator_init (Some right_mover))
        = Some (Inr (INFINITE, s'))"
    by (auto dest: run_outcome_Inr)
  have m1: "multi_budget_exhausted multi_cap_accept
      \<and> MultiSimulator_is_accepting_state multi_cap_accept"
    by code_simp
  have m2: "\<not> multi_budget_exhausted multi_accept_halt
      \<and> MultiSimulator_is_accepting_state multi_accept_halt
      \<and> MultiSimulator_has_applicable_transition multi_accept_halt = Inr False"
    by code_simp
  have m3: "\<not> multi_budget_exhausted multi_start \<and> \<not> MultiSimulator_is_accepting_state multi_start
      \<and> MultiSimulator_has_applicable_transition multi_start = Inr False"
    by code_simp
  have m4: "\<not> multi_budget_exhausted multi_first_pass
      \<and> \<not> MultiSimulator_is_accepting_state multi_first_pass
      \<and> MultiSimulator_has_applicable_transition multi_first_pass = Inr True
      \<and> MultiSimulator_step multi_first_pass
          = Inr (True, multi_cap_accept\<lparr>multi_visited_configurations := {''q0|0,0|a|''}\<rparr>)
      \<and> MultiSimulator_is_configuration_visited
            (multi_cap_accept\<lparr>multi_visited_configurations := {''q0|0,0|a|''}\<rparr>) = Inr False
      \<and> MultiSimulator_mark_configuration_as_visited
            (multi_cap_accept\<lparr>multi_visited_configurations := {''q0|0,0|a|''}\<rparr>)
          = Inr multi_cap_accept"
    by code_simp
  have e4m: "MultiSimulator_add_to_trace multi_cap_accept = multi_cap_accept"
    by code_simp
  have "multi_run_outcome (MultiSimulator_simulate ''a'' False 1 multi_start)
        = Some (Inr (INFINITE, 1))"
    by code_simp
  then obtain ms' where m5: "MultiSimulator_simulate ''a'' False 1 multi_start
        = Some (Inr (INFINITE, ms'))"
    by (auto dest: multi_run_outcome_Inr)
  note a = simulate_check_order[where s = sim_cap_accept and ms = multi_cap_accept
      and w = "''aa''" and tr = False and N = 1 and ?s0.0 = "Simulator_init (Some right_mover)"
      and s' = s' and mw = "''a''" and mtr = False and mN = 1 and ?ms0.0 = multi_start
      and ms' = ms']
  note b = simulate_check_order[where s = sim_accept_halt and ms = multi_accept_halt]
  note c = simulate_check_order[where s = sim_reject_halt and ms = multi_start]
  note d = simulate_check_order[where s = sim_first_pass and ms = multi_first_pass
      and ?ms1.0 = "multi_cap_accept\<lparr>multi_visited_configurations := {''q0|0,0|a|''}\<rparr>"
      and visited = False and ?ms2.0 = multi_cap_accept]
  have c1: "Simulator_simulate_loop sim_cap_accept = Some (Inr (INFINITE, sim_cap_accept))"
    using a[THEN conjunct1] h1 by blast
  have c2: "Simulator_simulate_loop sim_accept_halt = Some (Inr (ACCEPTED, sim_accept_halt))"
    using b[THEN conjunct2, THEN conjunct1] h2 by blast
  have c3: "Simulator_simulate_loop sim_reject_halt = Some (Inr (REJECTED, sim_reject_halt))"
    using c[THEN conjunct2, THEN conjunct2, THEN conjunct1] h3 by blast
  have c4: "Simulator_simulate_loop sim_first_pass = Simulator_simulate_loop sim_cap_accept"
    using d[THEN conjunct2, THEN conjunct2, THEN conjunct2, THEN conjunct1] h4 n4 e4 t4 by simp
  have c5: "0 < step_count (current_config s')"
    using a[THEN conjunct2, THEN conjunct2, THEN conjunct2, THEN conjunct2, THEN conjunct1] h5
    by blast
  have d1: "MultiSimulator_simulate_loop multi_cap_accept = Some (Inr (INFINITE, multi_cap_accept))"
    using a[THEN conjunct2, THEN conjunct2, THEN conjunct2, THEN conjunct2, THEN conjunct2,
        THEN conjunct1] m1
    by blast
  have d2: "MultiSimulator_simulate_loop multi_accept_halt = Some (Inr (ACCEPTED, multi_accept_halt))"
    using b[THEN conjunct2, THEN conjunct2, THEN conjunct2, THEN conjunct2, THEN conjunct2,
        THEN conjunct2, THEN conjunct1] m2
    by blast
  have d3: "MultiSimulator_simulate_loop multi_start = Some (Inr (REJECTED, multi_start))"
    using c[THEN conjunct2, THEN conjunct2, THEN conjunct2, THEN conjunct2, THEN conjunct2,
        THEN conjunct2, THEN conjunct2, THEN conjunct1] m3
    by blast
  have d4: "MultiSimulator_simulate_loop multi_first_pass
            = MultiSimulator_simulate_loop multi_cap_accept"
    using d[THEN conjunct2, THEN conjunct2, THEN conjunct2, THEN conjunct2, THEN conjunct2,
        THEN conjunct2, THEN conjunct2, THEN conjunct2, THEN conjunct1] m4 e4m
    by simp
  have d5: "0 < multi_step_count (multi_current_config ms')"
    using a[THEN conjunct2, THEN conjunct2, THEN conjunct2, THEN conjunct2, THEN conjunct2,
        THEN conjunct2, THEN conjunct2, THEN conjunct2, THEN conjunct2] m5
    by blast
  from h5 c5 have e5: "\<exists>s'. Simulator_simulate ''aa'' False 1 (Simulator_init (Some right_mover))
          = Some (Inr (INFINITE, s')) \<and> 0 < step_count (current_config s')"
    by blast
  from m5 d5 have f5: "\<exists>ms'. MultiSimulator_simulate ''a'' False 1 multi_start
          = Some (Inr (INFINITE, ms')) \<and> 0 < multi_step_count (multi_current_config ms')"
    by blast
  from h1 h2 h3 h4 m1 m2 m3 m4 c1 c2 c3 c4 d1 d2 d3 d4 e5 f5 show ?thesis
    by blast
qed

section \<open>Loading machine files\<close>

text \<open>
  Claim C6 at two failing inputs. \<^verbatim>\<open>set_initial_state\<close> inserts the state into the
  state set and \<^verbatim>\<open>set_blank_symbol\<close> inserts the symbol into the tape alphabet, so the
  checks of \<^verbatim>\<open>is_valid\<close> for an undeclared initial state and for a blank symbol outside
  the tape alphabet cannot fail after them: the file whose initial state \<open>qInicial\<close> is
  not among the declared states \<open>q0 q1\<close>, and the file whose blank symbol \<open>Z\<close> is not
  in the declared tape alphabet \<open>0 1 .\<close>, are both loaded with the result true.
\<close>

theorem load_accepts_undeclared_initial_state_and_blank:
  "''qInicial'' \<notin> set (Parser_split (file_undeclared_initial_state ! 1))
   \<and> file_undeclared_initial_state ! 4 = ''qInicial''
   \<and> fst (Parser_load_from_stream file_undeclared_initial_state (TuringMachine_init CHR ''.''))
   \<and> ''Z'' \<notin> set (Parser_split (file_undeclared_blank ! 2))
   \<and> file_undeclared_blank ! 4 = ''Z''
   \<and> fst (Parser_load_from_stream file_undeclared_blank (TuringMachine_init CHR ''.''))"
  by code_simp

section \<open>The alphabet gate of the word loop\<close>

lemma word_in_alphabet_iff: "fst (word_in_alphabet w m) = (\<forall>c \<in> set w. c \<in> input_alphabet m)"
  by (induction w) (simp_all add: TuringMachine_is_input_symbol_def)

lemma word_in_alphabet_multi_iff:
  "fst (word_in_alphabet_multi w m) = (\<forall>c \<in> set w. c \<in> multi_input_alphabet m)"
  by (induction w) (simp_all add: MultiTuringMachine_is_input_symbol_def)

text \<open>
  Claim C5, as amended. For a word (the line with its white space stripped) that holds a
  symbol outside the input alphabet, the body of the word loop writes the single line
  \<^verbatim>\<open>REJECT\<close> to standard output in both modes; in strict mode it also writes the
  diagnostic naming the first such symbol to standard error, in non-strict mode nothing;
  and in both modes the simulator is left untouched: no simulation is started and no
  step is executed. This holds for single-tape and for multi-tape machines.
\<close>

theorem alphabet_gate:
  "((\<exists>c \<in> set (strip_spaces line). c \<notin> input_alphabet m) \<longrightarrow>
      main_process_line strict_mode tr budget m line simulator
        = Some ([Out_line ''REJECT''],
                (if strict_mode
                 then [Err_word_symbol (snd (word_in_alphabet (strip_spaces line) m))
                         (strip_spaces line)]
                 else []),
                Some simulator))
   \<and> ((\<exists>c \<in> set (strip_spaces line). c \<notin> multi_input_alphabet mm) \<longrightarrow>
      main_process_line_multi strict_mode tr budget mm line msimulator
        = Some ([Out_line ''REJECT''],
                (if strict_mode
                 then [Err_word_symbol (snd (word_in_alphabet_multi (strip_spaces line) mm))
                         (strip_spaces line)]
                 else []),
                Some msimulator))"
proof (intro conjI impI)
  assume "\<exists>c \<in> set (strip_spaces line). c \<notin> input_alphabet m"
  then have "\<not> fst (word_in_alphabet (strip_spaces line) m)"
    by (simp add: word_in_alphabet_iff)
  then obtain bad where "word_in_alphabet (strip_spaces line) m = (False, bad)"
    by (cases "word_in_alphabet (strip_spaces line) m") auto
  then show "main_process_line strict_mode tr budget m line simulator
        = Some ([Out_line ''REJECT''],
                (if strict_mode
                 then [Err_word_symbol (snd (word_in_alphabet (strip_spaces line) m))
                         (strip_spaces line)]
                 else []),
                Some simulator)"
    by (simp add: main_process_line_def Let_def)
next
  assume "\<exists>c \<in> set (strip_spaces line). c \<notin> multi_input_alphabet mm"
  then have "\<not> fst (word_in_alphabet_multi (strip_spaces line) mm)"
    by (simp add: word_in_alphabet_multi_iff)
  then obtain bad where "word_in_alphabet_multi (strip_spaces line) mm = (False, bad)"
    by (cases "word_in_alphabet_multi (strip_spaces line) mm") auto
  then show "main_process_line_multi strict_mode tr budget mm line msimulator
        = Some ([Out_line ''REJECT''],
                (if strict_mode
                 then [Err_word_symbol (snd (word_in_alphabet_multi (strip_spaces line) mm))
                         (strip_spaces line)]
                 else []),
                Some msimulator)"
    by (simp add: main_process_line_multi_def Let_def)
qed


theorem alphabet_gate_witness:
  "main_process_line True False 1000 accept_after_a ''a b'' (Simulator_init (Some accept_after_a))
     = Some ([Out_line ''REJECT''], [Err_word_symbol ''b'' ''ab''],
             Some (Simulator_init (Some accept_after_a)))
   \<and> main_process_line False False 1000 accept_after_a ''a b'' (Simulator_init (Some accept_after_a))
     = Some ([Out_line ''REJECT''], [], Some (Simulator_init (Some accept_after_a)))
   \<and> main_process_line_multi True True 5 multi_accept_after_a ''ba'' multi_start
     = Some ([Out_line ''REJECT''], [Err_word_symbol ''b'' ''ba''], Some multi_start)
   \<and> main_process_line_multi False True 5 multi_accept_after_a ''ba'' multi_start
     = Some ([Out_line ''REJECT''], [], Some multi_start)"
proof -
  have h: "\<exists>c \<in> set (strip_spaces ''a b''). c \<notin> input_alphabet accept_after_a"
    by code_simp
  have b: "snd (word_in_alphabet (strip_spaces ''a b'') accept_after_a) = ''b''"
    and w: "strip_spaces ''a b'' = ''ab''"
    by code_simp+
  have mh: "\<exists>c \<in> set (strip_spaces ''ba''). c \<notin> multi_input_alphabet multi_accept_after_a"
    by code_simp
  have mb: "snd (word_in_alphabet_multi (strip_spaces ''ba'') multi_accept_after_a) = ''b''"
    and mw: "strip_spaces ''ba'' = ''ba''"
    by code_simp+
  note t = alphabet_gate[where line = "''a b''" and m = accept_after_a and tr = False
      and budget = 1000 and simulator = "Simulator_init (Some accept_after_a)", THEN conjunct1,
      THEN mp, OF h]
  note u = alphabet_gate[where line = "''ba''" and mm = multi_accept_after_a and tr = True
      and budget = 5 and msimulator = multi_start, THEN conjunct2, THEN mp, OF mh]
  from t[of True] t[of False] u[of True] u[of False] b w mb mw
  show ?thesis by simp
qed

text \<open>
  The claim as stated fails in strict mode: the line written to standard output for a
  word with a symbol outside the alphabet is \<^verbatim>\<open>REJECT\<close>, not \<^verbatim>\<open>ERROR\<close>.
\<close>

theorem strict_mode_rejects_counterexample:
  "main_process_line True False 1000 accept_after_a ''a b'' (Simulator_init (Some accept_after_a))
     = Some ([Out_line ''REJECT''], [Err_word_symbol ''b'' ''ab''],
             Some (Simulator_init (Some accept_after_a)))
   \<and> ''REJECT'' \<noteq> result_to_string ERROR"
  by code_simp


section \<open>A run stopped by a fingerprint collision\<close>

text \<open>
  The fingerprint does not say where on the tape the content lies: the two
  configurations below agree in state, head position and content, and so in their
  fingerprint and for \<^verbatim>\<open>is_equivalent\<close>, yet the head reads \<open>a\<close> in the first and the
  blank in the second.
\<close>

lemma fingerprint_ignores_content_offset:
  "config_fields fp_offset_a = config_fields fp_offset_b
   \<and> Configuration_to_compact_string fp_offset_a = Configuration_to_compact_string fp_offset_b
   \<and> Configuration_to_compact_string fp_offset_a = Inr ''q0|0|a''
   \<and> Configuration_is_equivalent fp_offset_a fp_offset_b = Inr True
   \<and> Tape_read (tape fp_offset_a) = CHR ''a''
   \<and> Tape_read (tape fp_offset_b) = CHR ''.''"
  by code_simp

text \<open>
  Claim C3 at a failing input. The fingerprint joins the state, the head position and the
  content with bars and escapes nothing, so a state name that holds a bar makes
  configurations that differ in state, head position and content collide. The machine
  file \<open>file_bar_state\<close> is loaded as a valid machine. On the word \<open>1|x\<close>, with the trace
  on and no budget, the run goes through the configurations (\<open>q\<close>, 0, \<open>1|x\<close>),
  (\<open>q1\<close>, 1, \<open>|x\<close>), (\<open>q2\<close>, 2, \<open>x\<close>) and reaches (\<open>q|0\<close>, 1, \<open>x\<close>), which differs from each
  of them in state, head position and content, and which \<^verbatim>\<open>is_equivalent\<close> tells apart
  from each of them. Its fingerprint \<open>q|0|1|x\<close> is that of the initial configuration, so
  the run is stopped with INFINITE and the loop reported, one step before the machine
  accepts.
\<close>

theorem fingerprint_collision_stops_accepting_run:
  "fst (Parser_load_from_stream file_bar_state (TuringMachine_init CHR ''.''))
   \<and> run_fields (Simulator_simulate ''1|x'' True 0 (Simulator_init bar_state_machine))
       = Some (Inr (INFINITE, (''q|0'', 1, Inr ''x''),
                    [(''q'', 0, Inr ''1|x''), (''q1'', 1, Inr ''|x''), (''q2'', 2, Inr ''x'')]))
   \<and> run_report (Simulator_simulate ''1|x'' True 0 (Simulator_init bar_state_machine))
       = Some (Inr (INFINITE, Inr True, [Inr ''q|0|1|x'', Inr ''q1|1||x'', Inr ''q2|2|x'']))
   \<and> run_final_fingerprint (Simulator_simulate ''1|x'' True 0 (Simulator_init bar_state_machine))
       = Some (Inr ''q|0|1|x'')
   \<and> run_final_equivalences (Simulator_simulate ''1|x'' True 0 (Simulator_init bar_state_machine))
       = Some (Inr [Inr False, Inr False, Inr False])
   \<and> run_accepts_after_next_step
         (Simulator_simulate ''1|x'' True 0 (Simulator_init bar_state_machine))
       = Some (Inr True)"
  by code_simp
end
